(* ===== verification/Prelude.thy ===== *)
theory Prelude
  imports Main "HOL-Library.AList"
begin

text \<open>
  Shared vocabulary of the development: Python exceptions and the result type in which a
  raised exception is a value, the error monad's combinators, Python dictionaries as
  association lists in insertion order, and the two interfaces the components rely on
  (a dictionary, and an encoder with its decoder).
\<close>

section \<open>Exceptions and results\<close>

text \<open>
  One constructor per exception class the code raises or catches. Messages are not
  modelled, except where the code reads them back: \<open>RuntimeError\<close> and \<open>CalledProcessError\<close>
  keep what their handlers look at. \<open>SystemExit\<close> is what \<open>exit(n)\<close> raises.
\<close>

datatype exn =
    KeyError
  | IndexError
  | AttributeError
  | TypeError
  | ValueError
  | BinasciiError
  | UnicodeDecodeError
  | JSONDecodeError
  | AssertionError
  | UnboundLocalError
  | NotImplementedError
  | RuntimeError "string list"
  | CalledProcessError int string
  | AlgodHTTPError
  | AtomicTransactionComposerError
  | FileNotFoundError
  | SystemExit int
  | OtherException string

type_synonym 'a res = "exn + 'a"

text \<open>The subclass tests of \<open>except\<close> clauses, as Python's class hierarchy has them.\<close>

fun is_value_error :: "exn \<Rightarrow> bool" where
  "is_value_error ValueError = True"
| "is_value_error BinasciiError = True"
| "is_value_error UnicodeDecodeError = True"
| "is_value_error JSONDecodeError = True"
| "is_value_error _ = False"

fun is_runtime_error :: "exn \<Rightarrow> bool" where
  "is_runtime_error (RuntimeError _) = True"
| "is_runtime_error NotImplementedError = True"
| "is_runtime_error _ = False"

fun is_system_exit :: "exn \<Rightarrow> bool" where
  "is_system_exit (SystemExit _) = True"
| "is_system_exit _ = False"

section \<open>The error monad\<close>

named_theorems res_iff \<open>when a composed computation returns, and when it raises\<close>

definition bind_res :: "'a res \<Rightarrow> ('a \<Rightarrow> 'b res) \<Rightarrow> 'b res" where
  "bind_res m f = (case m of Inl e \<Rightarrow> Inl e | Inr x \<Rightarrow> f x)"

definition map_res :: "('a \<Rightarrow> 'b) \<Rightarrow> 'a res \<Rightarrow> 'b res" where
  "map_res f m = (case m of Inl e \<Rightarrow> Inl e | Inr x \<Rightarrow> Inr (f x))"

definition catch_res :: "'a res \<Rightarrow> (exn \<Rightarrow> bool) \<Rightarrow> (exn \<Rightarrow> 'a res) \<Rightarrow> 'a res" where
  "catch_res m p h = (case m of Inl e \<Rightarrow> if p e then h e else Inl e | Inr x \<Rightarrow> Inr x)"

definition of_option :: "exn \<Rightarrow> 'a option \<Rightarrow> 'a res" where
  "of_option e x = (case x of None \<Rightarrow> Inl e | Some y \<Rightarrow> Inr y)"

definition guard_res :: "bool \<Rightarrow> exn \<Rightarrow> unit res" where
  "guard_res b e = (if b then Inr () else Inl e)"

fun mapM_res :: "('a \<Rightarrow> 'b res) \<Rightarrow> 'a list \<Rightarrow> 'b list res" where
  "mapM_res f [] = Inr []"
| "mapM_res f (x # xs) = bind_res (f x) (\<lambda>y. map_res (Cons y) (mapM_res f xs))"

fun foldM_res :: "('a \<Rightarrow> 's \<Rightarrow> 's res) \<Rightarrow> 'a list \<Rightarrow> 's \<Rightarrow> 's res" where
  "foldM_res f [] s = Inr s"
| "foldM_res f (x # xs) s = bind_res (f x s) (foldM_res f xs)"

lemma bind_res_simps [simp]:
  "bind_res (Inl e) f = Inl e"
  "bind_res (Inr x) f = f x"
  by (simp_all add: bind_res_def)

lemma map_res_simps [simp]:
  "map_res g (Inl e) = Inl e"
  "map_res g (Inr x) = Inr (g x)"
  by (simp_all add: map_res_def)

lemma catch_res_simps [simp]:
  "catch_res (Inl e) p h = (if p e then h e else Inl e)"
  "catch_res (Inr x) p h = Inr x"
  by (simp_all add: catch_res_def)

lemma of_option_simps [simp]:
  "of_option e None = Inl e"
  "of_option e (Some x) = Inr x"
  by (simp_all add: of_option_def)

lemma guard_res_simps [simp]:
  "guard_res True e = Inr ()"
  "guard_res False e = Inl e"
  by (simp_all add: guard_res_def)

lemma bind_res_Inr_iff [res_iff]:
  "bind_res m f = Inr y \<longleftrightarrow> (\<exists>x. m = Inr x \<and> f x = Inr y)"
  by (cases m) auto

lemma bind_res_Inl_iff [res_iff]:
  "bind_res m f = Inl e \<longleftrightarrow> m = Inl e \<or> (\<exists>x. m = Inr x \<and> f x = Inl e)"
  by (cases m) auto

lemma map_res_Inr_iff [res_iff]: "map_res g m = Inr y \<longleftrightarrow> (\<exists>x. m = Inr x \<and> y = g x)"
  by (cases m) auto

lemma map_res_Inl_iff [res_iff]: "map_res g m = Inl e \<longleftrightarrow> m = Inl e"
  by (cases m) auto

lemma of_option_Inr_iff [res_iff]: "of_option e x = Inr y \<longleftrightarrow> x = Some y"
  by (cases x) auto

lemma guard_res_Inr_iff [res_iff]: "guard_res b e = Inr u \<longleftrightarrow> b"
  by (cases b) auto

lemma bind_res_split:
  "P (bind_res m f) \<longleftrightarrow> (\<forall>e. m = Inl e \<longrightarrow> P (Inl e)) \<and> (\<forall>x. m = Inr x \<longrightarrow> P (f x))"
  by (cases m) auto

lemma bind_map_res: "bind_res (map_res g m) f = bind_res m (\<lambda>x. f (g x))"
  by (cases m) simp_all

lemma bind_bind_res: "bind_res (bind_res m g) f = bind_res m (\<lambda>x. bind_res (g x) f)"
  by (cases m) simp_all

lemma catch_res_Inr: "catch_res m p h = Inr x \<longleftrightarrow> m = Inr x \<or> (\<exists>e. m = Inl e \<and> p e \<and> h e = Inr x)"
  by (cases m) (auto simp: catch_res_def)

lemma bind_res_cong [fundef_cong]:
  "m = m' \<Longrightarrow> (\<And>x. m' = Inr x \<Longrightarrow> f x = f' x) \<Longrightarrow> bind_res m f = bind_res m' f'"
  by (cases m') auto

lemma mapM_res_cong [fundef_cong]:
  "xs = ys \<Longrightarrow> (\<And>x. x \<in> set ys \<Longrightarrow> f x = g x) \<Longrightarrow> mapM_res f xs = mapM_res g ys"
  by (induction ys arbitrary: xs) auto

lemma mapM_res_Inr_iff [res_iff]:
  "mapM_res f xs = Inr ys \<longleftrightarrow> list_all2 (\<lambda>x y. f x = Inr y) xs ys"
  by (induction xs arbitrary: ys) (auto simp: res_iff list_all2_Cons1)

lemma mapM_res_map: "mapM_res f (map g xs) = mapM_res (\<lambda>x. f (g x)) xs"
  by (induction xs) auto

lemma mapM_res_Inr [simp]: "mapM_res (\<lambda>x. Inr (g x)) xs = Inr (map g xs)"
  by (induction xs) auto

lemma mapM_res_append:
  "mapM_res f (xs @ ys) =
     bind_res (mapM_res f xs) (\<lambda>a. map_res (\<lambda>b. a @ b) (mapM_res f ys))"
  by (induction xs) (auto simp: bind_res_def map_res_def split: sum.splits)

lemma mapM_res_length: "mapM_res f xs = Inr ys \<Longrightarrow> length ys = length xs"
  by (auto simp: res_iff dest: list_all2_lengthD)

lemma foldM_res_append:
  "foldM_res f (xs @ ys) s = bind_res (foldM_res f xs s) (foldM_res f ys)"
  by (induction xs arbitrary: s) (auto simp: bind_res_def split: sum.splits)

text \<open>A fold keeps what each of its steps keeps.\<close>

lemma foldM_res_invariant:
  assumes "foldM_res f xs s = Inr s'" and "I s"
    and "\<And>x t t'. x \<in> set xs \<Longrightarrow> I t \<Longrightarrow> f x t = Inr t' \<Longrightarrow> I t'"
  shows "I s'"
  using assms
proof (induction xs arbitrary: s)
  case Nil
  then show ?case by simp
next
  case (Cons x xs)
  from Cons.prems(1) obtain t where t: "f x s = Inr t" and rest: "foldM_res f xs t = Inr s'"
    by (auto simp: res_iff)
  have "I t" using Cons.prems(2,3) t by (meson list.set_intros(1))
  with Cons.IH [OF rest] Cons.prems(3) show ?case by (meson list.set_intros(2))
qed

section \<open>Dictionaries\<close>

text \<open>
  A Python dictionary keeps its keys in the order of their first insertion, and an
  assignment to a present key keeps the key's place: an association list, read by
  \<open>map_of\<close> and written by \<open>AList.update\<close>, with distinct keys.
\<close>

type_synonym ('k, 'v) dict = "('k \<times> 'v) list"

abbreviation dict_get :: "('k, 'v) dict \<Rightarrow> 'k \<Rightarrow> 'v option" where
  "dict_get d k \<equiv> map_of d k"

abbreviation dict_set :: "('k, 'v) dict \<Rightarrow> 'k \<Rightarrow> 'v \<Rightarrow> ('k, 'v) dict" where
  "dict_set d k v \<equiv> AList.update k v d"

abbreviation dict_keys :: "('k, 'v) dict \<Rightarrow> 'k list" where
  "dict_keys d \<equiv> map fst d"

definition wf_dict :: "('k, 'v) dict \<Rightarrow> bool" where
  "wf_dict d \<longleftrightarrow> distinct (dict_keys d)"

text \<open>\<open>{k: v for k, v in items}\<close>: the pairs are stored one after the other.\<close>

definition dict_of_items :: "('k \<times> 'v) list \<Rightarrow> ('k, 'v) dict" where
  "dict_of_items xs = foldl (\<lambda>d (k, v). dict_set d k v) [] xs"

text \<open>\<open>if not k in d: d[k] = v\<close>.\<close>

definition set_default :: "'k \<Rightarrow> 'v \<Rightarrow> ('k, 'v) dict \<Rightarrow> ('k, 'v) dict" where
  "set_default k v d = (if dict_get d k = None then dict_set d k v else d)"

text \<open>A run of such statements, in the order the code has them.\<close>

definition set_defaults :: "('k \<times> 'v) list \<Rightarrow> ('k, 'v) dict \<Rightarrow> ('k, 'v) dict" where
  "set_defaults kvs d = foldl (\<lambda>d (k, v). set_default k v d) d kvs"

subsection \<open>The dictionary interface\<close>

text \<open>
  What the components use of a dictionary: reading after a write, and the order of the
  keys. Everything the clients need about defaults follows from these laws.
\<close>

locale dict_ops =
  fixes get :: "'d \<Rightarrow> 'k \<Rightarrow> 'v option"
    and put :: "'d \<Rightarrow> 'k \<Rightarrow> 'v \<Rightarrow> 'd"
    and keys :: "'d \<Rightarrow> 'k list"
  assumes get_put: "get (put d k v) k' = (if k' = k then Some v else get d k')"
    and keys_put: "keys (put d k v) = (if k \<in> set (keys d) then keys d else keys d @ [k])"
    and get_keys: "get d k \<noteq> None \<longleftrightarrow> k \<in> set (keys d)"
begin

lemma get_default:
  "get (if get d k = None then put d k v else d) k' =
     (case get d k' of Some x \<Rightarrow> Some x | None \<Rightarrow> if k' = k then Some v else None)"
  by (auto simp: get_put split: option.splits)

lemma get_defaults:
  "get (foldl (\<lambda>d (k, v). if get d k = None then put d k v else d) d kvs) k' =
     (case get d k' of Some x \<Rightarrow> Some x | None \<Rightarrow> map_of kvs k')"
proof (induction kvs arbitrary: d)
  case Nil
  then show ?case by (simp split: option.splits)
next
  case (Cons kv kvs)
  obtain k v where kv: "kv = (k, v)" by (cases kv)
  show ?case
    by (simp add: kv Cons.IH get_put split: option.splits)
qed

lemma put_distinct: "distinct (keys d) \<Longrightarrow> distinct (keys (put d k v))"
  by (simp add: keys_put)

lemma defaults_distinct:
  "distinct (keys d) \<Longrightarrow>
     distinct (keys (foldl (\<lambda>d (k, v). if get d k = None then put d k v else d) d kvs))"
  by (induction kvs arbitrary: d) (auto simp: put_distinct)

lemma defaults_id:
  "(\<And>k v. (k, v) \<in> set kvs \<Longrightarrow> get d k \<noteq> None) \<Longrightarrow>
     foldl (\<lambda>d (k, v). if get d k = None then put d k v else d) d kvs = d"
proof (induction kvs)
  case Nil
  then show ?case by simp
next
  case (Cons kv kvs)
  obtain k v where kv: "kv = (k, v)" by (cases kv)
  obtain w where "get d k = Some w" using Cons.prems [of k v] kv by auto
  moreover have "\<And>k v. (k, v) \<in> set kvs \<Longrightarrow> get d k \<noteq> None"
    using Cons.prems by auto
  ultimately show ?case using kv Cons.IH by simp
qed

end

lemma dict_keys_set:
  "dict_keys (dict_set d k v) = (if k \<in> set (dict_keys d) then dict_keys d else dict_keys d @ [k])"
  by (induction d) auto

lemma dict_get_set: "dict_get (dict_set d k v) k' = (if k' = k then Some v else dict_get d k')"
  by (simp add: update_conv')

interpretation py_dict: dict_ops map_of "\<lambda>d k v. AList.update k v d" "map fst"
proof unfold_locales
  fix d :: "('k \<times> 'v) list" and k k' :: 'k and v :: 'v
  show "dict_get (dict_set d k v) k' = (if k' = k then Some v else dict_get d k')"
    by (rule dict_get_set)
  show "dict_keys (dict_set d k v) =
      (if k \<in> set (dict_keys d) then dict_keys d else dict_keys d @ [k])"
    by (rule dict_keys_set)
  show "dict_get d k \<noteq> None \<longleftrightarrow> k \<in> set (dict_keys d)"
    by (simp add: map_of_eq_None_iff)
qed

lemma set_defaults_fold:
  "set_defaults kvs d =
     foldl (\<lambda>d (k, v). if dict_get d k = None then dict_set d k v else d) d kvs"
  by (simp add: set_defaults_def set_default_def)

lemma set_defaults_simps [simp]:
  "set_defaults [] d = d"
  "set_defaults ((k, v) # kvs) d = set_defaults kvs (set_default k v d)"
  by (simp_all add: set_defaults_def)

lemma dict_get_default:
  "dict_get (set_default k v d) k' =
     (case dict_get d k' of Some x \<Rightarrow> Some x | None \<Rightarrow> if k' = k then Some v else None)"
  unfolding set_default_def by (rule py_dict.get_default)

lemma dict_get_defaults:
  "dict_get (set_defaults kvs d) k =
     (case dict_get d k of Some x \<Rightarrow> Some x | None \<Rightarrow> map_of kvs k)"
  unfolding set_defaults_fold by (rule py_dict.get_defaults)

lemma set_defaults_id:
  "(\<And>k v. (k, v) \<in> set kvs \<Longrightarrow> dict_get d k \<noteq> None) \<Longrightarrow> set_defaults kvs d = d"
  unfolding set_defaults_fold by (rule py_dict.defaults_id)

lemma wf_dict_empty [simp, intro]: "wf_dict []"
  by (simp add: wf_dict_def)

lemma wf_dict_set [simp, intro]: "wf_dict d \<Longrightarrow> wf_dict (dict_set d k v)"
  unfolding wf_dict_def by (rule py_dict.put_distinct)

lemma wf_set_default [simp, intro]: "wf_dict d \<Longrightarrow> wf_dict (set_default k v d)"
  by (simp add: set_default_def)

lemma wf_set_defaults [simp, intro]: "wf_dict d \<Longrightarrow> wf_dict (set_defaults kvs d)"
  unfolding set_defaults_fold wf_dict_def by (rule py_dict.defaults_distinct)

lemma wf_dict_of_items: "wf_dict (dict_of_items xs)"
proof -
  have "wf_dict d \<Longrightarrow> wf_dict (foldl (\<lambda>d (k, v). dict_set d k v) d xs)" for d
    by (induction xs arbitrary: d) auto
  then show ?thesis by (simp add: dict_of_items_def)
qed

lemma dict_set_fresh: "k \<notin> set (dict_keys d) \<Longrightarrow> dict_set d k v = d @ [(k, v)]"
  by (induction d) auto

lemma dict_of_items_distinct: "wf_dict xs \<Longrightarrow> dict_of_items xs = xs"
proof -
  have "wf_dict (d @ xs) \<Longrightarrow> foldl (\<lambda>d (k, v). dict_set d k v) d xs = d @ xs" for d
  proof (induction xs arbitrary: d)
    case Nil
    then show ?case by simp
  next
    case (Cons x xs)
    obtain k v where x: "x = (k, v)" by (cases x)
    have "k \<notin> set (dict_keys d)" using Cons.prems x by (auto simp: wf_dict_def)
    moreover have "wf_dict ((d @ [(k, v)]) @ xs)" using Cons.prems x by simp
    ultimately show ?case
      using Cons.IH [of "d @ [(k, v)]"] x by (simp add: dict_set_fresh)
  qed
  then show "wf_dict xs \<Longrightarrow> dict_of_items xs = xs" by (simp add: dict_of_items_def)
qed

lemma dict_set_twice [simp]: "dict_set (dict_set d k v) k w = dict_set d k w"
  by (induction d) auto

lemma dict_set_same: "dict_get d k = Some v \<Longrightarrow> dict_set d k v = d"
  by (induction d) (auto split: if_splits)

lemma dict_of_items_append:
  "dict_of_items (xs @ [(k, v)]) = dict_set (dict_of_items xs) k v"
  by (simp add: dict_of_items_def)

lemma dict_get_None_iff: "dict_get d k = None \<longleftrightarrow> k \<notin> set (dict_keys d)"
  by (simp add: map_of_eq_None_iff)

section \<open>Encoders and decoders\<close>

text \<open>
  The contract of a fallible decoder with its encoder: on the values in \<open>ok\<close>, decoding
  what was encoded gives the value back. Base64, decimal integers and the JSON text of
  the scenario are such pairs.
\<close>

locale codec =
  fixes enc :: "'a \<Rightarrow> 'b"
    and dec :: "'b \<Rightarrow> 'a res"
    and ok :: "'a \<Rightarrow> bool"
  assumes dec_enc: "ok x \<Longrightarrow> dec (enc x) = Inr x"
begin

lemma enc_inj: "ok x \<Longrightarrow> ok y \<Longrightarrow> enc x = enc y \<Longrightarrow> x = y"
  by (metis Inr_inject dec_enc)

lemma mapM_dec_enc: "list_all ok xs \<Longrightarrow> mapM_res dec (map enc xs) = Inr xs"
  by (induction xs) (auto simp: dec_enc)

lemma dec_enc_pairs:
  "list_all (\<lambda>(k, v). ok v) kvs \<Longrightarrow>
     mapM_res (\<lambda>(k, w). map_res (Pair k) (dec w)) (map (\<lambda>(k, v). (k, enc v)) kvs) = Inr kvs"
  by (induction kvs) (auto simp: dec_enc)

end

end
