(* ===== verification/PyStd.thy ===== *)
theory PyStd
  imports Prelude "HOL-Library.Word" "HOL-Library.Char_ord" "HOL-Library.List_Lexorder"
begin

text \<open>
  The parts of Python's standard library the code calls: text (slices, \<open>strip\<close>, \<open>split\<close>,
  case, code-point order), decimal integers (\<open>str\<close> and \<open>int\<close>), byte strings and their
  ASCII/UTF-8 text, and base64. A Python string is a list of characters with code points
  below 256, a byte string a list of 8-bit words.
\<close>

type_synonym bytes = "8 word list"

named_theorems py_eval \<open>rules that evaluate the library's functions on closed text\<close>

section \<open>Text\<close>

definition code_point :: "char \<Rightarrow> nat" where
  "code_point c = of_char c"

text \<open>\<open>s[2:-1]\<close>: without the first two and the last characters.\<close>

definition slice_2_m1 :: "'a list \<Rightarrow> 'a list" where
  "slice_2_m1 s = take (length s - 3) (drop 2 s)"

definition strip_char :: "char \<Rightarrow> string \<Rightarrow> string" where
  "strip_char c s = rev (dropWhile ((=) c) (rev (dropWhile ((=) c) s)))"

text \<open>\<open>s.split(c)\<close>: never empty, one piece more than separators.\<close>

fun split_on :: "char \<Rightarrow> string \<Rightarrow> string list" where
  "split_on c [] = [[]]"
| "split_on c (x # xs) =
     (if x = c then [] # split_on c xs
      else case split_on c xs of p # ps \<Rightarrow> (x # p) # ps | [] \<Rightarrow> [[x]])"

fun join_with :: "string \<Rightarrow> string list \<Rightarrow> string" where
  "join_with sep [] = []"
| "join_with sep [x] = x"
| "join_with sep (x # xs) = x @ sep @ join_with sep xs"

fun starts_with :: "string \<Rightarrow> string \<Rightarrow> bool" where
  "starts_with [] s = True"
| "starts_with (p # ps) [] = False"
| "starts_with (p # ps) (x # xs) = (p = x \<and> starts_with ps xs)"

definition ends_with :: "string \<Rightarrow> string \<Rightarrow> bool" where
  "ends_with suf s = starts_with (rev suf) (rev s)"

text \<open>
  \<open>str.upper\<close> on ASCII letters; the code upper-cases cell labels and argument names, which
  are ASCII.
\<close>

definition upper_char :: "char \<Rightarrow> char" where
  "upper_char c = (if 97 \<le> code_point c \<and> code_point c \<le> 122
     then char_of (code_point c - 32) else c)"

definition upper :: "string \<Rightarrow> string" where
  "upper s = map upper_char s"

lemma bit_one_nat [simp]: "bit (Suc 0) 0"
  by (simp add: bit_Suc_0_iff)

lemmas [py_eval] = char_of_def code_point_def upper_char_def upper_def

lemma slice_2_m1_quoted [simp]: "slice_2_m1 (a # b # s @ [c]) = s"
  by (simp add: slice_2_m1_def)

lemma slice_2_m1_length: "length (slice_2_m1 s) = length s - 3"
  by (simp add: slice_2_m1_def)

lemma split_on_not_Nil [simp]: "split_on c s \<noteq> []"
  by (induction s) (auto split: list.splits)

lemma split_on_plain: "c \<notin> set s \<Longrightarrow> split_on c s = [s]"
  by (induction s) auto

lemma split_on_append: "c \<notin> set s \<Longrightarrow> split_on c (s @ c # t) = s # split_on c t"
  by (induction s) auto

lemma split_on_pieces: "p \<in> set (split_on c s) \<Longrightarrow> c \<notin> set p"
proof (induction s arbitrary: p)
  case Nil
  then show ?case by simp
next
  case (Cons x xs)
  then show ?case
    by (cases "split_on c xs") (auto split: if_splits)
qed

lemma join_split: "join_with [c] (split_on c s) = s"
proof (induction s)
  case Nil
  then show ?case by simp
next
  case (Cons x xs)
  obtain p ps where "split_on c xs = p # ps" by (cases "split_on c xs") auto
  with Cons.IH show ?case by (cases ps) auto
qed

lemma split_join:
  "ps \<noteq> [] \<Longrightarrow> list_all (\<lambda>p. c \<notin> set p) ps \<Longrightarrow> split_on c (join_with [c] ps) = ps"
  by (induction "[c]" ps rule: join_with.induct) (auto simp: split_on_plain split_on_append)

lemma strip_char_quoted:
  assumes "c \<notin> set s"
  shows "strip_char c (c # s @ [c]) = s"
proof -
  have dw: "dropWhile ((=) c) t = t" if "c \<notin> set t" for t
    using that by (cases t) auto
  show ?thesis
  proof (cases s)
    case Nil
    then show ?thesis by (simp add: strip_char_def)
  next
    case (Cons x xs)
    then have "dropWhile ((=) c) (s @ [c]) = s @ [c]" using assms by auto
    then show ?thesis using assms by (simp add: strip_char_def dw)
  qed
qed

lemma strip_char_plain: "c \<notin> set s \<Longrightarrow> strip_char c s = s"
proof -
  assume a: "c \<notin> set s"
  have dw: "dropWhile ((=) c) t = t" if "c \<notin> set t" for t
    using that by (cases t) auto
  show ?thesis using a by (simp add: strip_char_def dw)
qed

section \<open>Decimal integers\<close>

fun nat_digits :: "nat \<Rightarrow> string" where
  "nat_digits n = (if n < 10 then [char_of (48 + n)]
     else nat_digits (n div 10) @ [char_of (48 + n mod 10)])"

declare nat_digits.simps [simp del]

text \<open>\<open>str(i)\<close>.\<close>

definition str_of_int :: "int \<Rightarrow> string" where
  "str_of_int i = (if i < 0 then CHR ''-'' # nat_digits (nat (- i)) else nat_digits (nat i))"

definition is_digit :: "char \<Rightarrow> bool" where
  "is_digit c \<longleftrightarrow> 48 \<le> code_point c \<and> code_point c \<le> 57"

definition is_space :: "char \<Rightarrow> bool" where
  "is_space c \<longleftrightarrow> code_point c \<in> {9, 10, 11, 12, 13, 28, 29, 30, 31, 32, 133, 160}"

definition strip_space :: "string \<Rightarrow> string" where
  "strip_space s = rev (dropWhile is_space (rev (dropWhile is_space s)))"

text \<open>Digits, with single underscores between them; \<open>ok\<close> holds just after a digit.\<close>

fun digits_value :: "nat \<Rightarrow> bool \<Rightarrow> string \<Rightarrow> nat option" where
  "digits_value acc ok [] = (if ok then Some acc else None)"
| "digits_value acc ok (c # cs) =
     (if is_digit c then digits_value (acc * 10 + (code_point c - 48)) True cs
      else if c = CHR ''_'' \<and> ok then digits_value acc False cs
      else None)"

text \<open>\<open>int(s)\<close> for a string: surrounding white space, a sign, digits.\<close>

definition int_of_str :: "string \<Rightarrow> int res" where
  "int_of_str s = (case strip_space s of
       [] \<Rightarrow> Inl ValueError
     | c # cs \<Rightarrow>
         if c = CHR ''-'' then of_option ValueError (map_option (\<lambda>n. - int n) (digits_value 0 False cs))
         else if c = CHR ''+'' then of_option ValueError (map_option int (digits_value 0 False cs))
         else of_option ValueError (map_option int (digits_value 0 False (c # cs))))"

lemma code_point_less_256 [simp]: "code_point c < 256"
  by (simp add: code_point_def)

lemma code_point_char_of [simp]: "n < 256 \<Longrightarrow> code_point (char_of n) = n"
  by (simp add: code_point_def)

lemma char_of_code_point [simp]: "char_of (code_point c) = c"
  by (simp add: code_point_def)

lemma is_digit_digit [simp]: "n < 10 \<Longrightarrow> is_digit (char_of (48 + n :: nat))"
  by (simp add: is_digit_def)

lemma nat_digits_all: "list_all is_digit (nat_digits n)"
  by (induction n rule: nat_digits.induct) (subst nat_digits.simps, simp)

lemma nat_digits_not_Nil [simp]: "nat_digits n \<noteq> []"
  by (subst nat_digits.simps) simp

lemma digits_value_append:
  "list_all is_digit xs \<Longrightarrow> xs \<noteq> [] \<or> ok \<Longrightarrow>
     digits_value acc ok (xs @ ys) = digits_value (the (digits_value acc True xs)) True ys"
proof (induction xs arbitrary: acc ok)
  case Nil
  then show ?case by simp
next
  case (Cons x xs)
  then show ?case by simp
qed

lemma digits_value_nat_digits: "digits_value 0 ok (nat_digits n) = Some n"
proof (induction n arbitrary: ok rule: nat_digits.induct)
  case (1 n)
  show ?case
  proof (cases "n < 10")
    case True
    then show ?thesis by (subst nat_digits.simps) simp
  next
    case False
    then have "digits_value 0 ok (nat_digits n) =
        digits_value (the (digits_value 0 True (nat_digits (n div 10)))) True
          [char_of (48 + n mod 10)]"
      by (subst nat_digits.simps) (simp add: digits_value_append nat_digits_all)
    also have "\<dots> = digits_value (n div 10) True [char_of (48 + n mod 10)]"
      using "1.IH" [OF False] by simp
    finally show ?thesis by simp
  qed
qed

lemma not_space_digit: "is_digit c \<Longrightarrow> \<not> is_space c"
  by (auto simp: is_digit_def is_space_def)

lemma dropWhile_not_hd: "\<not> P x \<Longrightarrow> dropWhile P (x # xs) = x # xs"
  by simp

lemma strip_space_id:
  assumes "list_all (\<lambda>c. \<not> is_space c) s"
  shows "strip_space s = s"
proof -
  have "dropWhile is_space t = t" if "list_all (\<lambda>c. \<not> is_space c) t" for t
    using that by (cases t) auto
  with assms show ?thesis by (simp add: strip_space_def)
qed

lemma str_of_int_no_space: "list_all (\<lambda>c. \<not> is_space c) (str_of_int i)"
proof -
  have "list_all (\<lambda>c. \<not> is_space c) (nat_digits n)" for n
    using nat_digits_all [of n] by (auto simp: list_all_iff not_space_digit)
  then show ?thesis by (simp add: str_of_int_def is_space_def code_point_def)
qed

lemma int_of_str_of_int [simp]: "int_of_str (str_of_int i) = Inr i"
proof (cases "i < 0")
  case True
  then have "strip_space (str_of_int i) = CHR ''-'' # nat_digits (nat (- i))"
    using strip_space_id [OF str_of_int_no_space, of i] by (simp add: str_of_int_def)
  with True show ?thesis by (simp add: int_of_str_def digits_value_nat_digits)
next
  case False
  obtain c cs where d: "nat_digits (nat i) = c # cs"
    by (cases "nat_digits (nat i)") auto
  have "is_digit c" using nat_digits_all [of "nat i"] d by simp
  then have "c \<noteq> CHR ''-'' \<and> c \<noteq> CHR ''+''" by (auto simp: is_digit_def code_point_def)
  moreover have "strip_space (str_of_int i) = c # cs"
    using False d strip_space_id [OF str_of_int_no_space, of i] by (simp add: str_of_int_def)
  moreover have "digits_value 0 False (c # cs) = Some (nat i)"
    using digits_value_nat_digits [of False "nat i"] d by simp
  ultimately show ?thesis using False by (simp add: int_of_str_def)
qed

interpretation int_text: codec str_of_int int_of_str "\<lambda>_. True"
  by unfold_locales simp

lemma str_of_int_inj: "str_of_int i = str_of_int j \<Longrightarrow> i = j"
  by (rule int_text.enc_inj) simp_all

lemma str_of_int_no_quote: "CHR 0x22 \<notin> set (str_of_int i)"
proof -
  have "CHR 0x22 \<notin> set (nat_digits n)" for n
    using nat_digits_all [of n] by (auto simp: list_all_iff is_digit_def code_point_def)
  then show ?thesis by (simp add: str_of_int_def)
qed

section \<open>Byte strings\<close>

definition is_ascii :: "char \<Rightarrow> bool" where
  "is_ascii c \<longleftrightarrow> code_point c < 128"

text \<open>\<open>b.decode('ascii')\<close> and \<open>s.encode('utf-8')\<close>.\<close>

definition decode_ascii :: "bytes \<Rightarrow> string res" where
  "decode_ascii bs = (if list_all (\<lambda>b. unat b < 128) bs
     then Inr (map (\<lambda>b. char_of (unat b)) bs) else Inl UnicodeDecodeError)"

definition utf8_char :: "char \<Rightarrow> bytes" where
  "utf8_char c = (let n = code_point c in
     if n < 128 then [of_nat n] else [of_nat (192 + n div 64), of_nat (128 + n mod 64)])"

definition encode_utf8 :: "string \<Rightarrow> bytes" where
  "encode_utf8 s = concat (map utf8_char s)"

lemma decode_encode_ascii:
  "list_all is_ascii s \<Longrightarrow> decode_ascii (encode_utf8 s) = Inr s"
proof (induction s)
  case Nil
  then show ?case by (simp add: decode_ascii_def encode_utf8_def)
next
  case (Cons c s)
  then have c: "code_point c < 128" by (simp add: is_ascii_def)
  then have u: "utf8_char c = [of_nat (code_point c)]" by (simp add: utf8_char_def Let_def)
  have n: "unat (of_nat (code_point c) :: 8 word) = code_point c"
    by (simp add: unat_of_nat)
  show ?case using Cons c u n
    by (auto simp: decode_ascii_def encode_utf8_def split: if_splits)
qed

interpretation ascii_text: codec encode_utf8 decode_ascii "list_all is_ascii"
  by unfold_locales (rule decode_encode_ascii)

section \<open>Base64\<close>

definition b64_char :: "nat \<Rightarrow> char" where
  "b64_char v = (if v < 26 then char_of (65 + v)
     else if v < 52 then char_of (71 + v)
     else if v < 62 then char_of (v - 4)
     else if v = 62 then CHR ''+'' else CHR 0x2F)"

definition b64_value :: "char \<Rightarrow> nat option" where
  "b64_value c = (let n = code_point c in
     if 65 \<le> n \<and> n \<le> 90 then Some (n - 65)
     else if 97 \<le> n \<and> n \<le> 122 then Some (n - 71)
     else if 48 \<le> n \<and> n \<le> 57 then Some (n + 4)
     else if n = 43 then Some 62
     else if n = 47 then Some 63 else None)"

text \<open>\<open>b64encode(b).decode('utf8')\<close>: three bytes become four characters.\<close>

fun b64encode :: "bytes \<Rightarrow> string" where
  "b64encode [] = []"
| "b64encode [a] =
     [b64_char (unat a div 4), b64_char (unat a mod 4 * 16), CHR ''='', CHR ''='']"
| "b64encode [a, b] =
     [b64_char (unat a div 4), b64_char (unat a mod 4 * 16 + unat b div 16),
      b64_char (unat b mod 16 * 4), CHR ''='']"
| "b64encode (a # b # c # rest) =
     b64_char (unat a div 4) # b64_char (unat a mod 4 * 16 + unat b div 16) #
     b64_char (unat b mod 16 * 4 + unat c div 64) # b64_char (unat c mod 64) # b64encode rest"

text \<open>
  The loop of \<open>binascii.a2b_base64\<close> in its default, lenient mode: \<open>q\<close> is the position in
  the current group of four characters, \<open>left\<close> the bits carried over, \<open>pads\<close> the pad
  characters seen. Characters outside the alphabet are skipped, a completed pad sequence
  ends the parse, and an unfinished group at the end of the input is an error.
\<close>

fun a2b_loop :: "nat \<Rightarrow> nat \<Rightarrow> nat \<Rightarrow> string \<Rightarrow> bytes res" where
  "a2b_loop q left pads [] = (if q = 0 then Inr [] else Inl BinasciiError)"
| "a2b_loop q left pads (c # cs) =
     (if c = CHR ''='' then
        (if 2 \<le> q \<and> 4 \<le> q + Suc pads then Inr []
         else a2b_loop q left (if 2 \<le> q then Suc pads else pads) cs)
      else case b64_value c of
        None \<Rightarrow> a2b_loop q left pads cs
      | Some v \<Rightarrow>
          (if q = 0 then a2b_loop 1 v 0 cs
           else if q = 1 then
             map_res (Cons (of_nat (left * 4 + v div 16))) (a2b_loop 2 (v mod 16) 0 cs)
           else if q = 2 then
             map_res (Cons (of_nat (left * 16 + v div 4))) (a2b_loop 3 (v mod 4) 0 cs)
           else map_res (Cons (of_nat (left * 64 + v))) (a2b_loop 0 0 0 cs)))"

text \<open>\<open>b64decode(s)\<close> for a string argument, which must be ASCII.\<close>

definition b64decode :: "string \<Rightarrow> bytes res" where
  "b64decode s = (if list_all is_ascii s then a2b_loop 0 0 0 s else Inl ValueError)"

lemma b64_value_char [simp]: "v < 64 \<Longrightarrow> b64_value (b64_char v) = Some v"
  by (auto simp: b64_char_def b64_value_def Let_def code_point_def)

lemma b64_char_not_pad [simp]: "v < 64 \<Longrightarrow> b64_char v \<noteq> CHR ''=''"
proof
  assume "v < 64" and "b64_char v = CHR ''=''"
  then have "b64_value (CHR ''='') = Some v" using b64_value_char by metis
  then show False by (simp add: b64_value_def code_point_def)
qed

lemma b64_char_ascii [simp]: "v < 64 \<Longrightarrow> is_ascii (b64_char v)"
  by (auto simp: b64_char_def is_ascii_def code_point_def)

lemma unat_byte_bound: "unat (x :: 8 word) < 256"
  using unsigned_less [of x] by simp

lemma sextet_bounds [simp]:
  fixes a b :: "8 word"
  shows "unat a div 4 < 64"
    and "unat a mod 4 * 16 < 64"
    and "unat a mod 4 * 16 + unat b div 16 < 64"
    and "unat a mod 16 * 4 < 64"
    and "unat a mod 16 * 4 + unat b div 64 < 64"
    and "unat a mod 64 < 64"
  using unat_byte_bound [of a] unat_byte_bound [of b] by arith+

text \<open>The bits the decoder puts back together.\<close>

lemma sextet_join:
  fixes a b :: "8 word"
  shows "(of_nat (unat a div 4 * 4 + (unat a mod 4 * 16 + unat b div 16) div 16) :: 8 word) = a"
    and "(of_nat (unat a div 4 * 4 + unat a mod 4 * 16 div 16) :: 8 word) = a"
    and "(of_nat ((unat a div 16) * 16 + (unat a mod 16 * 4 + unat b div 64) div 4) :: 8 word) = a"
    and "(of_nat ((unat a div 16) * 16 + unat a mod 16 * 4 div 4) :: 8 word) = a"
    and "(of_nat (unat a div 64 * 64 + unat a mod 64) :: 8 word) = a"
    and "(unat a mod 4 * 16 + unat b div 16) mod 16 = unat b div 16"
    and "(unat a mod 16 * 4 + unat b div 64) mod 4 = unat b div 64"
proof -
  have q: "(m * 16 + unat b div 16) div 16 = m" "(m * 16 + unat b div 16) mod 16 = unat b div 16"
    and r: "(m * 4 + unat b div 64) div 4 = m" "(m * 4 + unat b div 64) mod 4 = unat b div 64" for m
    using unat_byte_bound [of b] by (simp_all add: div_mult_self3 less_mult_imp_div_less)
  show "(of_nat (unat a div 4 * 4 + (unat a mod 4 * 16 + unat b div 16) div 16) :: 8 word) = a"
    by (simp only: q div_mult_mod_eq of_nat_unat ucast_id)
  show "(of_nat (unat a div 4 * 4 + unat a mod 4 * 16 div 16) :: 8 word) = a"
    by (simp only: nonzero_mult_div_cancel_right zero_neq_numeral not_False_eq_True div_mult_mod_eq of_nat_unat ucast_id)
  show "(of_nat (unat a div 16 * 16 + (unat a mod 16 * 4 + unat b div 64) div 4) :: 8 word) = a"
    by (simp only: r div_mult_mod_eq of_nat_unat ucast_id)
  show "(of_nat (unat a div 16 * 16 + unat a mod 16 * 4 div 4) :: 8 word) = a"
    by (simp only: nonzero_mult_div_cancel_right zero_neq_numeral not_False_eq_True div_mult_mod_eq of_nat_unat ucast_id)
  show "(of_nat (unat a div 64 * 64 + unat a mod 64) :: 8 word) = a"
    by (simp only: div_mult_mod_eq of_nat_unat ucast_id)
  show "(unat a mod 4 * 16 + unat b div 16) mod 16 = unat b div 16" by (rule q)
  show "(unat a mod 16 * 4 + unat b div 64) mod 4 = unat b div 64" by (rule r)
qed

lemma a2b_loop_encode: "a2b_loop 0 0 0 (b64encode bs) = Inr bs"
proof (induction bs rule: b64encode.induct)
  case 1
  show ?case by simp
next
  case (2 a)
  show ?case using sextet_join(2) [of a] by simp
next
  case (3 a b)
  show ?case using sextet_join(1,6) [of a b] sextet_join(4) [of b] by simp
next
  case (4 a b c rest)
  show ?case
    using sextet_join(1,6) [of a b] sextet_join(3,7) [of b c] sextet_join(5) [of c] 4
    by simp
qed

lemma b64encode_ascii: "list_all is_ascii (b64encode bs)"
  by (induction bs rule: b64encode.induct) (auto simp: is_ascii_def [of "CHR ''=''"] code_point_def)

lemma b64decode_encode [simp]: "b64decode (b64encode bs) = Inr bs"
  by (simp add: b64decode_def b64encode_ascii a2b_loop_encode)

interpretation base64: codec b64encode b64decode "\<lambda>_. True"
  by unfold_locales simp

lemma b64encode_length: "length (b64encode bs) = (length bs + 2) div 3 * 4"
  by (induction bs rule: b64encode.induct) (auto, presburger)

lemma b64encode_eq_Nil [simp]: "b64encode bs = [] \<longleftrightarrow> bs = []"
  by (cases bs rule: b64encode.cases) auto

section \<open>The text of a byte string\<close>

definition hex_digit :: "nat \<Rightarrow> char" where
  "hex_digit n = (if n < 10 then char_of (48 + n) else char_of (87 + n))"

text \<open>
  \<open>str(b)\<close> of a byte string: single quotes, or double quotes if the bytes hold a single
  quote and no double quote; backslash escapes and \<open>\xhh\<close> for what is not printable.
\<close>

definition repr_byte :: "char \<Rightarrow> 8 word \<Rightarrow> string" where
  "repr_byte q b = (let n = unat b; c = char_of n in
     if c = q \<or> n = 92 then [CHR 0x5C, c]
     else if n = 9 then [CHR 0x5C, CHR ''t'']
     else if n = 10 then [CHR 0x5C, CHR ''n'']
     else if n = 13 then [CHR 0x5C, CHR ''r'']
     else if n < 32 \<or> 127 \<le> n then [CHR 0x5C, CHR ''x'', hex_digit (n div 16), hex_digit (n mod 16)]
     else [c])"

definition repr_quote :: "bytes \<Rightarrow> char" where
  "repr_quote bs = (if (39 :: 8 word) \<in> set bs \<and> (34 :: 8 word) \<notin> set bs then CHR 0x22 else CHR 0x27)"

definition repr_bytes :: "bytes \<Rightarrow> string" where
  "repr_bytes bs =
     CHR ''b'' # repr_quote bs # concat (map (repr_byte (repr_quote bs)) bs) @ [repr_quote bs]"

lemma slice_repr_bytes [simp]:
  "slice_2_m1 (repr_bytes bs) = concat (map (repr_byte (repr_quote bs)) bs)"
  unfolding repr_bytes_def by (rule slice_2_m1_quoted)

lemmas [py_eval] = str_of_int_def nat_digits.simps is_digit_def is_space_def strip_space_def
  int_of_str_def b64_char_def b64_value_def is_ascii_def b64decode_def

end
