(* ===== verification/Kast.thy ===== *)
theory Kast
  imports PyStd
begin

text \<open>
  K terms and the pyk library. The package \<open>pyk\<close> is not part of the repository: its terms
  are the datatype below (the constructors and fields the code builds and inspects), its
  functions are the fields of the record \<open>pyk\<close>, an argument of every definition that calls
  them, and what the code relies on is stated as the laws \<open>pyk_\<dots>_law\<close>. The theory
  \<open>RefLibrary\<close> holds one concrete library that satisfies the laws, on which the witnesses run.
\<close>

section \<open>Terms\<close>

text \<open>
  \<open>KApply label args\<close>, \<open>KToken token sort\<close>, \<open>KVariable name sort\<close>, \<open>KRewrite lhs rhs\<close>;
  \<open>KOther\<close> stands for the term classes the code never builds. Label parameters are always
  empty in the code and are left out.
\<close>

datatype kinner =
    KApply string "kinner list"
  | KToken string string
  | KVariable string "string option"
  | KRewrite kinner kinner
  | KOther

type_synonym subst = "(string, kinner) dict"

abbreviation KConst :: "string \<Rightarrow> kinner" where
  "KConst l \<equiv> KApply l []"

text \<open>
  Attribute access after a \<open>cast\<close>, which checks nothing: \<open>t.token\<close>, \<open>t.sort.name\<close>,
  \<open>t.label.name\<close> and \<open>t.args[i]\<close> raise on terms of another class.
\<close>

fun token_of :: "kinner \<Rightarrow> string res" where
  "token_of (KToken t s) = Inr t"
| "token_of _ = Inl AttributeError"

fun label_name_of :: "kinner \<Rightarrow> string res" where
  "label_name_of (KApply l as) = Inr l"
| "label_name_of _ = Inl AttributeError"

fun sort_name_of :: "kinner \<Rightarrow> string res" where
  "sort_name_of (KToken t s) = Inr s"
| "sort_name_of (KVariable n (Some s)) = Inr s"
| "sort_name_of _ = Inl AttributeError"

fun arg_of :: "kinner \<Rightarrow> nat \<Rightarrow> kinner res" where
  "arg_of (KApply l as) i = (if i < length as then Inr (as ! i) else Inl IndexError)"
| "arg_of _ i = Inl AttributeError"

definition subst_get :: "subst \<Rightarrow> string \<Rightarrow> kinner res" where
  "subst_get s k = of_option KeyError (dict_get s k)"

text \<open>\<open>cast(KToken, subst[k]).token\<close> and \<open>int(\<dots>)\<close> of it.\<close>

definition subst_token :: "subst \<Rightarrow> string \<Rightarrow> string res" where
  "subst_token s k = bind_res (subst_get s k) token_of"

definition subst_int :: "subst \<Rightarrow> string \<Rightarrow> int res" where
  "subst_int s k = bind_res (subst_token s k) int_of_str"

text \<open>The name of the variable that stands for a cell's content: \<open>_mk_cell_var\<close>.\<close>

definition mk_cell_var :: "string \<Rightarrow> string" where
  "mk_cell_var label =
     upper (filter (\<lambda>c. c \<noteq> CHR ''<'' \<and> c \<noteq> CHR ''>'')
       (map (\<lambda>c. if c = CHR ''-'' then CHR ''_'' else c) label)) @ ''_CELL''"

section \<open>The pyk library\<close>

text \<open>
  \<open>map_inner\<close> and \<open>top_down\<close> take a function with an effect on a dictionary (a \<open>visitor\<close>), as the
  code passes them closures that store into one.
\<close>

type_synonym visitor = "kinner \<Rightarrow> subst \<Rightarrow> (kinner \<times> subst) res"

text \<open>
  The annotation of \<open>bytesToken\<close> asks for a byte string; \<open>bytesToken_str\<close> is the same function
  on a text argument, which two call sites pass.
\<close>

record pyk =
  is_cell :: "string \<Rightarrow> bool"
  map_inner :: "visitor \<Rightarrow> visitor"
  top_down :: "visitor \<Rightarrow> visitor"
  split_config_from :: "kinner \<Rightarrow> kinner \<times> subst"
  subst_apply :: "subst \<Rightarrow> kinner \<Rightarrow> kinner"
  subst_compose :: "subst \<Rightarrow> subst \<Rightarrow> subst"
  build_assoc :: "kinner \<Rightarrow> string \<Rightarrow> kinner list \<Rightarrow> kinner"
  build_cons :: "kinner \<Rightarrow> string \<Rightarrow> kinner list \<Rightarrow> kinner"
  flatten_label :: "string \<Rightarrow> kinner \<Rightarrow> kinner list"
  intToken :: "int \<Rightarrow> kinner"
  stringToken :: "string \<Rightarrow> kinner"
  bytesToken :: "bytes \<Rightarrow> kinner"
  bytesToken_str :: "string \<Rightarrow> kinner res"
  dequote_string :: "string \<Rightarrow> string"
  bytes_encode :: "string \<Rightarrow> bytes"
  hash_str :: "kinner \<Rightarrow> string"
  is_anon_var :: "kinner \<Rightarrow> bool"

text \<open>
  The compiled K definition a \<open>KAVM\<close> instance holds: the configuration of a sort with its
  variables, and with its initial values.
\<close>

record kdefinition =
  empty_config :: "string \<Rightarrow> kinner"
  init_config :: "string \<Rightarrow> kinner"

subsection \<open>What the code relies on\<close>

definition is_cell_term :: "(string \<Rightarrow> bool) \<Rightarrow> kinner \<Rightarrow> bool" where
  "is_cell_term C t = (case t of KApply l as \<Rightarrow> C l | _ \<Rightarrow> False)"

text \<open>
  The leaf cells of a configuration, outermost first: a cell with one argument that is not
  itself a cell.
\<close>

fun leaf_cells :: "(string \<Rightarrow> bool) \<Rightarrow> kinner \<Rightarrow> (string \<times> kinner) list" where
  "leaf_cells C (KApply l as) =
     (if C l \<and> length as = 1 \<and> \<not> list_all (is_cell_term C) as
      then [(l, hd as)]
      else concat (map (leaf_cells C) as))"
| "leaf_cells C (KRewrite l r) = leaf_cells C l @ leaf_cells C r"
| "leaf_cells C _ = []"

text \<open>
  \<open>split_config_from\<close> takes the content of every leaf cell out of a configuration into a
  substitution, under the cell's variable name; substituting it back gives the
  configuration.
\<close>

definition pyk_split_law :: "pyk \<Rightarrow> bool" where
  "pyk_split_law P \<longleftrightarrow>
     (\<forall>t. snd (split_config_from P t) =
        dict_of_items (map (\<lambda>(l, a). (mk_cell_var l, a)) (leaf_cells (is_cell P) t)))"

definition pyk_token_law :: "pyk \<Rightarrow> bool" where
  "pyk_token_law P \<longleftrightarrow>
     (\<forall>i. intToken P i = KToken (str_of_int i) ''Int'') \<and>
     (\<forall>s. \<exists>q. stringToken P s = KToken q ''String'') \<and>
     (\<forall>b. \<exists>q. bytesToken P b = KToken q ''Bytes'')"

text \<open>A label is a cell's when it is written between angle brackets.\<close>

definition pyk_cell_law :: "pyk \<Rightarrow> bool" where
  "pyk_cell_law P \<longleftrightarrow>
     (\<forall>l. is_cell P l \<longleftrightarrow> 2 \<le> length l \<and> hd l = CHR ''<'' \<and> last l = CHR ''>'')"

text \<open>
  \<open>build_assoc\<close> and \<open>build_cons\<close> nest the terms under the label; \<open>flatten_label\<close> undoes the
  nesting. An associative list drops the unit where it can, a cons list ends in it.
\<close>

fun assoc_of :: "kinner \<Rightarrow> string \<Rightarrow> kinner list \<Rightarrow> kinner" where
  "assoc_of u l [] = u"
| "assoc_of u l [t] = t"
| "assoc_of u l (t # ts) = KApply l [t, assoc_of u l ts]"

fun cons_of :: "kinner \<Rightarrow> string \<Rightarrow> kinner list \<Rightarrow> kinner" where
  "cons_of u l [] = u"
| "cons_of u l (t # ts) = KApply l [t, cons_of u l ts]"

fun flatten_of :: "string \<Rightarrow> kinner \<Rightarrow> kinner list" where
  "flatten_of l (KApply l' as) =
     (if l' = l then concat (map (flatten_of l) as) else [KApply l' as])"
| "flatten_of l t = [t]"

definition pyk_list_law :: "pyk \<Rightarrow> bool" where
  "pyk_list_law P \<longleftrightarrow>
     (\<forall>u l ts. u \<notin> set ts \<longrightarrow> build_assoc P u l ts = assoc_of u l ts) \<and>
     (\<forall>u l ts. build_cons P u l ts = cons_of u l ts) \<and>
     (\<forall>l t. flatten_label P l t = flatten_of l t)"

text \<open>\<open>top_down f t\<close> applies \<open>f\<close> to the term, then to the subterms of the result, from left to right.\<close>

fun thread :: "visitor \<Rightarrow> kinner list \<Rightarrow> subst \<Rightarrow> (kinner list \<times> subst) res" where
  "thread f [] s = Inr ([], s)"
| "thread f (t # ts) s =
     bind_res (f t s) (\<lambda>(t', s'). map_res (\<lambda>(ts', s''). (t' # ts', s'')) (thread f ts s'))"

definition map_inner_of :: "visitor \<Rightarrow> visitor" where
  "map_inner_of f t s = (case t of
       KApply l as \<Rightarrow> map_res (\<lambda>(as', s'). (KApply l as', s')) (thread f as s)
     | KRewrite a b \<Rightarrow>
         bind_res (f a s) (\<lambda>(a', s'). map_res (\<lambda>(b', s''). (KRewrite a' b', s'')) (f b s'))
     | _ \<Rightarrow> Inr (t, s))"

text \<open>
  The second half of the law is asked for functions that do not grow the term: on others
  the traversal need not end.
\<close>

definition pyk_traverse_law :: "pyk \<Rightarrow> bool" where
  "pyk_traverse_law P \<longleftrightarrow>
     (\<forall>f t s. map_inner P f t s = map_inner_of f t s) \<and>
     (\<forall>f. (\<forall>t s t' s'. f t s = Inr (t', s') \<longrightarrow> size t' \<le> size t) \<longrightarrow>
        (\<forall>t s. top_down P f t s =
           bind_res (f t s) (\<lambda>(t', s'). map_inner P (top_down P f) t' s')))"

text \<open>A substitution replaces the variables in its domain, and \<open>compose\<close> lets its argument act after.\<close>

primrec apply_of :: "subst \<Rightarrow> kinner \<Rightarrow> kinner" where
  "apply_of s (KApply l as) = KApply l (map (apply_of s) as)"
| "apply_of s (KToken t srt) = KToken t srt"
| "apply_of s (KVariable n srt) = (case dict_get s n of Some t \<Rightarrow> t | None \<Rightarrow> KVariable n srt)"
| "apply_of s (KRewrite a b) = KRewrite (apply_of s a) (apply_of s b)"
| "apply_of s KOther = KOther"

definition pyk_subst_law :: "pyk \<Rightarrow> bool" where
  "pyk_subst_law P \<longleftrightarrow>
     (\<forall>s t. subst_apply P s t = apply_of s t) \<and>
     (\<forall>a b t. subst_apply P (subst_compose P a b) t = subst_apply P a (subst_apply P b t))"

text \<open>
  Unquoting the text \<open>b'...'\<close> of a byte string undoes its escapes; without the frame and
  encoded, it is the byte string again.
\<close>

definition pyk_quote_law :: "pyk \<Rightarrow> bool" where
  "pyk_quote_law P \<longleftrightarrow>
     (\<forall>bs. bytes_encode P (slice_2_m1 (dequote_string P (repr_bytes bs))) = bs)"

end
