(* ===== verification/PyVal.thy ===== *)
theory PyVal
  imports Kast
begin

text \<open>
  Dynamically typed values: what a decoded JSON document, a transaction dictionary of the
  SDK or an account dictionary may hold. Reading a field, the truth of a value and the
  comparison with an integer follow Python; a read that Python refuses is an exception.
\<close>

section \<open>Values\<close>

text \<open>
  Dictionaries have text keys. \<open>PTerm\<close> is a K term in the place of a value (a symbolic
  amount), \<open>PObj c as\<close> an instance of the SDK class \<open>c\<close> with its attributes.
\<close>

datatype pyval =
    PNone
  | PBool bool
  | PInt int
  | PStr string
  | PBytes bytes
  | PList "pyval list"
  | PDict "(string \<times> pyval) list"
  | PTerm kinner
  | PObj string "(string \<times> pyval) list"

type_synonym pydict = "(string, pyval) dict"

text \<open>The truth of a value; a term or an object counts as true.\<close>

fun py_true :: "pyval \<Rightarrow> bool" where
  "py_true PNone = False"
| "py_true (PBool b) = b"
| "py_true (PInt i) = (i \<noteq> 0)"
| "py_true (PStr s) = (s \<noteq> [])"
| "py_true (PBytes b) = (b \<noteq> [])"
| "py_true (PList xs) = (xs \<noteq> [])"
| "py_true (PDict d) = (d \<noteq> [])"
| "py_true (PTerm t) = True"
| "py_true (PObj c as) = True"

text \<open>\<open>v == n\<close> for an integer \<open>n\<close>: a truth value compares as 0 or 1.\<close>

fun eq_int :: "pyval \<Rightarrow> int \<Rightarrow> bool" where
  "eq_int (PInt i) n = (i = n)"
| "eq_int (PBool b) n = ((if b then 1 else 0) = n)"
| "eq_int _ n = False"

text \<open>\<open>v[k]\<close> with a text key, \<open>v.a\<close>, \<open>k in v\<close>, and iteration over a list.\<close>

fun py_get :: "pyval \<Rightarrow> string \<Rightarrow> pyval res" where
  "py_get (PDict d) k = of_option KeyError (dict_get d k)"
| "py_get _ k = Inl TypeError"

fun py_attr :: "pyval \<Rightarrow> string \<Rightarrow> pyval res" where
  "py_attr (PObj c as) a = of_option AttributeError (dict_get as a)"
| "py_attr _ a = Inl AttributeError"

fun as_list :: "pyval \<Rightarrow> pyval list res" where
  "as_list (PList xs) = Inr xs"
| "as_list _ = Inl TypeError"

text \<open>\<open>v.items()\<close>: only a dictionary has it.\<close>

fun as_items :: "pyval \<Rightarrow> pydict res" where
  "as_items (PDict d) = Inr d"
| "as_items _ = Inl AttributeError"

fun as_str :: "pyval \<Rightarrow> string res" where
  "as_str (PStr s) = Inr s"
| "as_str _ = Inl TypeError"

fun as_int :: "pyval \<Rightarrow> int res" where
  "as_int (PInt i) = Inr i"
| "as_int _ = Inl TypeError"

fun is_bytes :: "pyval \<Rightarrow> bool" where
  "is_bytes (PBytes b) = True"
| "is_bytes _ = False"

fun is_dict :: "pyval \<Rightarrow> bool" where
  "is_dict (PDict d) = True"
| "is_dict _ = False"

text \<open>
  The text of a value in an f-string or under \<open>str\<close>. The text of containers and objects is
  not modelled: asking for it is an error of its own.
\<close>

fun py_str :: "pyval \<Rightarrow> string res" where
  "py_str (PStr s) = Inr s"
| "py_str (PInt i) = Inr (str_of_int i)"
| "py_str (PBool b) = Inr (if b then ''True'' else ''False'')"
| "py_str PNone = Inr ''None''"
| "py_str (PBytes b) = Inr (repr_bytes b)"
| "py_str _ = Inl (OtherException ''text of this value is not modelled'')"

text \<open>\<open>b64decode(v)\<close> accepts text and byte strings.\<close>

fun b64decode_val :: "pyval \<Rightarrow> bytes res" where
  "b64decode_val (PStr s) = b64decode s"
| "b64decode_val (PBytes b) = a2b_loop 0 0 0 (map (\<lambda>x. char_of (unat x)) b)"
| "b64decode_val _ = Inl TypeError"

text \<open>Iterating over a value: a text gives its characters, a byte string numbers, a dictionary its keys.\<close>

fun py_iter :: "pyval \<Rightarrow> pyval list res" where
  "py_iter (PList xs) = Inr xs"
| "py_iter (PStr s) = Inr (map (\<lambda>c. PStr [c]) s)"
| "py_iter (PBytes b) = Inr (map (\<lambda>x. PInt (uint x)) b)"
| "py_iter (PDict d) = Inr (map (\<lambda>(k, v). PStr k) d)"
| "py_iter _ = Inl TypeError"

text \<open>\<open>v[i]\<close> with a number, \<open>k in v\<close> and \<open>v[k] = x\<close> with a text \<open>k\<close>.\<close>

fun py_index :: "pyval \<Rightarrow> nat \<Rightarrow> pyval res" where
  "py_index (PList xs) i = (if i < length xs then Inr (xs ! i) else Inl IndexError)"
| "py_index (PStr s) i = (if i < length s then Inr (PStr [s ! i]) else Inl IndexError)"
| "py_index (PBytes b) i = (if i < length b then Inr (PInt (uint (b ! i))) else Inl IndexError)"
| "py_index (PDict d) i = Inl KeyError"
| "py_index _ i = Inl TypeError"

fun infix_of :: "string \<Rightarrow> string \<Rightarrow> bool" where
  "infix_of p [] = (p = [])"
| "infix_of p (x # xs) = (starts_with p (x # xs) \<or> infix_of p xs)"

fun py_in :: "string \<Rightarrow> pyval \<Rightarrow> bool res" where
  "py_in k (PDict d) = Inr (map_of d k \<noteq> None)"
| "py_in k (PList xs) = Inr (PStr k \<in> set xs)"
| "py_in k (PStr s) = Inr (infix_of k s)"
| "py_in k _ = Inl TypeError"

fun py_set :: "pyval \<Rightarrow> string \<Rightarrow> pyval \<Rightarrow> pyval res" where
  "py_set (PDict d) k v = Inr (PDict (dict_set d k v))"
| "py_set _ k v = Inl TypeError"

text \<open>An \<open>OnComplete\<close> is an instance of that SDK enumeration, with its number; \<open>int(v)\<close> reads it.\<close>

abbreviation on_complete :: "int \<Rightarrow> pyval" where
  "on_complete n \<equiv> PObj ''OnComplete'' [(''value'', PInt n)]"

fun py_int :: "pyval \<Rightarrow> int res" where
  "py_int (PInt i) = Inr i"
| "py_int (PBool b) = Inr (if b then 1 else 0)"
| "py_int (PStr s) = int_of_str s"
| "py_int (PObj c as) =
     (case (c = ''OnComplete'', map_of as ''value'') of (True, Some (PInt i)) \<Rightarrow> Inr i | _ \<Rightarrow> Inl TypeError)"
| "py_int _ = Inl TypeError"

definition dict_lookup :: "pydict \<Rightarrow> string \<Rightarrow> pyval res" where
  "dict_lookup d k = of_option KeyError (dict_get d k)"

text \<open>\<open>sorted(d.items())\<close>: distinct keys, so the order of the keys decides.\<close>

definition sorted_items :: "(string \<times> 'a) list \<Rightarrow> (string \<times> 'a) list" where
  "sorted_items d = sort_key fst d"

lemma py_get_simps [simp]: "py_get (PDict d) k = dict_lookup d k"
  by (simp add: dict_lookup_def)

declare py_get.simps(1) [simp del]

lemma dict_lookup_Inr [res_iff]: "dict_lookup d k = Inr v \<longleftrightarrow> dict_get d k = Some v"
  by (simp add: dict_lookup_def res_iff)

lemma dict_lookup_Some [simp]: "dict_get d k = Some v \<Longrightarrow> dict_lookup d k = Inr v"
  by (simp add: dict_lookup_def)

lemma dict_lookup_None [simp]: "dict_get d k = None \<Longrightarrow> dict_lookup d k = Inl KeyError"
  by (simp add: dict_lookup_def)

lemma sorted_items_set [simp]: "set (sorted_items d) = set d"
  by (simp add: sorted_items_def)

lemma sorted_items_sorted: "sorted (dict_keys (sorted_items d))"
  by (simp add: sorted_items_def)

lemma sorted_items_wf [simp]: "wf_dict (sorted_items d) \<longleftrightarrow> wf_dict d"
  by (simp add: wf_dict_def sorted_items_def distinct_map)

lemma dict_get_sorted: "wf_dict d \<Longrightarrow> dict_get (sorted_items d) k = dict_get d k"
proof -
  assume d: "wf_dict d"
  then have "wf_dict (sorted_items d)" by simp
  with d have "map_of (sorted_items d) = map_of d"
    by (simp add: map_of_inject_set wf_dict_def)
  then show ?thesis by simp
qed

end
