(* ===== verification/Sdk.thy ===== *)
theory Sdk
  imports PyVal
begin

text \<open>
  The Algorand SDK the code imports is not part of the repository: it is the record \<open>sdk\<close>, an
  argument of the definitions that use it, and what the code relies on is stated as the laws
  \<open>sdk_\<dots>_law\<close>.
\<close>

section \<open>The Algorand SDK\<close>

text \<open>
  \<open>attribute_map c\<close> gives, for a model class, the JSON name of each attribute;
  \<open>new_model c kwargs\<close> is \<open>C(**kwargs)\<close> and \<open>dictify\<close> the model's method of that name.
  \<open>new_txn\<close> is the same for the transaction classes, whose constructors check their
  arguments, and \<open>OnComplete n\<close> is the member of that enumeration with number \<open>n\<close>.
\<close>

record sdk =
  decode_address :: "pyval \<Rightarrow> pyval res"
  encode_address :: "pyval \<Rightarrow> pyval res"
  attribute_map :: "string \<Rightarrow> (string, string) dict"
  new_model :: "string \<Rightarrow> pydict \<Rightarrow> pyval"
  new_txn :: "string \<Rightarrow> pydict \<Rightarrow> pyval res"
  OnComplete :: "int \<Rightarrow> pyval res"
  dictify :: "pyval \<Rightarrow> pydict"

text \<open>Addresses are texts of 58 characters for 32 bytes.\<close>

definition sdk_address_law :: "sdk \<Rightarrow> bool" where
  "sdk_address_law S \<longleftrightarrow>
     (\<forall>b. length b = 32 \<longrightarrow>
       (\<exists>a. encode_address S (PBytes b) = Inr (PStr a) \<and> decode_address S (PStr a) = Inr (PBytes b))) \<and>
     (\<forall>s. length s \<noteq> 58 \<longrightarrow> (\<exists>e. decode_address S (PStr s) = Inl e))"

text \<open>
  A model's constructor stores its arguments under their names, and \<open>None\<close> for the attributes
  that were not given. \<open>dictify\<close> lists every attribute under its JSON name; a value that is a
  model, or a list of models, is turned into dictionaries with it.
\<close>

definition sdk_attr_law :: "sdk \<Rightarrow> bool" where
  "sdk_attr_law S \<longleftrightarrow> (\<forall>c kw a v. dict_get kw a = Some v \<longrightarrow> py_attr (new_model S c kw) a = Inr v)"

definition dictify_elem :: "sdk \<Rightarrow> pyval \<Rightarrow> pyval" where
  "dictify_elem S v = (case v of PObj c as \<Rightarrow> PDict (dictify S v) | _ \<Rightarrow> v)"

definition dictify_value :: "sdk \<Rightarrow> pyval \<Rightarrow> pyval" where
  "dictify_value S v = (case v of PList xs \<Rightarrow> PList (map (dictify_elem S) xs) | _ \<Rightarrow> dictify_elem S v)"

definition value_or_None :: "pyval option \<Rightarrow> pyval" where
  "value_or_None x = (case x of Some v \<Rightarrow> v | None \<Rightarrow> PNone)"

definition is_model :: "pyval \<Rightarrow> bool" where
  "is_model v = (case v of PObj c as \<Rightarrow> True | _ \<Rightarrow> False)"

definition sdk_model_law :: "sdk \<Rightarrow> bool" where
  "sdk_model_law S \<longleftrightarrow>
     (\<forall>c kw. is_model (new_model S c kw)) \<and>
     (\<forall>c. wf_dict (attribute_map S c) \<and> distinct (map snd (attribute_map S c))) \<and>
     (\<forall>c kw. attribute_map S c \<noteq> [] \<longrightarrow> dictify S (new_model S c kw) =
        map (\<lambda>(a, j). (j, dictify_value S (value_or_None (dict_get kw a)))) (attribute_map S c))"

end
