(* ===== verification/RefLibrary.thy ===== *)
theory RefLibrary
  imports Sdk
begin

text \<open>
  One concrete instance of the two packages the code imports, with proofs that it satisfies
  the laws of \<open>Kast\<close> and \<open>Sdk\<close>. The properties hold for every library that satisfies
  them; the instance shows that the laws can be met together, and the witnesses run on it.
\<close>

section \<open>A pyk library\<close>

fun abstract_cells :: "(string \<Rightarrow> bool) \<Rightarrow> kinner \<Rightarrow> kinner" where
  "abstract_cells C (KApply l as) =
     (if C l \<and> length as = 1 \<and> \<not> list_all (is_cell_term C) as
      then KApply l [KVariable (mk_cell_var l) None]
      else KApply l (map (abstract_cells C) as))"
| "abstract_cells C (KRewrite l r) = KRewrite (abstract_cells C l) (abstract_cells C r)"
| "abstract_cells C t = t"

definition ref_is_cell :: "string \<Rightarrow> bool" where
  "ref_is_cell l = (2 \<le> length l \<and> hd l = CHR ''<'' \<and> last l = CHR ''>'')"

text \<open>The top-down traversal, with the term's size as fuel.\<close>

fun traverse :: "nat \<Rightarrow> visitor \<Rightarrow> visitor" where
  "traverse 0 f t s = Inr (t, s)"
| "traverse (Suc n) f t s = bind_res (f t s) (\<lambda>(t', s'). map_inner_of (traverse n f) t' s')"

definition ref_top_down :: "visitor \<Rightarrow> visitor" where
  "ref_top_down f t s = traverse (Suc (size t)) f t s"

text \<open>Unquoting: the inverse of the escapes.\<close>

definition hex_nat :: "char \<Rightarrow> nat" where
  "hex_nat c = (if code_point c < 58 then code_point c - 48 else code_point c - 87)"

fun unescape :: "string \<Rightarrow> string" where
  "unescape (c # d # cs) =
     (if c = CHR 0x5C then
        (if d = CHR ''t'' then CHR 0x09 # unescape cs
         else if d = CHR ''n'' then CHR 0x0A # unescape cs
         else if d = CHR ''r'' then CHR 0x0D # unescape cs
         else if d = CHR ''x'' then
           (case cs of a # b # rest \<Rightarrow> char_of (16 * hex_nat a + hex_nat b) # unescape rest
            | _ \<Rightarrow> unescape cs)
         else d # unescape cs)
      else c # unescape (d # cs))"
| "unescape [c] = [c]"
| "unescape [] = []"

definition quoted_token :: "string \<Rightarrow> string \<Rightarrow> kinner" where
  "quoted_token s srt = KToken ([CHR 0x22] @ s @ [CHR 0x22]) srt"

definition ref_pyk :: pyk where
  "ref_pyk = \<lparr>
     is_cell = ref_is_cell,
     map_inner = map_inner_of,
     top_down = ref_top_down,
     split_config_from = (\<lambda>t. (abstract_cells ref_is_cell t,
       dict_of_items (map (\<lambda>(l, a). (mk_cell_var l, a)) (leaf_cells ref_is_cell t)))),
     subst_apply = apply_of,
     subst_compose = (\<lambda>a b. map (\<lambda>(k, t). (k, apply_of a t)) b @ a),
     build_assoc = (\<lambda>u l ts. assoc_of u l (filter (\<lambda>t. t \<noteq> u) ts)),
     build_cons = cons_of,
     flatten_label = flatten_of,
     intToken = (\<lambda>i. KToken (str_of_int i) ''Int''),
     stringToken = (\<lambda>s. quoted_token s ''String''),
     bytesToken = (\<lambda>b. quoted_token (map (\<lambda>x. char_of (unat x)) b) ''Bytes''),
     bytesToken_str = (\<lambda>s. Inr (quoted_token s ''Bytes'')),
     dequote_string = unescape,
     bytes_encode = map (\<lambda>c. word_of_nat (code_point c)),
     hash_str = (\<lambda>t. ''0123456789abcdef''),
     is_anon_var = (\<lambda>t. case t of KVariable n s \<Rightarrow> starts_with ''_'' n | _ \<Rightarrow> False)\<rparr>"

section \<open>It satisfies the laws\<close>

lemma ref_split_law: "pyk_split_law ref_pyk"
  by (simp add: pyk_split_law_def ref_pyk_def)

lemma ref_token_law: "pyk_token_law ref_pyk"
  by (simp add: pyk_token_law_def ref_pyk_def quoted_token_def)

lemma ref_cell_law: "pyk_cell_law ref_pyk"
  by (simp add: pyk_cell_law_def ref_pyk_def ref_is_cell_def)

lemma ref_list_law: "pyk_list_law ref_pyk"
proof -
  have "filter (\<lambda>t. t \<noteq> u) ts = ts" if "u \<notin> set ts" for u :: kinner and ts
    using that by (induction ts) auto
  then show ?thesis by (simp add: pyk_list_law_def ref_pyk_def)
qed

lemma ref_subst_law: "pyk_subst_law ref_pyk"
proof -
  have get: "dict_get (map (\<lambda>(k, t). (k, apply_of a t)) b @ a) n =
      (case dict_get b n of Some t \<Rightarrow> Some (apply_of a t) | None \<Rightarrow> dict_get a n)" for a b n
    by (induction b) auto
  have "apply_of (map (\<lambda>(k, t). (k, apply_of a t)) b @ a) t = apply_of a (apply_of b t)" for a b t
    by (induction t) (auto simp: get simp del: map_of_append split: option.splits)
  then show ?thesis by (simp add: pyk_subst_law_def ref_pyk_def)
qed

lemma thread_cong:
  "(\<And>t s. t \<in> set ts \<Longrightarrow> f t s = g t s) \<Longrightarrow> thread f ts s = thread g ts s"
proof (induction ts arbitrary: s)
  case Nil
  then show ?case by simp
next
  case (Cons t ts)
  have "thread f ts s = thread g ts s" for s
    using Cons.IH Cons.prems by (metis list.set_intros(2))
  moreover have "f t s = g t s" using Cons.prems by simp
  ultimately show ?case by simp
qed

lemma size_arg: "t \<in> set as \<Longrightarrow> size t < size (KApply l as)"
  by (induction as) auto

lemma map_inner_cong:
  "(\<And>u s. size u < size t \<Longrightarrow> f u s = g u s) \<Longrightarrow> map_inner_of f t s = map_inner_of g t s"
  by (cases t) (auto simp: map_inner_of_def simp del: kinner.size intro!: arg_cong [where f = "map_res _"] thread_cong
      dest: size_arg, simp)

lemma traverse_fuel:
  assumes "\<forall>t s t' s'. f t s = Inr (t', s') \<longrightarrow> size t' \<le> size t"
  shows "size t < n \<Longrightarrow> size t < m \<Longrightarrow> traverse n f t s = traverse m f t s"
proof (induction n arbitrary: m t s)
  case 0
  then show ?case by simp
next
  case (Suc n)
  then obtain k where m: "m = Suc k" by (cases m) auto
  show ?case
  proof (cases "f t s")
    case (Inl e)
    then show ?thesis by (simp add: m)
  next
    case (Inr r)
    then obtain t' s' where r: "f t s = Inr (t', s')" by (cases r) simp
    with assms have "size t' \<le> size t" by blast
    then have "map_inner_of (traverse n f) t' s' = map_inner_of (traverse k f) t' s'"
      using Suc.prems m by (intro map_inner_cong Suc.IH) simp_all
    then show ?thesis by (simp add: m r)
  qed
qed

lemma ref_traverse_law: "pyk_traverse_law ref_pyk"
proof -
  have "ref_top_down f t s = bind_res (f t s) (\<lambda>(t', s'). map_inner_of (ref_top_down f) t' s')"
    if f: "\<forall>t s t' s'. f t s = Inr (t', s') \<longrightarrow> size t' \<le> size t" for f t s
  proof (cases "f t s")
    case (Inl e)
    then show ?thesis by (simp add: ref_top_down_def)
  next
    case (Inr r)
    then obtain t' s' where r: "f t s = Inr (t', s')" by (cases r) simp
    with f have "size t' \<le> size t" by blast
    then have "map_inner_of (traverse (size t) f) t' s' = map_inner_of (ref_top_down f) t' s'"
      unfolding ref_top_down_def by (intro map_inner_cong traverse_fuel [OF f]) simp_all
    then show ?thesis by (simp add: ref_top_down_def r)
  qed
  then show ?thesis by (simp add: pyk_traverse_law_def ref_pyk_def)
qed

subsection \<open>Unquoting the text of a byte string\<close>

lemma hex_nat_digit [simp]: "k < 16 \<Longrightarrow> hex_nat (hex_digit k) = k"
  by (auto simp: hex_nat_def hex_digit_def)

lemma unescape_plain: "c \<noteq> CHR 0x5C \<Longrightarrow> unescape (c # cs) = c # unescape cs"
  by (cases cs) simp_all

lemma char_of_byte_eq: "(char_of (unat (b :: 8 word)) = c) \<longleftrightarrow> unat b = code_point c"
  by (metis char_of_code_point code_point_char_of unat_byte_bound)

lemma unescape_repr_byte: "q = CHR 0x22 \<or> q = CHR 0x27 \<Longrightarrow>
    unescape (repr_byte q b @ cs) = char_of (unat b) # unescape cs"
proof -
  assume q: "q = CHR 0x22 \<or> q = CHR 0x27"
  have d: "unat b = 16 * (unat b div 16) + unat b mod 16" by simp
  have h: "unat b div 16 < 16" using unat_byte_bound [of b] by simp
  have cp: "code_point CHR 0x5C = 92" "code_point CHR ''t'' = 116" "code_point CHR ''n'' = 110"
    "code_point CHR ''r'' = 114" "code_point CHR ''x'' = 120" "code_point CHR 0x22 = 34"
    "code_point CHR 0x27 = 39"
    by (simp_all add: code_point_def)
  consider "unat b = code_point q \<or> unat b = 92" | "unat b \<in> {9, 10, 13}"
    | "unat b < 32 \<or> 127 \<le> unat b" "unat b \<notin> {9, 10, 13}"
    | "unat b \<noteq> code_point q" "unat b \<noteq> 92" "32 \<le> unat b" "unat b < 127" by force
  then show ?thesis
  proof cases
    case 1
    then have "char_of (unat b) \<in> {CHR 0x5C, CHR 0x22, CHR 0x27}"
      using q cp by (auto simp: char_of_byte_eq)
    moreover have "repr_byte q b = [CHR 0x5C, char_of (unat b)]"
      using 1 by (auto simp: repr_byte_def Let_def char_of_byte_eq)
    ultimately show ?thesis by auto
  next
    case 2
    then have "char_of (unat b) \<noteq> q" "unat b \<noteq> 92" using q cp by (auto simp: char_of_byte_eq)
    with 2 show ?thesis
      by (auto simp: repr_byte_def Let_def char_of_def)
  next
    case 3
    then have "char_of (unat b) \<noteq> q" "unat b \<noteq> 92" using q cp by (auto simp: char_of_byte_eq)
    with 3 show ?thesis using d h by (auto simp: repr_byte_def Let_def)
  next
    case 4
    then have "char_of (unat b) \<noteq> q" "char_of (unat b) \<noteq> CHR 0x5C"
      using cp by (simp_all add: char_of_byte_eq)
    with 4 show ?thesis by (simp add: repr_byte_def Let_def unescape_plain)
  qed
qed

lemma unescape_repr: "q = CHR 0x22 \<or> q = CHR 0x27 \<Longrightarrow>
    unescape (concat (map (repr_byte q) bs) @ cs) = map (\<lambda>b. char_of (unat b)) bs @ unescape cs"
  by (induction bs) (simp_all add: unescape_repr_byte)

lemma ref_quote_law: "pyk_quote_law ref_pyk"
proof -
  have q: "repr_quote bs = CHR 0x22 \<or> repr_quote bs = CHR 0x27" for bs
    by (simp add: repr_quote_def)
  have "unescape (repr_bytes bs) =
      CHR ''b'' # repr_quote bs # map (\<lambda>b. char_of (unat b)) bs @ [repr_quote bs]" for bs
    using q [of bs] unescape_repr [OF q [of bs], of bs "[repr_quote bs]"]
    by (auto simp: repr_bytes_def unescape_plain)
  moreover have "map (\<lambda>c. word_of_nat (code_point c)) (map (\<lambda>b :: 8 word. char_of (unat b)) bs) = bs" for bs
    using unat_byte_bound by (induction bs) simp_all
  ultimately show ?thesis by (simp add: pyk_quote_law_def ref_pyk_def)
qed

lemmas ref_laws = ref_split_law ref_token_law ref_cell_law ref_list_law ref_subst_law
  ref_traverse_law ref_quote_law

section \<open>An SDK\<close>

definition account_attributes :: "(string, string) dict" where
  "account_attributes =
     [(''address'', ''address''), (''amount'', ''amount''),
      (''amount_without_pending_rewards'', ''amount-without-pending-rewards''),
      (''apps_local_state'', ''apps-local-state''), (''apps_total_schema'', ''apps-total-schema''),
      (''assets'', ''assets''), (''created_apps'', ''created-apps''),
      (''created_assets'', ''created-assets''), (''participation'', ''participation''),
      (''pending_rewards'', ''pending-rewards''), (''reward_base'', ''reward-base''),
      (''rewards'', ''rewards''), (''round'', ''round''), (''status'', ''status''),
      (''sig_type'', ''sig-type''), (''auth_addr'', ''auth-addr'')]"

definition params_attributes :: "(string, string) dict" where
  "params_attributes =
     [(''approval_program'', ''approval-program''), (''clear_state_program'', ''clear-state-program''),
      (''creator'', ''creator''), (''global_state'', ''global-state''),
      (''global_state_schema'', ''global-state-schema''), (''local_state_schema'', ''local-state-schema'')]"

definition ref_attributes :: "string \<Rightarrow> (string, string) dict" where
  "ref_attributes c =
     (if c = ''KAVMAccount'' then account_attributes
      else if c = ''KAVMApplicationParams'' then params_attributes
      else if c = ''KAVMApplication'' then [(''id'', ''id''), (''params'', ''params'')]
      else [])"

fun ref_value :: "pyval \<Rightarrow> pyval" where
  "ref_value (PObj c as) =
     PDict (map (\<lambda>(a, v). (case dict_get (ref_attributes c) a of Some j \<Rightarrow> j | None \<Rightarrow> a,
       case v of
         PList xs \<Rightarrow> PList (map ref_value xs)
       | PObj c' as' \<Rightarrow> ref_value v
       | _ \<Rightarrow> v)) (filter (\<lambda>(a, v). a \<in> set (dict_keys (ref_attributes c))) as))"
| "ref_value v = v"

definition ref_dictify :: "pyval \<Rightarrow> pydict" where
  "ref_dictify v = (case ref_value v of PDict d \<Rightarrow> d | _ \<Rightarrow> [])"

definition ref_model :: "string \<Rightarrow> pydict \<Rightarrow> pyval" where
  "ref_model c kw = PObj c
     (map (\<lambda>(a, j). (a, value_or_None (dict_get kw a))) (ref_attributes c) @
      filter (\<lambda>(a, v). a \<notin> set (dict_keys (ref_attributes c))) kw)"

text \<open>
  An address is the base64 text of its bytes, filled up to 58 characters, and the zero address
  has the text the code gives it.
\<close>

definition zero_address_text :: string where
  "zero_address_text = ''AAAAAAAAAAAAAAAAAAAAAAAAAAAAAAAAAAAAAAAAAAAAAAAAAAAAY5HFKQ''"

definition address_fill :: string where
  "address_fill = replicate 14 CHR ''A''"

fun ref_encode_address :: "pyval \<Rightarrow> pyval res" where
  "ref_encode_address (PBytes b) =
     (if length b \<noteq> 32 then Inl ValueError
      else if b = replicate 32 0 then Inr (PStr zero_address_text)
      else Inr (PStr (b64encode b @ address_fill)))"
| "ref_encode_address _ = Inl TypeError"

fun ref_decode_address :: "pyval \<Rightarrow> pyval res" where
  "ref_decode_address (PStr s) =
     (if length s \<noteq> 58 then Inl ValueError
      else if s = zero_address_text then Inr (PBytes (replicate 32 0))
      else bind_res (b64decode (take 44 s)) (\<lambda>b. if length b = 32 then Inr (PBytes b) else Inl ValueError))"
| "ref_decode_address _ = Inl TypeError"

definition ref_sdk :: sdk where
  "ref_sdk = \<lparr>decode_address = ref_decode_address, encode_address = ref_encode_address,
     attribute_map = ref_attributes, new_model = ref_model,
     new_txn = (\<lambda>c kw. Inr (PObj c kw)),
     OnComplete = (\<lambda>n. if 0 \<le> n \<and> n \<le> 5 then Inr (on_complete n) else Inl ValueError),
     dictify = ref_dictify\<rparr>"

lemma ref_attributes_wf: "wf_dict (ref_attributes c)" "distinct (map snd (ref_attributes c))"
  by (simp_all add: ref_attributes_def account_attributes_def params_attributes_def wf_dict_def)

lemma ref_attr_law: "sdk_attr_law ref_sdk"
proof -
  have filt: "dict_get (filter (\<lambda>(a, v). a \<notin> K) kw) a = (if a \<in> K then None else dict_get kw a)"
    for K and kw :: pydict and a
    by (induction kw) auto
  have mapped: "dict_get (map (\<lambda>(a, j). (a, f a)) m) a =
      (if a \<in> set (dict_keys m) then Some (f a) else None)" for m :: "(string, string) dict" and f and a
    by (induction m) auto
  have "py_attr (ref_model c kw) a = Inr v" if "dict_get kw a = Some v" for c kw a v
    using that by (simp add: ref_model_def map_of_append map_add_def filt mapped value_or_None_def)
  then show ?thesis by (simp add: sdk_attr_law_def ref_sdk_def)
qed

lemma ref_model_law: "sdk_model_law ref_sdk"
proof -
  have val: "dictify_elem ref_sdk v = ref_value v" for v
    by (cases v) (simp_all add: dictify_elem_def ref_sdk_def ref_dictify_def)
  have val': "(case v of PList xs \<Rightarrow> PList (map ref_value xs) | PObj c' as' \<Rightarrow> ref_value v | _ \<Rightarrow> v) =
      dictify_value ref_sdk v" for v
    by (cases v) (simp_all add: dictify_value_def val [abs_def] del: ref_value.simps, simp_all)
  have fs: "filter (\<lambda>(a, v). a \<in> set (dict_keys m)) (map (\<lambda>(a, j). (a, f a)) m @
      filter (\<lambda>(a, v). a \<notin> set (dict_keys m)) kw) = map (\<lambda>(a, j). (a, f a)) m"
    for m :: "(string, string) dict" and f and kw :: pydict
  proof -
    have "filter (\<lambda>(a, v). a \<in> set (dict_keys m)) (map (\<lambda>(a, j). (a, f a)) m) = map (\<lambda>(a, j). (a, f a)) m"
      by (rule filter_True) force
    moreover have "filter (\<lambda>(a, v). a \<in> K) (filter (\<lambda>(a, v). a \<notin> K) kw) = []" for K
      by (induction kw) auto
    ultimately show ?thesis by simp
  qed
  have "ref_dictify (ref_model c kw) =
      map (\<lambda>(a, j). (j, dictify_value ref_sdk (value_or_None (dict_get kw a)))) (ref_attributes c)" for c kw
  proof -
    have "dict_get (ref_attributes c) a = Some j" if "(a, j) \<in> set (ref_attributes c)" for a j
      using that ref_attributes_wf(1) [of c] by (simp add: wf_dict_def)
    moreover have "ref_value (ref_model c kw) = PDict (map (\<lambda>(a, v).
        (case dict_get (ref_attributes c) a of Some j \<Rightarrow> j | None \<Rightarrow> a, dictify_value ref_sdk v))
        (map (\<lambda>(a, j). (a, value_or_None (dict_get kw a))) (ref_attributes c)))"
      by (simp only: ref_model_def ref_value.simps(1) fs val')
    ultimately show ?thesis by (auto simp: ref_dictify_def)
  qed
  then show ?thesis
    using ref_attributes_wf by (simp add: sdk_model_law_def ref_sdk_def is_model_def ref_model_def)
qed

lemma ref_address_law: "sdk_address_law ref_sdk"
proof -
  have "last (b64encode b @ address_fill) \<noteq> last zero_address_text" for b
    by (simp add: address_fill_def zero_address_text_def)
  then have z: "b64encode b @ address_fill \<noteq> zero_address_text" for b by metis
  have "\<exists>a. ref_encode_address (PBytes b) = Inr (PStr a) \<and> ref_decode_address (PStr a) = Inr (PBytes b)"
    if "length b = 32" for b
  proof (cases "b = replicate 32 0")
    case True
    then show ?thesis by (simp add: zero_address_text_def)
  next
    case False
    with that z show ?thesis by (simp add: b64encode_length address_fill_def)
  qed
  moreover have "length s \<noteq> 58 \<Longrightarrow> \<exists>e. ref_decode_address (PStr s) = Inl e" for s by simp
  ultimately show ?thesis by (simp add: sdk_address_law_def ref_sdk_def)
qed

end
