(* ===== verification/PykUtils.thy ===== *)
theory PykUtils
  imports RefLibrary
begin

text \<open>
  \<open>kavm/pyk_utils.py\<close>: how Python values become K tokens, TEAL value lists, K maps and
  addresses, and how a configuration is taken apart into cells.
\<close>

section \<open>Tokens\<close>

definition token_or_expr :: "(pyval \<Rightarrow> kinner res) \<Rightarrow> pyval \<Rightarrow> kinner res" where
  "token_or_expr token_constructor v = (case v of PTerm t \<Rightarrow> Inr t | _ \<Rightarrow> token_constructor v)"

fun maybe_tvalue :: "pyk \<Rightarrow> pyval \<Rightarrow> kinner res" where
  "maybe_tvalue P PNone = Inr (KConst ''NoTValue'')"
| "maybe_tvalue P (PInt i) = Inr (intToken P i)"
| "maybe_tvalue P (PObj c as) =
     (if c = ''OnComplete''
      then bind_res (dict_lookup as ''value'') (\<lambda>v. map_res (intToken P) (as_int v))
      else Inl TypeError)"
| "maybe_tvalue P (PStr s) = Inr (if s \<noteq> [] then stringToken P s else KConst ''NoTValue'')"
| "maybe_tvalue P (PBytes b) =
     Inr (if b \<noteq> [] then stringToken P (b64encode b) else KConst ''NoTValue'')"
| "maybe_tvalue P _ = Inl TypeError"

fun tvalue :: "pyk \<Rightarrow> pyval \<Rightarrow> kinner res" where
  "tvalue P (PInt i) = Inr (intToken P i)"
| "tvalue P (PObj c as) =
     (if c = ''OnComplete''
      then bind_res (dict_lookup as ''value'') (\<lambda>v. map_res (intToken P) (as_int v))
      else Inl TypeError)"
| "tvalue P (PStr s) = Inr (stringToken P s)"
| "tvalue P (PBytes b) = Inr (stringToken P (b64encode b))"
| "tvalue P _ = Inl TypeError"

section \<open>TEAL value lists\<close>

abbreviation tvalue_cons :: string where
  "tvalue_cons \<equiv> ''___TEAL-TYPES-SYNTAX_TValueNeList_TValue_TValueNeList''"

fun generate_tvalue_list :: "kinner list \<Rightarrow> kinner res" where
  "generate_tvalue_list [] = Inl IndexError"
| "generate_tvalue_list [t] = Inr t"
| "generate_tvalue_list (t # ts) =
     map_res (\<lambda>r. KApply tvalue_cons [t, r]) (generate_tvalue_list ts)"

definition tvalue_list :: "pyk \<Rightarrow> pyval list \<Rightarrow> kinner res" where
  "tvalue_list P vs = (if length vs = 0 then Inr (KConst ''.TValueList'')
     else bind_res (mapM_res (maybe_tvalue P) vs) generate_tvalue_list)"

text \<open>
  \<open>bytesToken(bytes_encode(dequote_string(str(v))[2:-1]))\<close>, which the code writes three
  times; on a byte string \<open>str(v)\<close> is its representation.
\<close>

definition k_bytes_text :: "pyk \<Rightarrow> string \<Rightarrow> kinner" where
  "k_bytes_text P s = bytesToken P (bytes_encode P (slice_2_m1 (dequote_string P s)))"

definition tvalue_bytes_list :: "pyk \<Rightarrow> pyval list \<Rightarrow> kinner res" where
  "tvalue_bytes_list P vs = (if length vs = 0 then Inr (KConst ''.TValueList'')
     else bind_res (mapM_res (\<lambda>v. map_res (k_bytes_text P) (py_str v)) vs) generate_tvalue_list)"

definition algorand_address_to_k_bytes :: "pyk \<Rightarrow> sdk \<Rightarrow> pyval \<Rightarrow> kinner res" where
  "algorand_address_to_k_bytes P S addr =
     bind_res (decode_address S addr) (\<lambda>v. map_res (k_bytes_text P) (py_str v))"

definition method_selector_to_k_bytes :: "pyk \<Rightarrow> bytes \<Rightarrow> kinner" where
  "method_selector_to_k_bytes P sel = k_bytes_text P (repr_bytes sel)"

section \<open>Maps\<close>

definition quoted_bytes :: "string \<Rightarrow> kinner" where
  "quoted_bytes s = KToken (''b'' @ [CHR 0x22] @ s @ [CHR 0x22]) ''Bytes''"

definition map_item :: "kinner \<Rightarrow> kinner \<Rightarrow> kinner" where
  "map_item k v = KApply ''_|->_'' [k, v]"

definition k_map :: "pyk \<Rightarrow> kinner list \<Rightarrow> kinner" where
  "k_map P items = build_assoc P (KConst ''.Map'') ''_Map_'' items"

definition map_bytes_bytes :: "pyk \<Rightarrow> pydict \<Rightarrow> kinner res" where
  "map_bytes_bytes P d = map_res (k_map P)
     (mapM_res (\<lambda>(k, v). map_res (\<lambda>s. map_item (quoted_bytes k) (quoted_bytes s)) (py_str v)) d)"

definition map_bytes_ints :: "pyk \<Rightarrow> pydict \<Rightarrow> kinner res" where
  "map_bytes_ints P d = map_res (k_map P)
     (mapM_res (\<lambda>(k, v). map_res (\<lambda>s. map_item (quoted_bytes k) (KToken s ''Int'')) (py_str v)) d)"

section \<open>Taking configurations apart\<close>

text \<open>The visitor of \<open>split_direct_subcells_from\<close>: it records a cell's first argument.\<close>

definition replace_direct :: "pyk \<Rightarrow> visitor" where
  "replace_direct P k s = (case k of
       KApply l as \<Rightarrow>
         if is_cell P l then
           (case as of
              [] \<Rightarrow> Inl IndexError
            | a # _ \<Rightarrow> Inr (KApply l [KVariable (mk_cell_var l) None], dict_set s (mk_cell_var l) a))
         else Inr (k, s)
     | _ \<Rightarrow> Inr (k, s))"

definition split_direct_subcells_from :: "pyk \<Rightarrow> kinner \<Rightarrow> (kinner \<times> subst) res" where
  "split_direct_subcells_from P configuration = map_inner P (replace_direct P) configuration []"

definition replace_carefully :: "pyk \<Rightarrow> string set \<Rightarrow> visitor" where
  "replace_carefully P ignore k s = (case k of
       KApply l [a] \<Rightarrow>
         if is_cell P l \<and> (\<not> is_cell_term (is_cell P) a \<or> l \<notin> ignore)
         then Inr (KApply l [KVariable (mk_cell_var l) None], dict_set s (mk_cell_var l) a)
         else Inr (k, s)
     | _ \<Rightarrow> Inr (k, s))"

definition carefully_split_config_from ::
    "pyk \<Rightarrow> kinner \<Rightarrow> string set option \<Rightarrow> (kinner \<times> subst) res" where
  "carefully_split_config_from P configuration ignore_cells =
     top_down P (replace_carefully P (case ignore_cells of None \<Rightarrow> {} | Some c \<Rightarrow> c)) configuration []"

text \<open>
  Every leaf becomes an existential variable named after its cell and the term's hash,
  except anonymous variables and the variables to keep.
\<close>

definition existential_leaf :: "pyk \<Rightarrow> kinner list \<Rightarrow> string \<Rightarrow> string \<times> kinner \<Rightarrow> string \<times> kinner" where
  "existential_leaf P keep_vars term_hash = (\<lambda>(s, t).
     if \<not> is_anon_var P t \<and> t \<notin> set keep_vars
     then (s, KVariable (''?'' @ s @ ''_'' @ term_hash) None) else (s, t))"

definition existentialize_leafs :: "pyk \<Rightarrow> kinner \<Rightarrow> kinner list \<Rightarrow> kinner" where
  "existentialize_leafs P t keep_vars =
     (let (config, subst) = split_config_from P t;
          term_hash = take 8 (hash_str P t)
      in subst_apply P (map (existential_leaf P keep_vars term_hash) subst) config)"

section \<open>Term builders\<close>

definition int_2_bytes :: "kinner \<Rightarrow> kinner" where
  "int_2_bytes t =
     KApply ''Int2Bytes'' [t, KToken ''BE'' ''Endianness'', KToken ''Unsigned'' ''Signedness'']"

definition plusInt :: "kinner \<Rightarrow> kinner \<Rightarrow> kinner" where
  "plusInt a b = KApply ''_+Int_'' [a, b]"

definition minusInt :: "kinner \<Rightarrow> kinner \<Rightarrow> kinner" where
  "minusInt a b = KApply ''_-Int_'' [a, b]"

definition mulInt :: "kinner \<Rightarrow> kinner \<Rightarrow> kinner" where
  "mulInt a b = KApply ''_*Int_'' [a, b]"

definition divInt :: "kinner \<Rightarrow> kinner \<Rightarrow> kinner" where
  "divInt a b = KApply ''_/Int_'' [a, b]"

definition eqK :: "kinner \<Rightarrow> kinner \<Rightarrow> kinner" where
  "eqK a b = KApply ''_==K_'' [a, b]"

section \<open>TEAL value lists are read back\<close>

lemma generate_flatten:
  "ts \<noteq> [] \<Longrightarrow> list_all (\<lambda>t. label_name_of t \<noteq> Inr tvalue_cons) ts \<Longrightarrow>
     \<exists>t. generate_tvalue_list ts = Inr t \<and> flatten_of tvalue_cons t = ts"
proof (induction ts rule: generate_tvalue_list.induct)
  case 1
  then show ?case by simp
next
  case (2 t)
  then show ?case by (cases t) auto
next
  case (3 t u us)
  then obtain r where "generate_tvalue_list (u # us) = Inr r" "flatten_of tvalue_cons r = u # us"
    by auto
  moreover have "flatten_of tvalue_cons t = [t]" using 3(3) by (cases t) auto
  ultimately show ?case by simp
qed

lemma token_labels:
  assumes "pyk_token_law P"
  shows "label_name_of (intToken P i) = Inl AttributeError"
    and "label_name_of (stringToken P s) = Inl AttributeError"
    and "label_name_of (bytesToken P b) = Inl AttributeError"
proof -
  obtain q where "stringToken P s = KToken q ''String''" using assms unfolding pyk_token_law_def by blast
  then show "label_name_of (stringToken P s) = Inl AttributeError" by simp
  obtain q where "bytesToken P b = KToken q ''Bytes''" using assms unfolding pyk_token_law_def by blast
  then show "label_name_of (bytesToken P b) = Inl AttributeError" by simp
  show "label_name_of (intToken P i) = Inl AttributeError" using assms by (simp add: pyk_token_law_def)
qed

lemma maybe_tvalue_label:
  assumes "pyk_token_law P" and "maybe_tvalue P v = Inr t"
  shows "label_name_of t \<noteq> Inr tvalue_cons"
  using assms(2) by (cases v) (auto simp: token_labels [OF assms(1)] res_iff split: if_splits)

text \<open>
  \<open>tvalue_list\<close> accepts a non-empty list exactly when \<open>maybe_tvalue\<close> accepts its elements,
  and the nested term it builds holds their tokens, all of them and in order.
\<close>

theorem tvalue_list_tokens:
  assumes "pyk_token_law P" and "vs \<noteq> []"
  shows "case mapM_res (maybe_tvalue P) vs of
      Inl e \<Rightarrow> tvalue_list P vs = Inl e
    | Inr ts \<Rightarrow> \<exists>t. tvalue_list P vs = Inr t \<and> flatten_of tvalue_cons t = ts"
proof (cases "mapM_res (maybe_tvalue P) vs")
  case (Inl e)
  then show ?thesis using assms(2) by (simp add: tvalue_list_def)
next
  case (Inr ts)
  then have "ts \<noteq> []" using assms(2) by (auto dest: mapM_res_length)
  moreover have "\<exists>v. maybe_tvalue P v = Inr t" if "t \<in> set ts" for t
    using Inr that by (auto simp: res_iff list_all2_conv_all_nth in_set_conv_nth)
  then have "list_all (\<lambda>t. label_name_of t \<noteq> Inr tvalue_cons) ts"
    using maybe_tvalue_label [OF assms(1)] by (force simp: list_all_iff)
  ultimately show ?thesis
    using Inr assms(2) generate_flatten by (simp add: tvalue_list_def)
qed

theorem tvalue_list_tokens_witness:
  "\<exists>t. tvalue_list ref_pyk [PInt 7, PNone] = Inr t \<and>
     flatten_of tvalue_cons t = [KToken ''7'' ''Int'', KConst ''NoTValue'']"
  using tvalue_list_tokens [OF ref_token_law, of "[PInt 7, PNone]"]
  by (simp add: ref_pyk_def py_eval)

section \<open>Byte strings become tokens of their bytes\<close>

lemma k_bytes_text_repr: "pyk_quote_law P \<Longrightarrow> k_bytes_text P (repr_bytes b) = bytesToken P b"
  by (simp add: k_bytes_text_def pyk_quote_law_def del: slice_repr_bytes)

text \<open>
  The detour over the text of a byte string, its unquoting and its re-encoding loses
  nothing: an address becomes the token of its 32 bytes, a method selector and every
  application argument the token of its own bytes.
\<close>

theorem bytes_tokens_exact:
  assumes "pyk_quote_law P" and "sdk_address_law S" and "length b = 32"
  shows "bind_res (encode_address S (PBytes b)) (algorand_address_to_k_bytes P S) = Inr (bytesToken P b) \<and>
    method_selector_to_k_bytes P sel = bytesToken P sel \<and>
    mapM_res (\<lambda>v. map_res (k_bytes_text P) (py_str v)) (map PBytes args) = Inr (map (bytesToken P) args)"
proof -
  from assms(2,3) obtain a where "encode_address S (PBytes b) = Inr (PStr a)"
    and "decode_address S (PStr a) = Inr (PBytes b)"
    by (auto simp: sdk_address_law_def)
  then show ?thesis
    by (simp add: algorand_address_to_k_bytes_def method_selector_to_k_bytes_def mapM_res_map
        k_bytes_text_repr [OF assms(1)])
qed

theorem bytes_tokens_exact_witness:
  "bind_res (encode_address ref_sdk (PBytes (replicate 32 7)))
     (algorand_address_to_k_bytes ref_pyk ref_sdk) = Inr (bytesToken ref_pyk (replicate 32 7)) \<and>
   method_selector_to_k_bytes ref_pyk [1, 39, 92] = bytesToken ref_pyk [1, 39, 92] \<and>
   mapM_res (\<lambda>v. map_res (k_bytes_text ref_pyk) (py_str v)) (map PBytes [[0]]) =
     Inr (map (bytesToken ref_pyk) [[0]])"
  by (rule bytes_tokens_exact [OF ref_quote_law ref_address_law]) simp

section \<open>Taking a configuration apart and substituting back\<close>

primrec ground :: "kinner \<Rightarrow> bool" where
  "ground (KApply l as) = list_all ground as"
| "ground (KToken t s) = True"
| "ground (KVariable n s) = False"
| "ground (KRewrite a b) = (ground a \<and> ground b)"
| "ground KOther = True"

lemma apply_ground: "ground t \<Longrightarrow> apply_of s t = t"
  by (induction t) (auto simp: list_all_iff intro: map_idI)

text \<open>The cells \<open>carefully_split_config_from\<close> empties, and the configuration it leaves.\<close>

fun careful_split :: "(string \<Rightarrow> bool) \<Rightarrow> string set \<Rightarrow> string \<Rightarrow> kinner list \<Rightarrow> bool" where
  "careful_split C ignore l [a] = (C l \<and> (\<not> is_cell_term C a \<or> l \<notin> ignore))"
| "careful_split C ignore l _ = False"

fun careful_cells :: "(string \<Rightarrow> bool) \<Rightarrow> string set \<Rightarrow> kinner \<Rightarrow> (string \<times> kinner) list" where
  "careful_cells C ignore (KApply l as) =
     (if careful_split C ignore l as then [(mk_cell_var l, hd as)]
      else concat (map (careful_cells C ignore) as))"
| "careful_cells C ignore (KRewrite a b) = careful_cells C ignore a @ careful_cells C ignore b"
| "careful_cells C ignore _ = []"

fun careful_config :: "(string \<Rightarrow> bool) \<Rightarrow> string set \<Rightarrow> kinner \<Rightarrow> kinner" where
  "careful_config C ignore (KApply l as) =
     (if careful_split C ignore l as then KApply l [KVariable (mk_cell_var l) None]
      else KApply l (map (careful_config C ignore) as))"
| "careful_config C ignore (KRewrite a b) = KRewrite (careful_config C ignore a) (careful_config C ignore b)"
| "careful_config C ignore t = t"

definition store_all :: "(string \<times> kinner) list \<Rightarrow> subst \<Rightarrow> subst" where
  "store_all kvs s = foldl (\<lambda>d (k, v). dict_set d k v) s kvs"

lemma store_all_simps [simp]:
  "store_all [] s = s"
  "store_all ((k, v) # kvs) s = store_all kvs (dict_set s k v)"
  "store_all (xs @ ys) s = store_all ys (store_all xs s)"
  by (simp_all add: store_all_def)

lemma replace_carefully_KApply:
  "replace_carefully P ignore (KApply l as) s =
     (if careful_split (is_cell P) ignore l as
      then Inr (KApply l [KVariable (mk_cell_var l) None], dict_set s (mk_cell_var l) (hd as))
      else Inr (KApply l as, s))"
  by (cases "(is_cell P, ignore, l, as)" rule: careful_split.cases) (auto simp: replace_carefully_def)

lemma replace_carefully_other:
  "(\<And>l as. t \<noteq> KApply l as) \<Longrightarrow> replace_carefully P ignore t s = Inr (t, s)"
  by (cases t) (auto simp: replace_carefully_def)

lemma careful_split_size: "careful_split C ignore l as \<Longrightarrow> size (KApply l [KVariable v None]) \<le> size (KApply l as)"
  by (cases "(C, ignore, l, as)" rule: careful_split.cases) auto

lemma replace_carefully_size: "replace_carefully P ignore t s = Inr (t', s') \<Longrightarrow> size t' \<le> size t"
  by (cases t) (auto simp: replace_carefully_KApply replace_carefully_other simp del: kinner.size
      dest: careful_split_size split: if_splits)

lemma thread_result:
  "(\<And>t s. t \<in> set ts \<Longrightarrow> f t s = Inr (g t, store_all (h t) s)) \<Longrightarrow>
     thread f ts s = Inr (map g ts, store_all (concat (map h ts)) s)"
  by (induction ts arbitrary: s) simp_all

lemma top_down_carefully:
  assumes "pyk_traverse_law P"
  shows "top_down P (replace_carefully P ignore) t s =
    Inr (careful_config (is_cell P) ignore t, store_all (careful_cells (is_cell P) ignore t) s)"
proof (induction t arbitrary: s rule: measure_induct_rule [where f = size])
  case (less t)
  let ?f = "replace_carefully P ignore"
  have td: "top_down P ?f t s = bind_res (?f t s) (\<lambda>(t', s'). map_inner_of (top_down P ?f) t' s')" for t s
  proof -
    have "\<forall>t s t' s'. ?f t s = Inr (t', s') \<longrightarrow> size t' \<le> size t"
      using replace_carefully_size by blast
    then have "top_down P ?f t s = bind_res (?f t s) (\<lambda>(t', s'). map_inner P (top_down P ?f) t' s')"
      using assms unfolding pyk_traverse_law_def by blast
    then show ?thesis using assms by (simp add: pyk_traverse_law_def)
  qed
  have v: "top_down P ?f (KVariable n srt) s = Inr (KVariable n srt, s)" for n srt s
    by (subst td) (simp add: replace_carefully_other map_inner_of_def)
  show ?case
  proof (cases t)
    case (KApply l as)
    have "thread (top_down P ?f) as s = Inr (map (careful_config (is_cell P) ignore) as,
        store_all (concat (map (careful_cells (is_cell P) ignore) as)) s)" for s
      by (rule thread_result) (use less KApply size_arg in blast)
    then show ?thesis
      by (subst td) (simp add: KApply replace_carefully_KApply map_inner_of_def v)
  next
    case (KRewrite a b)
    then show ?thesis
      by (subst td) (simp add: replace_carefully_other map_inner_of_def less)
  qed (subst td, simp add: replace_carefully_other map_inner_of_def)+
qed

lemma apply_careful:
  "ground t \<Longrightarrow> (\<And>k v. (k, v) \<in> set (careful_cells C ignore t) \<Longrightarrow> dict_get s k = Some v) \<Longrightarrow>
     apply_of s (careful_config C ignore t) = t"
proof (induction C ignore t rule: careful_config.induct)
  case (1 C ignore l as)
  show ?case
  proof (cases "careful_split C ignore l as")
    case True
    then obtain a where "as = [a]"
      by (cases "(C, ignore, l, as)" rule: careful_split.cases) auto
    with True 1(3) [of "mk_cell_var l" a] show ?thesis by simp
  next
    case False
    have "apply_of s (careful_config C ignore a) = a" if "a \<in> set as" for a
      using 1(1) [OF False that] 1(2,3) False that by (force simp: list_all_iff)
    with False show ?thesis by (simp add: map_idI)
  qed
qed auto

lemma store_all_distinct:
  "distinct (map fst kvs) \<Longrightarrow> store_all kvs [] = kvs"
  using dict_of_items_distinct [of kvs] by (simp add: store_all_def dict_of_items_def wf_dict_def)

text \<open>
  \<open>carefully_split_config_from\<close> returns on every configuration; it empties exactly the
  cells with one argument that hold no cell or are not ignored, and when those have distinct
  names, substituting the contents back gives the configuration again.
\<close>

theorem carefully_split_round_trip:
  assumes "pyk_traverse_law P" and "pyk_subst_law P" and "ground t"
    and "distinct (map fst (careful_cells (is_cell P) ignore t))"
  shows "\<exists>config s. carefully_split_config_from P t (Some ignore) = Inr (config, s) \<and>
    s = careful_cells (is_cell P) ignore t \<and> subst_apply P s config = t"
proof -
  let ?cells = "careful_cells (is_cell P) ignore t"
  have "carefully_split_config_from P t (Some ignore) = Inr (careful_config (is_cell P) ignore t, ?cells)"
    by (simp add: carefully_split_config_from_def top_down_carefully [OF assms(1)] store_all_distinct [OF assms(4)])
  moreover have "apply_of ?cells (careful_config (is_cell P) ignore t) = t"
    using assms(3,4) by (intro apply_careful) auto
  ultimately show ?thesis using assms(2) by (simp add: pyk_subst_law_def)
qed

theorem carefully_split_round_trip_witness:
  "\<exists>config s. carefully_split_config_from ref_pyk
       (KApply ''<a>'' [KApply ''<b>'' [KConst ''.K''], KApply ''<c>'' [KApply ''<d>'' [KToken ''1'' ''Int'']]])
       (Some {}) = Inr (config, s) \<and>
     s = [(''B_CELL'', KConst ''.K''), (''C_CELL'', KApply ''<d>'' [KToken ''1'' ''Int''])] \<and>
     subst_apply ref_pyk s config =
       KApply ''<a>'' [KApply ''<b>'' [KConst ''.K''], KApply ''<c>'' [KApply ''<d>'' [KToken ''1'' ''Int'']]]"
proof -
  let ?t = "KApply ''<a>'' [KApply ''<b>'' [KConst ''.K''], KApply ''<c>'' [KApply ''<d>'' [KToken ''1'' ''Int'']]]"
  have v: "mk_cell_var ''<b>'' = ''B_CELL''" "mk_cell_var ''<c>'' = ''C_CELL''" by code_simp+
  have c: "is_cell ref_pyk = ref_is_cell" by (simp add: ref_pyk_def)
  show ?thesis
    using carefully_split_round_trip [OF ref_traverse_law ref_subst_law, of ?t "{}"]
    by (simp add: c ref_is_cell_def v)
qed

subsection \<open>Direct subcells\<close>

definition direct_cell :: "(string \<Rightarrow> bool) \<Rightarrow> kinner \<Rightarrow> (string \<times> kinner) list" where
  "direct_cell C t = (case t of KApply l (a # as) \<Rightarrow> if C l then [(mk_cell_var l, a)] else [] | _ \<Rightarrow> [])"

definition direct_config :: "(string \<Rightarrow> bool) \<Rightarrow> kinner \<Rightarrow> kinner" where
  "direct_config C t = (case t of KApply l as \<Rightarrow>
     if C l then KApply l [KVariable (mk_cell_var l) None] else t | _ \<Rightarrow> t)"

definition no_empty_cell :: "(string \<Rightarrow> bool) \<Rightarrow> kinner \<Rightarrow> bool" where
  "no_empty_cell C t = (case t of KApply l as \<Rightarrow> C l \<longrightarrow> as \<noteq> [] | _ \<Rightarrow> True)"

definition single_cell :: "(string \<Rightarrow> bool) \<Rightarrow> kinner \<Rightarrow> bool" where
  "single_cell C t = (case t of KApply l as \<Rightarrow> C l \<longrightarrow> length as = 1 | _ \<Rightarrow> True)"

lemma replace_direct_result:
  "no_empty_cell (is_cell P) t \<Longrightarrow> replace_direct P t s =
     Inr (direct_config (is_cell P) t, store_all (direct_cell (is_cell P) t) s)"
  by (cases t) (auto simp: no_empty_cell_def replace_direct_def direct_config_def direct_cell_def
      split: list.splits)

lemma split_direct_result:
  assumes "pyk_traverse_law P" and "list_all (no_empty_cell (is_cell P)) as"
  shows "split_direct_subcells_from P (KApply l as) =
    Inr (KApply l (map (direct_config (is_cell P)) as),
      store_all (concat (map (direct_cell (is_cell P)) as)) [])"
proof -
  have "thread (replace_direct P) as [] = Inr (map (direct_config (is_cell P)) as,
      store_all (concat (map (direct_cell (is_cell P)) as)) [])"
    using assms(2) by (intro thread_result replace_direct_result) (simp add: list_all_iff)
  with assms(1) show ?thesis
    by (simp add: split_direct_subcells_from_def pyk_traverse_law_def map_inner_of_def)
qed

text \<open>
  \<open>split_direct_subcells_from\<close> puts the first argument of each direct subcell into the
  substitution, without going deeper. Substituting back gives the configuration when every
  direct subcell has exactly one argument; a subcell of several arguments comes back with the
  first one only.
\<close>

theorem split_direct_round_trip:
  assumes "pyk_traverse_law P" and "pyk_subst_law P" and "list_all ground as"
    and "list_all (no_empty_cell (is_cell P)) as"
    and "distinct (map fst (concat (map (direct_cell (is_cell P)) as)))"
  shows "\<exists>config s. split_direct_subcells_from P (KApply l as) = Inr (config, s) \<and>
    (subst_apply P s config = KApply l as) = list_all (single_cell (is_cell P)) as"
proof -
  let ?C = "is_cell P"
  let ?s = "concat (map (direct_cell ?C) as)"
  have 1: "split_direct_subcells_from P (KApply l as) = Inr (KApply l (map (direct_config ?C) as), ?s)"
    by (simp add: split_direct_result [OF assms(1,4)] store_all_distinct [OF assms(5)])
  have "apply_of ?s (direct_config ?C a) = a \<longleftrightarrow> single_cell ?C a" if a: "a \<in> set as" for a
  proof (cases "\<exists>l b bs. a = KApply l (b # bs) \<and> ?C l")
    case True
    then obtain l b bs where ab: "a = KApply l (b # bs)" "?C l" by blast
    then have "(mk_cell_var l, b) \<in> set ?s"
      using a by (force simp: direct_cell_def)
    then have "dict_get ?s (mk_cell_var l) = Some b" using assms(5) by simp
    with ab show ?thesis by (auto simp: direct_config_def single_cell_def)
  next
    case False
    then have "direct_config ?C a = a" "single_cell ?C a"
      using assms(4) a by (cases a; auto simp: direct_config_def single_cell_def no_empty_cell_def
          list_all_iff neq_Nil_conv dest!: bspec [of _ _ a])+
    moreover have "ground a" using assms(3) a by (simp add: list_all_iff)
    ultimately show ?thesis by (simp add: apply_ground)
  qed
  then have "map (\<lambda>a. apply_of ?s (direct_config ?C a)) as = as \<longleftrightarrow> list_all (single_cell ?C) as"
    by (auto simp: list_all_iff map_eq_conv [of _ as id, simplified])
  with 1 show ?thesis using assms(2) by (simp add: pyk_subst_law_def comp_def)
qed

theorem split_direct_round_trip_witness:
  "\<exists>config s. split_direct_subcells_from ref_pyk
       (KApply ''<k>'' [KApply ''<a>'' [KToken ''1'' ''Int'', KToken ''2'' ''Int'']]) = Inr (config, s) \<and>
     (subst_apply ref_pyk s config = KApply ''<k>'' [KApply ''<a>'' [KToken ''1'' ''Int'', KToken ''2'' ''Int'']]) = False"
proof -
  let ?as = "[KApply ''<a>'' [KToken ''1'' ''Int'', KToken ''2'' ''Int'']]"
  have c: "is_cell ref_pyk = ref_is_cell" by (simp add: ref_pyk_def)
  have "\<not> list_all (single_cell (is_cell ref_pyk)) ?as"
    by (simp add: c single_cell_def ref_is_cell_def)
  then show ?thesis
    using split_direct_round_trip [OF ref_traverse_law ref_subst_law, of ?as "''<k>''"]
    by (simp add: c no_empty_cell_def direct_cell_def ref_is_cell_def)
qed

end
