(* ===== verification/TealKeyValue.thy ===== *)
theory TealKeyValue
  imports PykUtils
begin

text \<open>
  \<open>kavm/adaptors/teal_key_value.py\<close>: the global state of an application as a list of
  key/value entries, as two dictionaries, and as a K map. An entry's value has type 1
  (bytes) or 2 (an integer).
\<close>

section \<open>Entries of a decoded JSON document\<close>

definition entry_of_type :: "int \<Rightarrow> pyval \<Rightarrow> bool res" where
  "entry_of_type n v =
     (if py_true v then map_res (\<lambda>t. eq_int t n) (py_get v ''type'') else Inr False)"

definition decode_text :: "pyval \<Rightarrow> string res" where
  "decode_text v = bind_res (b64decode_val v) decode_ascii"

definition raw_bytes_step :: "pyval \<Rightarrow> pydict \<Rightarrow> pydict res" where
  "raw_bytes_step item d =
     bind_res (py_get item ''value'') (\<lambda>v.
     bind_res (entry_of_type 1 v) (\<lambda>b. if b then
       bind_res (py_get v ''bytes'') (\<lambda>value.
       bind_res (decode_text value) (\<lambda>text.
       bind_res (py_get item ''key'') (\<lambda>k.
       map_res (\<lambda>key. dict_set d key (PStr text)) (decode_text k))))
     else Inr d))"

definition raw_list_state_to_dict_bytes_bytes :: "pyval list \<Rightarrow> pydict res" where
  "raw_list_state_to_dict_bytes_bytes l = foldM_res raw_bytes_step l []"

definition raw_ints_step :: "pyval \<Rightarrow> pydict \<Rightarrow> pydict res" where
  "raw_ints_step item d =
     bind_res (py_get item ''value'') (\<lambda>v.
     bind_res (entry_of_type 2 v) (\<lambda>b. if b then
       bind_res (py_get v ''uint'') (\<lambda>value.
       bind_res (py_get item ''key'') (\<lambda>k.
       map_res (\<lambda>key. dict_set d key value) (decode_text k)))
     else Inr d))"

definition raw_list_state_to_dict_bytes_ints :: "pyval list \<Rightarrow> pydict res" where
  "raw_list_state_to_dict_bytes_ints l = foldM_res raw_ints_step l []"

section \<open>Entries that are SDK objects\<close>

text \<open>
  The two functions differ in the type they select and the field they read. Keys are text,
  as their annotation says.
\<close>

definition list_state_step :: "int \<Rightarrow> string \<Rightarrow> pyval \<Rightarrow> pydict \<Rightarrow> pydict res" where
  "list_state_step n field item d =
     bind_res (py_attr item ''value'') (\<lambda>v.
     bind_res (entry_of_type n v) (\<lambda>b. if b then
       bind_res (py_get v field) (\<lambda>value.
       bind_res (py_attr item ''key'') (\<lambda>k.
       map_res (\<lambda>key. dict_set d key value) (as_str k)))
     else Inr d))"

definition list_state_to_dict_bytes_bytes :: "pyval list \<Rightarrow> pydict res" where
  "list_state_to_dict_bytes_bytes l = foldM_res (list_state_step 1 ''bytes'') l []"

definition list_state_to_dict_bytes_ints :: "pyval list \<Rightarrow> pydict res" where
  "list_state_to_dict_bytes_ints l = foldM_res (list_state_step 2 ''uint'') l []"

definition list_to_dict_apps_created :: "pyval list \<Rightarrow> (int, pyval) dict res" where
  "list_to_dict_apps_created l =
     foldM_res (\<lambda>item d. bind_res (py_get item ''id'') (\<lambda>i.
       map_res (\<lambda>n. dict_set d n item) (as_int i))) l []"

section \<open>Entries from a K map\<close>

text \<open>\<open>models.TealKeyValue\<close> and \<open>models.TealValue\<close> objects.\<close>

definition bytes_entry :: "sdk \<Rightarrow> string \<Rightarrow> string \<Rightarrow> pyval" where
  "bytes_entry S k v = new_model S ''TealKeyValue'' [(''key'', PStr k),
     (''value'', new_model S ''TealValue'' [(''type'', PInt 1), (''bytes'', PStr v)])]"

definition int_entry :: "sdk \<Rightarrow> string \<Rightarrow> int \<Rightarrow> pyval" where
  "int_entry S k i = new_model S ''TealKeyValue'' [(''key'', PStr k),
     (''value'', new_model S ''TealValue'' [(''type'', PInt 2), (''uint'', PInt i)])]"

fun teal_key_value_store_from_k_cell :: "sdk \<Rightarrow> kinner \<Rightarrow> pyval list res" where
  "teal_key_value_store_from_k_cell S (KApply l as) =
     (if l = ''_|->_'' then
        bind_res (arg_of (KApply l as) 1) (\<lambda>v.
        bind_res (sort_name_of v) (\<lambda>s.
        if s = ''Bytes'' then
          bind_res (token_of (hd as)) (\<lambda>k.
          map_res (\<lambda>b. [bytes_entry S (slice_2_m1 k) (slice_2_m1 b)]) (token_of v))
        else if s = ''Int'' then
          bind_res (token_of (hd as)) (\<lambda>k.
          bind_res (token_of v) (\<lambda>t.
          map_res (\<lambda>i. [int_entry S (slice_2_m1 k) i]) (int_of_str t)))
        else Inr []))
      else if l = ''_Map_'' then
        (case as of
           [] \<Rightarrow> Inl IndexError
         | [a] \<Rightarrow> bind_res (teal_key_value_store_from_k_cell S a) (\<lambda>_. Inl IndexError)
         | a # b # _ \<Rightarrow>
             bind_res (teal_key_value_store_from_k_cell S a) (\<lambda>xs.
             map_res (\<lambda>ys. xs @ ys) (teal_key_value_store_from_k_cell S b)))
      else Inr [])"
| "teal_key_value_store_from_k_cell S _ = Inl AttributeError"

section \<open>Round trips\<close>

lemma store_from_assoc:
  assumes "\<And>x. x \<in> set xs \<Longrightarrow> teal_key_value_store_from_k_cell S (h x) = Inr [f x]"
  shows "teal_key_value_store_from_k_cell S (assoc_of (KConst ''.Map'') ''_Map_'' (map h xs)) =
    Inr (map f xs)"
  using assms
proof (induction xs)
  case Nil
  show ?case by simp
next
  case (Cons x xs)
  then show ?case by (cases xs) simp_all
qed

lemma store_from_map_item_bytes [simp]:
  "teal_key_value_store_from_k_cell S (map_item (quoted_bytes k) (quoted_bytes v)) =
     Inr [bytes_entry S k v]"
  by (simp add: map_item_def quoted_bytes_def)

lemma store_from_map_item_int [simp]:
  "teal_key_value_store_from_k_cell S (map_item (quoted_bytes k) (KToken (str_of_int i) ''Int'')) =
     Inr [int_entry S k i]"
  by (simp add: map_item_def quoted_bytes_def)

lemma k_map_law:
  assumes "pyk_list_law P"
  shows "k_map P (map (\<lambda>x. map_item (f x) (g x)) xs) =
    assoc_of (KConst ''.Map'') ''_Map_'' (map (\<lambda>x. map_item (f x) (g x)) xs)"
proof -
  have "KConst ''.Map'' \<notin> set (map (\<lambda>x. map_item (f x) (g x)) xs)"
    by (auto simp: map_item_def)
  with assms show ?thesis by (simp add: k_map_def pyk_list_law_def)
qed

end
