(* ===== verification/AlgodApplication.thy ===== *)
theory AlgodApplication
  imports TealKeyValue
begin

text \<open>
  \<open>kavm/adaptors/algod_application.py\<close>: a stateful application between the SDK's model
  objects and the K cell \<open><app>\<close>.
\<close>

section \<open>The application cell\<close>

definition cell1 :: "string \<Rightarrow> kinner \<Rightarrow> kinner" where
  "cell1 l t = KApply l [t]"

definition int_cell :: "string \<Rightarrow> string \<Rightarrow> kinner" where
  "int_cell l i = cell1 l (KToken i ''Int'')"

text \<open>A K string token of the text between the quotes.\<close>

abbreviation empty_string_token :: kinner where
  "empty_string_token \<equiv> KToken [CHR 0x22, CHR 0x22] ''String''"

text \<open>\<open>str(schema.field if schema else 0)\<close>.\<close>

definition schema_field :: "pyval \<Rightarrow> string \<Rightarrow> string res" where
  "schema_field schema field =
     bind_res (if py_true schema then py_attr schema field else Inr (PInt 0)) py_str"

definition state_dict :: "(pyval list \<Rightarrow> pydict res) \<Rightarrow> pyval \<Rightarrow> pydict res" where
  "state_dict conv global_state =
     (if py_true global_state then bind_res (as_list global_state) conv else Inr [])"

definition app_cell_term ::
    "string \<Rightarrow> string \<Rightarrow> string \<Rightarrow> kinner \<Rightarrow> kinner \<Rightarrow> string \<Rightarrow> string \<Rightarrow> kinner" where
  "app_cell_term app_id global_ints_n global_bytes_n global_bytes global_ints local_ints_n local_bytes_n =
     KApply ''<app>''
       [int_cell ''<appID>'' app_id,
        cell1 ''<approvalPgmSrc>'' (KConst ''.K''),
        cell1 ''<clearStatePgmSrc>'' (KConst ''.K''),
        cell1 ''<approvalPgm>'' empty_string_token,
        cell1 ''<clearStatePgm>'' empty_string_token,
        KApply ''<globalState>''
          [int_cell ''<globalNumInts>'' global_ints_n,
           int_cell ''<globalNumBytes>'' global_bytes_n,
           cell1 ''<globalBytes>'' global_bytes,
           cell1 ''<globalInts>'' global_ints],
        KApply ''<localState>''
          [int_cell ''<localNumInts>'' local_ints_n,
           int_cell ''<localNumBytes>'' local_bytes_n],
        int_cell ''<extraPages>'' ''0'']"

definition application_k_term ::
    "pyk \<Rightarrow> int \<Rightarrow> pyval \<Rightarrow> pyval \<Rightarrow> pyval \<Rightarrow> kinner res" where
  "application_k_term P app_id global_state_schema local_state_schema global_state =
     bind_res (schema_field global_state_schema ''num_uint'') (\<lambda>global_num_ints.
     bind_res (schema_field global_state_schema ''num_byte_slice'') (\<lambda>global_num_byte_slice.
     bind_res (schema_field local_state_schema ''num_uint'') (\<lambda>local_num_ints.
     bind_res (schema_field local_state_schema ''num_byte_slice'') (\<lambda>local_num_byte_slice.
     bind_res (state_dict list_state_to_dict_bytes_bytes global_state) (\<lambda>global_bytes.
     bind_res (state_dict list_state_to_dict_bytes_ints global_state) (\<lambda>global_ints.
     bind_res (map_bytes_bytes P global_bytes) (\<lambda>bytes_map.
     map_res (\<lambda>ints_map. app_cell_term (str_of_int app_id) global_num_ints global_num_byte_slice
         bytes_map ints_map local_num_ints local_num_byte_slice)
       (map_bytes_ints P global_ints))))))))"

section \<open>Parsing the cell\<close>

definition state_schema :: "sdk \<Rightarrow> int \<Rightarrow> int \<Rightarrow> pyval" where
  "state_schema S num_uint num_byte_slice = new_model S ''ApplicationStateSchema''
     [(''num_uint'', PInt num_uint), (''num_byte_slice'', PInt num_byte_slice)]"

text \<open>\<open>x if x else None\<close> for byte strings, and for lists by their length.\<close>

definition bytes_or_None :: "bytes \<Rightarrow> pyval" where
  "bytes_or_None b = (if b \<noteq> [] then PBytes b else PNone)"

definition list_or_None :: "pyval list \<Rightarrow> pyval" where
  "list_or_None xs = (if length xs \<noteq> 0 then PList xs else PNone)"

definition application_params ::
    "sdk \<Rightarrow> string \<Rightarrow> bytes \<Rightarrow> bytes \<Rightarrow> pyval \<Rightarrow> pyval \<Rightarrow> pyval list \<Rightarrow> pyval" where
  "application_params S creator approval clear local_schema global_schema global_state =
     new_model S ''KAVMApplicationParams''
       [(''creator'', PStr creator),
        (''approval_program'', bytes_or_None approval),
        (''clear_state_program'', bytes_or_None clear),
        (''local_state_schema'', local_schema),
        (''global_state_schema'', global_schema),
        (''global_state'', list_or_None global_state)]"

text \<open>The parse as far as the keyword arguments \<open>id\<close> and \<open>params\<close> of the result.\<close>

definition parse_app_cell :: "pyk \<Rightarrow> sdk \<Rightarrow> kinner \<Rightarrow> string \<Rightarrow> (int \<times> pyval) res" where
  "parse_app_cell P S t creator =
     (let subst = snd (split_config_from P t) in
      bind_res (subst_int subst ''APPID_CELL'') (\<lambda>app_id.
      bind_res (bind_res (subst_token subst ''APPROVALPGM_CELL'') b64decode) (\<lambda>approval.
      bind_res (bind_res (subst_token subst ''CLEARSTATEPGM_CELL'') b64decode) (\<lambda>clear.
      bind_res (bind_res (subst_get subst ''GLOBALINTS_CELL'') (teal_key_value_store_from_k_cell S)) (\<lambda>ints.
      bind_res (bind_res (subst_get subst ''GLOBALBYTES_CELL'') (teal_key_value_store_from_k_cell S)) (\<lambda>bytes.
      bind_res (subst_int subst ''LOCALNUMINTS_CELL'') (\<lambda>local_ints.
      bind_res (subst_int subst ''LOCALNUMBYTES_CELL'') (\<lambda>local_bytes.
      bind_res (subst_int subst ''GLOBALNUMINTS_CELL'') (\<lambda>global_ints.
      map_res (\<lambda>global_bytes. (app_id, application_params S creator approval clear
          (state_schema S local_ints local_bytes) (state_schema S global_ints global_bytes)
          (ints @ bytes)))
        (subst_int subst ''GLOBALNUMBYTES_CELL''))))))))))"

definition app_from_k_cell :: "pyk \<Rightarrow> sdk \<Rightarrow> kinner \<Rightarrow> string \<Rightarrow> pyval res" where
  "app_from_k_cell P S t creator =
     map_res (\<lambda>(app_id, params). new_model S ''KAVMApplication'' [(''id'', PInt app_id), (''params'', params)])
       (parse_app_cell P S t creator)"

section \<open>The substitution of an application cell\<close>

text \<open>The names of the cell variables, evaluated once.\<close>

lemma cell_var_app:
  "mk_cell_var ''<appID>'' = ''APPID_CELL''"
  "mk_cell_var ''<approvalPgmSrc>'' = ''APPROVALPGMSRC_CELL''"
  "mk_cell_var ''<clearStatePgmSrc>'' = ''CLEARSTATEPGMSRC_CELL''"
  "mk_cell_var ''<approvalPgm>'' = ''APPROVALPGM_CELL''"
  "mk_cell_var ''<clearStatePgm>'' = ''CLEARSTATEPGM_CELL''"
  "mk_cell_var ''<globalNumInts>'' = ''GLOBALNUMINTS_CELL''"
  "mk_cell_var ''<globalNumBytes>'' = ''GLOBALNUMBYTES_CELL''"
  "mk_cell_var ''<globalBytes>'' = ''GLOBALBYTES_CELL''"
  "mk_cell_var ''<globalInts>'' = ''GLOBALINTS_CELL''"
  "mk_cell_var ''<localNumInts>'' = ''LOCALNUMINTS_CELL''"
  "mk_cell_var ''<localNumBytes>'' = ''LOCALNUMBYTES_CELL''"
  "mk_cell_var ''<extraPages>'' = ''EXTRAPAGES_CELL''"
  by code_simp+

text \<open>A cell whose content is not a cell is a leaf.\<close>

lemma leaf_cells_cell1 [simp]:
  "C l \<Longrightarrow> \<not> is_cell_term C t \<Longrightarrow> leaf_cells C (cell1 l t) = [(l, t)]"
  by (simp add: cell1_def)

lemma is_cell_term_simps [simp]:
  "is_cell_term C (KToken t s) = False"
  "is_cell_term C (KVariable n v) = False"
  "is_cell_term C (KRewrite a b) = False"
  "is_cell_term C (KApply l as) = C l"
  by (simp_all add: is_cell_term_def)

lemma app_cell_subst:
  assumes split: "pyk_split_law P" and cell: "pyk_cell_law P"
    and gb: "\<not> is_cell_term (is_cell P) gb" and gi: "\<not> is_cell_term (is_cell P) gi"
  shows "snd (split_config_from P (app_cell_term i gin gbn gb gi lin lbn)) =
     [(''APPID_CELL'', KToken i ''Int''),
      (''APPROVALPGMSRC_CELL'', KConst ''.K''),
      (''CLEARSTATEPGMSRC_CELL'', KConst ''.K''),
      (''APPROVALPGM_CELL'', empty_string_token),
      (''CLEARSTATEPGM_CELL'', empty_string_token),
      (''GLOBALNUMINTS_CELL'', KToken gin ''Int''),
      (''GLOBALNUMBYTES_CELL'', KToken gbn ''Int''),
      (''GLOBALBYTES_CELL'', gb),
      (''GLOBALINTS_CELL'', gi),
      (''LOCALNUMINTS_CELL'', KToken lin ''Int''),
      (''LOCALNUMBYTES_CELL'', KToken lbn ''Int''),
      (''EXTRAPAGES_CELL'', KToken ''0'' ''Int'')]"
proof -
  have c: "is_cell P l \<longleftrightarrow> 2 \<le> length l \<and> hd l = CHR ''<'' \<and> last l = CHR ''>''" for l
    using cell by (simp add: pyk_cell_law_def)
  have "leaf_cells (is_cell P) (app_cell_term i gin gbn gb gi lin lbn) =
     [(''<appID>'', KToken i ''Int''),
      (''<approvalPgmSrc>'', KConst ''.K''),
      (''<clearStatePgmSrc>'', KConst ''.K''),
      (''<approvalPgm>'', empty_string_token),
      (''<clearStatePgm>'', empty_string_token),
      (''<globalNumInts>'', KToken gin ''Int''),
      (''<globalNumBytes>'', KToken gbn ''Int''),
      (''<globalBytes>'', gb),
      (''<globalInts>'', gi),
      (''<localNumInts>'', KToken lin ''Int''),
      (''<localNumBytes>'', KToken lbn ''Int''),
      (''<extraPages>'', KToken ''0'' ''Int'')]"
    using gb gi by (simp add: app_cell_term_def int_cell_def c)
  then show ?thesis
    using split by (simp add: pyk_split_law_def dict_of_items_def cell_var_app)
qed

section \<open>Round trip\<close>

lemma str_int_field [simp]: "py_str (PInt i) = Inr (str_of_int i)"
  by simp

lemma map_bytes_bytes_text:
  "map_bytes_bytes P (map (\<lambda>(k, v). (k, PStr v)) d) =
     Inr (k_map P (map (\<lambda>x. map_item (quoted_bytes (fst x)) (quoted_bytes (snd x))) d))"
  by (simp add: map_bytes_bytes_def mapM_res_map case_prod_beta)

lemma map_bytes_ints_int:
  "map_bytes_ints P (map (\<lambda>(k, i). (k, PInt i)) d) =
     Inr (k_map P (map (\<lambda>x. map_item (quoted_bytes (fst x)) (KToken (str_of_int (snd x)) ''Int'')) d))"
  by (simp add: map_bytes_ints_def mapM_res_map case_prod_beta)

lemma store_from_map_bytes_bytes:
  "pyk_list_law P \<Longrightarrow> teal_key_value_store_from_k_cell S
     (k_map P (map (\<lambda>x. map_item (quoted_bytes (fst x)) (quoted_bytes (snd x))) d)) =
     Inr (map (\<lambda>(k, v). bytes_entry S k v) d)"
  by (simp add: k_map_law case_prod_beta store_from_assoc [where f = "\<lambda>x. bytes_entry S (fst x) (snd x)"])

lemma store_from_map_bytes_ints:
  "pyk_list_law P \<Longrightarrow> teal_key_value_store_from_k_cell S
     (k_map P (map (\<lambda>x. map_item (quoted_bytes (fst x)) (KToken (str_of_int (snd x)) ''Int'')) d)) =
     Inr (map (\<lambda>(k, i). int_entry S k i) d)"
  by (simp add: k_map_law case_prod_beta store_from_assoc [where f = "\<lambda>x. int_entry S (fst x) (snd x)"])

lemma k_map_not_cell:
  assumes "pyk_list_law P" and "pyk_cell_law P"
  shows "\<not> is_cell_term (is_cell P) (k_map P (map (\<lambda>x. map_item (f x) (g x)) xs))"
proof -
  have "\<not> is_cell_term (is_cell P) (assoc_of (KConst ''.Map'') ''_Map_'' ts)"
    if "list_all (\<lambda>t. \<not> is_cell_term (is_cell P) t) ts" for ts
    using that assms(2)
    by (induction "KConst ''.Map''" "''_Map_''" ts rule: assoc_of.induct) (auto simp: pyk_cell_law_def)
  moreover have "list_all (\<lambda>t. \<not> is_cell_term (is_cell P) t) (map (\<lambda>x. map_item (f x) (g x)) xs)"
    using assms(2) by (auto simp: list_all_iff map_item_def pyk_cell_law_def)
  ultimately show ?thesis by (simp add: k_map_law [OF assms(1)])
qed

lemma b64decode_empty_token [simp]: "b64decode [CHR 0x22, CHR 0x22] = Inr []"
  by (simp add: py_eval)

text \<open>
  What the constructor of an application's cell needs to know of its arguments: the two
  schemas' numbers and the two halves of the global state.
\<close>

definition schema_numbers :: "pyval \<Rightarrow> int \<Rightarrow> int \<Rightarrow> bool" where
  "schema_numbers schema u b \<longleftrightarrow>
     schema_field schema ''num_uint'' = Inr (str_of_int u) \<and>
     schema_field schema ''num_byte_slice'' = Inr (str_of_int b)"

definition global_halves :: "pyval \<Rightarrow> (string \<times> string) list \<Rightarrow> (string \<times> int) list \<Rightarrow> bool" where
  "global_halves st bs is \<longleftrightarrow>
     state_dict list_state_to_dict_bytes_bytes st = Inr (map (\<lambda>(k, v). (k, PStr v)) bs) \<and>
     state_dict list_state_to_dict_bytes_ints st = Inr (map (\<lambda>(k, i). (k, PInt i)) is)"

lemma application_round_trip_aux:
  assumes laws: "pyk_split_law P" "pyk_cell_law P" "pyk_list_law P"
    and args: "schema_numbers gs gu gb" "schema_numbers ls lu lb" "global_halves st bs is"
  shows "\<exists>t. application_k_term P app_id gs ls st = Inr t \<and>
     label_name_of t = Inr ''<app>'' \<and>
     parse_app_cell P S t creator = Inr (app_id, application_params S creator [] []
       (state_schema S lu lb) (state_schema S gu gb)
       (map (\<lambda>(k, i). int_entry S k i) is @ map (\<lambda>(k, v). bytes_entry S k v) bs))"
proof -
  let ?bm = "k_map P (map (\<lambda>x. map_item (quoted_bytes (fst x)) (quoted_bytes (snd x))) bs)"
  let ?im = "k_map P (map (\<lambda>x. map_item (quoted_bytes (fst x)) (KToken (str_of_int (snd x)) ''Int'')) is)"
  let ?t = "app_cell_term (str_of_int app_id) (str_of_int gu) (str_of_int gb) ?bm ?im
      (str_of_int lu) (str_of_int lb)"
  have "application_k_term P app_id gs ls st = Inr ?t"
    using args by (simp add: application_k_term_def schema_numbers_def global_halves_def
        map_bytes_bytes_text map_bytes_ints_int)
  moreover have "label_name_of ?t = Inr ''<app>''" by (simp add: app_cell_term_def)
  moreover have "parse_app_cell P S ?t creator = Inr (app_id, application_params S creator [] []
       (state_schema S lu lb) (state_schema S gu gb)
       (map (\<lambda>(k, i). int_entry S k i) is @ map (\<lambda>(k, v). bytes_entry S k v) bs))"
    by (simp add: parse_app_cell_def Let_def subst_int_def subst_token_def subst_get_def
        app_cell_subst [OF laws(1,2) k_map_not_cell [OF laws(3,2)] k_map_not_cell [OF laws(3,2)]]
        store_from_map_bytes_bytes [OF laws(3)] store_from_map_bytes_ints [OF laws(3)])
  ultimately show ?thesis by blast
qed

section \<open>Properties\<close>

text \<open>
  A dictionary of texts and a dictionary of integers, written as K maps by
  \<open>map_bytes_bytes\<close> and \<open>map_bytes_ints\<close>, are read back by
  \<open>teal_key_value_store_from_k_cell\<close> as one entry per key, in order, with its type.
\<close>

theorem teal_map_round_trip:
  assumes "pyk_list_law P"
  shows "bind_res (map_bytes_bytes P (map (\<lambda>(k, v). (k, PStr v)) bs)) (teal_key_value_store_from_k_cell S) =
      Inr (map (\<lambda>(k, v). bytes_entry S k v) bs) \<and>
    bind_res (map_bytes_ints P (map (\<lambda>(k, i). (k, PInt i)) is)) (teal_key_value_store_from_k_cell S) =
      Inr (map (\<lambda>(k, i). int_entry S k i) is)"
  by (simp_all add: map_bytes_bytes_text map_bytes_ints_int store_from_map_bytes_bytes [OF assms]
      store_from_map_bytes_ints [OF assms])

theorem teal_map_round_trip_witness:
  "bind_res (map_bytes_bytes ref_pyk (map (\<lambda>(k, v). (k, PStr v)) [(''a'', ''x''), (''b'', ''y'')]))
     (teal_key_value_store_from_k_cell ref_sdk) =
   Inr [bytes_entry ref_sdk ''a'' ''x'', bytes_entry ref_sdk ''b'' ''y'']"
  using teal_map_round_trip [OF ref_list_law, of "[(''a'', ''x''), (''b'', ''y'')]" ref_sdk "[]"] by simp

text \<open>
  An application that was built from schemas and a global state and serialised with
  \<open>application_k_term\<close> is parsed back by \<open>from_k_cell\<close> with the same id, schemas and state,
  the integer entries first, and with no programs.
\<close>

theorem application_round_trip:
  assumes "pyk_split_law P" and "pyk_cell_law P" and "pyk_list_law P"
    and "schema_numbers gs gu gb" and "schema_numbers ls lu lb" and "global_halves st bs is"
  shows "bind_res (application_k_term P app_id gs ls st) (\<lambda>t. app_from_k_cell P S t creator) =
    Inr (new_model S ''KAVMApplication'' [(''id'', PInt app_id),
      (''params'', application_params S creator [] [] (state_schema S lu lb) (state_schema S gu gb)
        (map (\<lambda>(k, i). int_entry S k i) is @ map (\<lambda>(k, v). bytes_entry S k v) bs))])"
  using application_round_trip_aux [OF assms, of app_id S creator] by (auto simp: app_from_k_cell_def)

definition sample_state :: pyval where
  "sample_state = PList
     [PObj ''TealKeyValue'' [(''key'', PStr ''n''),
        (''value'', PDict [(''type'', PInt 2), (''uint'', PInt 5)])],
      PObj ''TealKeyValue'' [(''key'', PStr ''s''),
        (''value'', PDict [(''type'', PInt 1), (''bytes'', PStr ''x'')])]]"

lemma sample_halves: "global_halves sample_state [(''s'', ''x'')] [(''n'', 5)]"
  by (simp add: global_halves_def sample_state_def state_dict_def list_state_to_dict_bytes_bytes_def
      list_state_to_dict_bytes_ints_def list_state_step_def entry_of_type_def)

lemma no_schema: "schema_numbers PNone 0 0"
  by (simp add: schema_numbers_def schema_field_def)

theorem application_round_trip_witness:
  "bind_res (application_k_term ref_pyk 7 PNone PNone sample_state)
     (\<lambda>t. app_from_k_cell ref_pyk ref_sdk t ''creator'') =
   Inr (new_model ref_sdk ''KAVMApplication'' [(''id'', PInt 7),
      (''params'', application_params ref_sdk ''creator'' [] [] (state_schema ref_sdk 0 0) (state_schema ref_sdk 0 0)
        [int_entry ref_sdk ''n'' 5, bytes_entry ref_sdk ''s'' ''x''])])"
  using application_round_trip [OF ref_split_law ref_cell_law ref_list_law no_schema no_schema sample_halves,
      of 7 ref_sdk "''creator''"] by simp

text \<open>
  The other direction does not exist. The values of a parsed global state are SDK objects,
  and the serialisation subscripts them as dictionaries, so an application that was read from
  a cell with a non-empty global state cannot be written to one again.
\<close>

theorem parsed_state_not_serialised:
  assumes "sdk_attr_law S" and "sdk_model_law S"
  shows "application_k_term P app_id PNone PNone (PList (bytes_entry S k v # rest)) = Inl TypeError \<and>
    application_k_term P app_id PNone PNone (PList (int_entry S k i # rest)) = Inl TypeError"
proof -
  have get: "entry_of_type n (new_model S c kw) = Inl TypeError" for n c kw
    using assms(2) by (cases "new_model S c kw")
      (auto simp: entry_of_type_def sdk_model_law_def is_model_def split: pyval.splits)
  have attr: "py_attr (new_model S c kw) a = Inr x" if "dict_get kw a = Some x" for c kw a x
    using assms(1) that by (simp add: sdk_attr_law_def)
  show ?thesis
    by (simp add: application_k_term_def schema_field_def state_dict_def bytes_entry_def int_entry_def
        list_state_to_dict_bytes_bytes_def list_state_step_def attr get)
qed

theorem parsed_state_not_serialised_witness:
  "application_k_term ref_pyk 7 PNone PNone (PList [bytes_entry ref_sdk ''k'' ''v'']) = Inl TypeError"
  using parsed_state_not_serialised [OF ref_attr_law ref_model_law] by blast

end
