(* ===== verification/AlgodAccount.thy ===== *)
theory AlgodAccount
  imports AlgodApplication
begin

text \<open>
  \<open>kavm/adaptors/algod_account.py\<close> and \<open>kavm/constants.py\<close>: an account between the SDK's
  model object and the K cell \<open><account>\<close>, with the applications it created.
\<close>

section \<open>Constants\<close>

definition MIN_BALANCE :: int where
  "MIN_BALANCE = 100000"

definition FAUCET_ALGO_SUPPLY :: int where
  "FAUCET_ALGO_SUPPLY = 18446744073709551615"

definition ZERO_ADDRESS :: string where
  "ZERO_ADDRESS = ''AAAAAAAAAAAAAAAAAAAAAAAAAAAAAAAAAAAAAAAAAAAAAAAAAAAAY5HFKQ''"

section \<open>Ids of what an account created\<close>

text \<open>
  \<open>list(d[key].keys())\<close>, or the empty list if the key is missing. Only the missing key is
  caught: the field of an SDK account dictionary is a list, which has no \<open>keys\<close>.
\<close>

definition created_ids :: "string \<Rightarrow> pydict \<Rightarrow> string list res" where
  "created_ids key d =
     catch_res (bind_res (dict_lookup d key) (\<lambda>v. map_res dict_keys (as_items v)))
       (\<lambda>e. e = KeyError) (\<lambda>_. Inr [])"

definition sdk_account_created_app_ids :: "pydict \<Rightarrow> string list res" where
  "sdk_account_created_app_ids d = created_ids ''created-apps'' d"

definition sdk_account_created_asset_ids :: "pydict \<Rightarrow> string list res" where
  "sdk_account_created_asset_ids d = created_ids ''created-assets'' d"

section \<open>The account cell\<close>

definition account_k_term :: "pyk \<Rightarrow> string \<Rightarrow> int \<Rightarrow> kinner list \<Rightarrow> kinner" where
  "account_k_term P address amount created_apps_terms =
     KApply ''<account>''
       [cell1 ''<address>'' (KToken address ''String''),
        cell1 ''<balance>'' (intToken P amount),
        cell1 ''<minBalance>'' (intToken P MIN_BALANCE),
        cell1 ''<round>'' (intToken P 0),
        cell1 ''<preRewards>'' (intToken P 0),
        cell1 ''<rewards>'' (intToken P 0),
        cell1 ''<status>'' (intToken P 0),
        cell1 ''<key>'' (KToken address ''String''),
        cell1 ''<appsCreated>'' (build_cons P (KConst ''.AppCellMap'') ''_AppCellMap_'' created_apps_terms),
        cell1 ''<appsOptedIn>'' (KConst ''.OptInAppCellMap''),
        cell1 ''<assetsCreated>'' (KConst ''.AssetCellMap''),
        cell1 ''<assetsOptedIn>'' (KConst ''.OptInAssetCellMap'')]"

section \<open>Parsing the cell\<close>

definition account_object :: "sdk \<Rightarrow> string \<Rightarrow> int \<Rightarrow> pyval list \<Rightarrow> string \<Rightarrow> pyval" where
  "account_object S address amount created_apps auth_addr =
     new_model S ''KAVMAccount''
       [(''address'', PStr address), (''amount'', PInt amount),
        (''amount_without_pending_rewards'', PNone), (''apps_local_state'', PNone),
        (''apps_total_schema'', PNone), (''assets'', PNone),
        (''created_apps'', list_or_None created_apps), (''participation'', PNone),
        (''pending_rewards'', PNone), (''reward_base'', PNone), (''rewards'', PNone),
        (''round'', PNone), (''status'', PNone), (''sig_type'', PNone),
        (''auth_addr'', PStr auth_addr)]"

text \<open>The loop over the created applications' terms: the unit of the map is skipped.\<close>

definition created_app_step :: "pyk \<Rightarrow> sdk \<Rightarrow> string \<Rightarrow> kinner \<Rightarrow> pyval list \<Rightarrow> pyval list res" where
  "created_app_step P S address app_term apps =
     bind_res (label_name_of app_term) (\<lambda>l.
     if l = ''<app>'' then
       bind_res (app_from_k_cell P S app_term address) (\<lambda>app.
       map_res (\<lambda>params. apps @ [params]) (py_attr app ''params''))
     else Inr apps)"

definition account_from_k_cell :: "pyk \<Rightarrow> sdk \<Rightarrow> kinner \<Rightarrow> pyval res" where
  "account_from_k_cell P S t =
     (let subst = snd (split_config_from P t) in
      bind_res (subst_token subst ''ADDRESS_CELL'') (\<lambda>address.
      bind_res (subst_int subst ''BALANCE_CELL'') (\<lambda>amount.
      bind_res (subst_token subst ''KEY_CELL'') (\<lambda>auth_addr.
      bind_res (subst_get subst ''APPSCREATED_CELL'') (\<lambda>apps_cell.
      bind_res (label_name_of apps_cell) (\<lambda>l.
      map_res (\<lambda>apps. account_object S address amount apps auth_addr)
        (foldM_res (created_app_step P S address)
          (if l = ''_AppCellMap_'' then flatten_label P ''_AppCellMap_'' apps_cell else []) [])))))))"

section \<open>Round trip\<close>

lemma cell_var_account:
  "mk_cell_var ''<address>'' = ''ADDRESS_CELL''"
  "mk_cell_var ''<balance>'' = ''BALANCE_CELL''"
  "mk_cell_var ''<minBalance>'' = ''MINBALANCE_CELL''"
  "mk_cell_var ''<round>'' = ''ROUND_CELL''"
  "mk_cell_var ''<preRewards>'' = ''PREREWARDS_CELL''"
  "mk_cell_var ''<rewards>'' = ''REWARDS_CELL''"
  "mk_cell_var ''<status>'' = ''STATUS_CELL''"
  "mk_cell_var ''<key>'' = ''KEY_CELL''"
  "mk_cell_var ''<appsCreated>'' = ''APPSCREATED_CELL''"
  "mk_cell_var ''<appsOptedIn>'' = ''APPSOPTEDIN_CELL''"
  "mk_cell_var ''<assetsCreated>'' = ''ASSETSCREATED_CELL''"
  "mk_cell_var ''<assetsOptedIn>'' = ''ASSETSOPTEDIN_CELL''"
  by code_simp+

lemma account_subst:
  assumes laws: "pyk_split_law P" "pyk_cell_law P" "pyk_list_law P" "pyk_token_law P"
  shows "snd (split_config_from P (account_k_term P address amount apps)) =
     [(''ADDRESS_CELL'', KToken address ''String''),
      (''BALANCE_CELL'', KToken (str_of_int amount) ''Int''),
      (''MINBALANCE_CELL'', KToken (str_of_int MIN_BALANCE) ''Int''),
      (''ROUND_CELL'', KToken (str_of_int 0) ''Int''),
      (''PREREWARDS_CELL'', KToken (str_of_int 0) ''Int''),
      (''REWARDS_CELL'', KToken (str_of_int 0) ''Int''),
      (''STATUS_CELL'', KToken (str_of_int 0) ''Int''),
      (''KEY_CELL'', KToken address ''String''),
      (''APPSCREATED_CELL'', cons_of (KConst ''.AppCellMap'') ''_AppCellMap_'' apps),
      (''APPSOPTEDIN_CELL'', KConst ''.OptInAppCellMap''),
      (''ASSETSCREATED_CELL'', KConst ''.AssetCellMap''),
      (''ASSETSOPTEDIN_CELL'', KConst ''.OptInAssetCellMap'')]"
proof -
  have c: "is_cell P l \<longleftrightarrow> 2 \<le> length l \<and> hd l = CHR ''<'' \<and> last l = CHR ''>''" for l
    using laws(2) by (simp add: pyk_cell_law_def)
  have i: "intToken P n = KToken (str_of_int n) ''Int''" for n
    using laws(4) by (simp add: pyk_token_law_def)
  have b: "build_cons P u l ts = cons_of u l ts" for u l ts
    using laws(3) by (simp add: pyk_list_law_def)
  have n: "\<not> is_cell_term (is_cell P) (cons_of (KConst ''.AppCellMap'') ''_AppCellMap_'' apps)"
    by (cases apps) (simp_all add: c)
  have "leaf_cells (is_cell P) (account_k_term P address amount apps) =
     [(''<address>'', KToken address ''String''),
      (''<balance>'', KToken (str_of_int amount) ''Int''),
      (''<minBalance>'', KToken (str_of_int MIN_BALANCE) ''Int''),
      (''<round>'', KToken (str_of_int 0) ''Int''),
      (''<preRewards>'', KToken (str_of_int 0) ''Int''),
      (''<rewards>'', KToken (str_of_int 0) ''Int''),
      (''<status>'', KToken (str_of_int 0) ''Int''),
      (''<key>'', KToken address ''String''),
      (''<appsCreated>'', cons_of (KConst ''.AppCellMap'') ''_AppCellMap_'' apps),
      (''<appsOptedIn>'', KConst ''.OptInAppCellMap''),
      (''<assetsCreated>'', KConst ''.AssetCellMap''),
      (''<assetsOptedIn>'', KConst ''.OptInAssetCellMap'')]"
    using n by (simp add: account_k_term_def c i b)
  then show ?thesis
    using laws(1) by (simp add: pyk_split_law_def dict_of_items_def cell_var_account)
qed

lemma flatten_cons_of:
  "list_all (\<lambda>t. label_name_of t \<noteq> Inr l) (u # ts) \<Longrightarrow> flatten_of l (cons_of u l ts) = ts @ [u]"
proof (induction ts)
  case Nil
  then show ?case by (cases u) auto
next
  case (Cons t ts)
  then have "flatten_of l t = [t]" by (cases t) auto
  with Cons show ?case by simp
qed

lemma created_apps_loop:
  assumes "list_all2 (\<lambda>t p. label_name_of t = Inr ''<app>'' \<and>
      bind_res (app_from_k_cell P S t address) (\<lambda>app. py_attr app ''params'') = Inr p) ts ps"
    and "label_name_of u = Inr l" and "l \<noteq> ''<app>''"
  shows "foldM_res (created_app_step P S address) (ts @ [u]) acc = Inr (acc @ ps)"
  using assms(1)
proof (induction ts ps arbitrary: acc rule: list_all2_induct)
  case Nil
  then show ?case using assms(2,3) by (simp add: created_app_step_def)
next
  case (Cons t ts p ps)
  then have "created_app_step P S address t acc = Inr (acc @ [p])"
    by (auto simp: created_app_step_def res_iff)
  with Cons show ?case by simp
qed

section \<open>Properties\<close>

lemma account_from_subst:
  assumes laws: "pyk_split_law P" "pyk_cell_law P" "pyk_list_law P" "pyk_token_law P"
  shows "account_from_k_cell P S (account_k_term P address amount terms) =
    map_res (\<lambda>apps. account_object S address amount apps address)
      (foldM_res (created_app_step P S address)
        (if terms = [] then [] else flatten_of ''_AppCellMap_''
           (cons_of (KConst ''.AppCellMap'') ''_AppCellMap_'' terms)) [])"
proof -
  have f: "flatten_label P l t = flatten_of l t" for l t
    using laws(3) by (simp add: pyk_list_law_def)
  show ?thesis
    by (cases terms) (simp_all add: account_from_k_cell_def account_subst [OF laws] subst_token_def
        subst_int_def subst_get_def f)
qed

lemma account_with_apps:
  assumes laws: "pyk_split_law P" "pyk_cell_law P" "pyk_list_law P" "pyk_token_law P"
    and apps: "list_all2 (\<lambda>t p. label_name_of t = Inr ''<app>'' \<and>
      bind_res (app_from_k_cell P S t address) (\<lambda>app. py_attr app ''params'') = Inr p) terms ps"
  shows "account_from_k_cell P S (account_k_term P address amount terms) =
    Inr (account_object S address amount ps address)"
proof (cases "terms = []")
  case True
  then show ?thesis using apps by (simp add: account_from_subst [OF laws])
next
  case False
  have "list_all (\<lambda>t. label_name_of t \<noteq> Inr ''_AppCellMap_'') (KConst ''.AppCellMap'' # terms)"
    using apps by (auto simp: list_all_iff list_all2_conv_all_nth in_set_conv_nth)
  then have "flatten_of ''_AppCellMap_'' (cons_of (KConst ''.AppCellMap'') ''_AppCellMap_'' terms) =
      terms @ [KConst ''.AppCellMap'']" by (rule flatten_cons_of)
  with False created_apps_loop [OF apps, of "KConst ''.AppCellMap''" "''.AppCellMap''" "[]"] show ?thesis
    by (simp add: account_from_subst [OF laws])
qed

text \<open>The arguments of one application's serialisation, and what they hold.\<close>

type_synonym app_args = "int \<times> pyval \<times> pyval \<times> pyval"

record app_content =
  global_uints :: int
  global_byteslices :: int
  local_uints :: int
  local_byteslices :: int
  state_bytes :: "(string \<times> string) list"
  state_ints :: "(string \<times> int) list"

definition app_args_ok :: "app_args \<Rightarrow> app_content \<Rightarrow> bool" where
  "app_args_ok a c = (case a of (i, gs, ls, st) \<Rightarrow>
     schema_numbers gs (global_uints c) (global_byteslices c) \<and>
     schema_numbers ls (local_uints c) (local_byteslices c) \<and>
     global_halves st (state_bytes c) (state_ints c))"

definition app_term :: "pyk \<Rightarrow> app_args \<Rightarrow> kinner res" where
  "app_term P a = (case a of (i, gs, ls, st) \<Rightarrow> application_k_term P i gs ls st)"

definition content_params :: "sdk \<Rightarrow> string \<Rightarrow> app_content \<Rightarrow> pyval" where
  "content_params S creator c = application_params S creator [] []
     (state_schema S (local_uints c) (local_byteslices c))
     (state_schema S (global_uints c) (global_byteslices c))
     (map (\<lambda>(k, i). int_entry S k i) (state_ints c) @ map (\<lambda>(k, v). bytes_entry S k v) (state_bytes c))"

text \<open>
  C13: an account serialised with the applications it created is parsed back with its address
  (also as the authorising address), its balance, and the parameters of every application in
  order; the unit that ends the list of applications is skipped.
\<close>

theorem account_round_trip:
  assumes "pyk_split_law P" and "pyk_cell_law P" and "pyk_list_law P" and "pyk_token_law P"
    and "sdk_attr_law S" and "list_all2 app_args_ok args contents"
  shows "bind_res (mapM_res (app_term P) args)
      (\<lambda>terms. account_from_k_cell P S (account_k_term P address amount terms)) =
    Inr (account_object S address amount (map (content_params S address) contents) address)"
proof -
  have attr: "py_attr (new_model S c kw) a = Inr v" if "dict_get kw a = Some v" for c kw a v
    using assms(5) that by (simp add: sdk_attr_law_def)
  have one: "\<exists>t. app_term P a = Inr t \<and> label_name_of t = Inr ''<app>'' \<and>
      bind_res (app_from_k_cell P S t address) (\<lambda>app. py_attr app ''params'') = Inr (content_params S address c)"
    if ok: "app_args_ok a c" for a c
  proof -
    obtain i gs ls st where a: "a = (i, gs, ls, st)" by (cases a)
    from ok [unfolded app_args_ok_def a prod.case]
      application_round_trip_aux [OF assms(1-3), of gs _ _ ls _ _ st _ _ i S address]
    show ?thesis
      by (fastforce simp: a app_term_def app_from_k_cell_def content_params_def attr)
  qed
  have "\<exists>terms. mapM_res (app_term P) args = Inr terms \<and>
      list_all2 (\<lambda>t p. label_name_of t = Inr ''<app>'' \<and>
        bind_res (app_from_k_cell P S t address) (\<lambda>app. py_attr app ''params'') = Inr p)
        terms (map (content_params S address) contents)"
    using assms(6)
  proof (induction rule: list_all2_induct)
    case Nil
    then show ?case by simp
  next
    case (Cons a as c cs)
    with one [OF Cons(1)] show ?case by auto
  qed
  then show ?thesis using account_with_apps [OF assms(1-4)] by auto
qed

theorem account_round_trip_witness:
  "bind_res (mapM_res (app_term ref_pyk) [(7, PNone, PNone, sample_state)])
     (\<lambda>terms. account_from_k_cell ref_pyk ref_sdk (account_k_term ref_pyk ''addr'' 1000 terms)) =
   Inr (account_object ref_sdk ''addr'' 1000
     [content_params ref_sdk ''addr'' \<lparr>global_uints = 0, global_byteslices = 0, local_uints = 0,
        local_byteslices = 0, state_bytes = [(''s'', ''x'')], state_ints = [(''n'', 5)]\<rparr>] ''addr'')"
  by (subst account_round_trip [OF ref_split_law ref_cell_law ref_list_law ref_token_law ref_attr_law,
      where contents = "[\<lparr>global_uints = 0, global_byteslices = 0, local_uints = 0,
        local_byteslices = 0, state_bytes = [(''s'', ''x'')], state_ints = [(''n'', 5)]\<rparr>]"])
    (simp_all add: app_args_ok_def no_schema sample_halves)

text \<open>
  The ids of created applications are computed only for account dictionaries without
  the key. The dictionaries the SDK produces hold a list (or \<open>None\<close>) there, which has no
  \<open>keys\<close>, and that exception is not the one that is caught.
\<close>

theorem created_ids_of_sdk_account:
  assumes "sdk_model_law S" and "attribute_map S ''KAVMAccount'' = account_attributes"
    and "dict_get kw ''created_apps'' = Some v" and "v = PNone \<or> (\<exists>xs. v = PList xs)"
  shows "sdk_account_created_app_ids (dictify S (new_model S ''KAVMAccount'' kw)) = Inl AttributeError"
proof -
  have "dict_get (dictify S (new_model S ''KAVMAccount'' kw)) ''created-apps'' = Some (dictify_value S v)"
    using assms(1-3) by (simp add: sdk_model_law_def account_attributes_def value_or_None_def)
  then show ?thesis
    using assms(4) by (auto simp: sdk_account_created_app_ids_def created_ids_def dictify_value_def dictify_elem_def)
qed

theorem created_ids_of_sdk_account_witness:
  "sdk_account_created_app_ids (dictify ref_sdk (new_model ref_sdk ''KAVMAccount'' [(''created_apps'', PList [])])) =
     Inl AttributeError"
  by (rule created_ids_of_sdk_account [OF ref_model_law, where v = "PList []"])
    (simp_all add: ref_sdk_def ref_attributes_def)

end
