(* ===== verification/Json.thy ===== *)
theory Json
  imports PyVal
begin

text \<open>
  Python's \<open>json\<close> module as far as the code uses it: \<open>dumps\<close> with the options \<open>indent\<close> and
  \<open>sort_keys\<close>, and \<open>loads\<close>. Floating-point numbers and escapes beyond code point 255 have no
  value in the model: reading one is an error of its own.
\<close>

section \<open>Writing\<close>

text \<open>What the encoder accepts; keys are text throughout the model.\<close>

fun json_ok :: "pyval \<Rightarrow> bool" where
  "json_ok PNone = True"
| "json_ok (PBool b) = True"
| "json_ok (PInt i) = True"
| "json_ok (PStr s) = True"
| "json_ok (PList xs) = list_all json_ok xs"
| "json_ok (PDict d) = list_all (\<lambda>(k, v). json_ok v) d"
| "json_ok _ = False"

definition escape_char :: "char \<Rightarrow> string" where
  "escape_char c = (let n = code_point c in
     if n = 34 \<or> n = 92 then [CHR 0x5C, c]
     else if n = 10 then [CHR 0x5C, CHR ''n'']
     else if n = 13 then [CHR 0x5C, CHR ''r'']
     else if n = 9 then [CHR 0x5C, CHR ''t'']
     else if n = 12 then [CHR 0x5C, CHR ''f'']
     else if n = 8 then [CHR 0x5C, CHR ''b'']
     else if n < 32 \<or> 126 < n
     then [CHR 0x5C, CHR ''u'', CHR ''0'', CHR ''0'', hex_digit (n div 16), hex_digit (n mod 16)]
     else [c])"

definition json_string :: "string \<Rightarrow> string" where
  "json_string s = [CHR 0x22] @ concat (map escape_char s) @ [CHR 0x22]"

record layout =
  indent :: "nat option"
  sort_keys :: bool

definition newline :: "layout \<Rightarrow> nat \<Rightarrow> string" where
  "newline L level = (case indent L of None \<Rightarrow> []
     | Some n \<Rightarrow> CHR 0x0A # replicate (n * level) (CHR '' ''))"

definition item_sep :: "layout \<Rightarrow> nat \<Rightarrow> string" where
  "item_sep L level = (case indent L of None \<Rightarrow> '', '' | Some n \<Rightarrow> '','' @ newline L level)"

definition key_text :: "string \<times> string \<Rightarrow> string" where
  "key_text p = json_string (fst p) @ '': '' @ snd p"

definition bracket :: "layout \<Rightarrow> nat \<Rightarrow> string \<Rightarrow> string \<Rightarrow> string list \<Rightarrow> string" where
  "bracket L level open close items =
     (if items = [] then open @ close
      else open @ newline L (Suc level) @ join_with (item_sep L (Suc level)) items
        @ newline L level @ close)"

fun json_text :: "layout \<Rightarrow> nat \<Rightarrow> pyval \<Rightarrow> string" where
  "json_text L n PNone = ''null''"
| "json_text L n (PBool b) = (if b then ''true'' else ''false'')"
| "json_text L n (PInt i) = str_of_int i"
| "json_text L n (PStr s) = json_string s"
| "json_text L n (PList xs) = bracket L n ''['' '']'' (map (json_text L (Suc n)) xs)"
| "json_text L n (PDict d) = bracket L n ''{'' ''}'' (map key_text
     ((if sort_keys L then sorted_items else id) (map (\<lambda>(k, v). (k, json_text L (Suc n) v)) d)))"
| "json_text L n _ = []"

definition json_dumps :: "layout \<Rightarrow> pyval \<Rightarrow> string res" where
  "json_dumps L v = (if json_ok v then Inr (json_text L 0 v) else Inl TypeError)"

definition default_layout :: layout where
  "default_layout = \<lparr>indent = None, sort_keys = False\<rparr>"

section \<open>Reading\<close>

definition is_ws :: "char \<Rightarrow> bool" where
  "is_ws c \<longleftrightarrow> code_point c \<in> {9, 10, 13, 32}"

definition skip_ws :: "string \<Rightarrow> string" where
  "skip_ws s = dropWhile is_ws s"

definition hex_value :: "char \<Rightarrow> nat option" where
  "hex_value c = (let n = code_point c in
     if 48 \<le> n \<and> n \<le> 57 then Some (n - 48)
     else if 97 \<le> n \<and> n \<le> 102 then Some (n - 87)
     else if 65 \<le> n \<and> n \<le> 70 then Some (n - 55) else None)"

definition unicode_escape :: "string \<Rightarrow> char res" where
  "unicode_escape hs = (case map hex_value hs of
       [Some a, Some b, Some c, Some d] \<Rightarrow>
         if a = 0 \<and> b = 0 then Inr (char_of (16 * c + d))
         else Inl (OtherException ''code point beyond the model'')
     | _ \<Rightarrow> Inl JSONDecodeError)"

definition simple_escape :: "char \<Rightarrow> char option" where
  "simple_escape e =
     (if e \<in> {CHR 0x22, CHR 0x5C, CHR 0x2F} then Some e
      else if e = CHR ''b'' then Some (CHR 0x08)
      else if e = CHR ''f'' then Some (CHR 0x0C)
      else if e = CHR ''n'' then Some (CHR 0x0A)
      else if e = CHR ''r'' then Some (CHR 0x0D)
      else if e = CHR ''t'' then Some (CHR 0x09) else None)"

text \<open>The rest of a string, after its opening quote.\<close>

fun parse_string :: "string \<Rightarrow> (string \<times> string) res" where
  "parse_string [] = Inl JSONDecodeError"
| "parse_string (c # cs) =
     (if c = CHR 0x22 then Inr ([], cs)
      else if c = CHR 0x5C then
        (case cs of
           [] \<Rightarrow> Inl JSONDecodeError
         | e # es \<Rightarrow>
             if e = CHR ''u'' then
               bind_res (unicode_escape (take 4 es)) (\<lambda>x.
                 map_res (\<lambda>(s, rest). (x # s, rest)) (parse_string (drop 4 es)))
             else bind_res (of_option JSONDecodeError (simple_escape e)) (\<lambda>x.
                 map_res (\<lambda>(s, rest). (x # s, rest)) (parse_string es)))
      else if code_point c < 32 then Inl JSONDecodeError
      else map_res (\<lambda>(s, rest). (c # s, rest)) (parse_string cs))"

definition starts_digit :: "string \<Rightarrow> bool" where
  "starts_digit s = (case s of [] \<Rightarrow> False | c # _ \<Rightarrow> is_digit c)"

definition float_tail :: "string \<Rightarrow> bool" where
  "float_tail s = (case s of
       [] \<Rightarrow> False
     | c # cs \<Rightarrow> (c = CHR ''.'' \<and> starts_digit cs) \<or>
         ((c = CHR ''e'' \<or> c = CHR ''E'') \<and>
          (starts_digit cs \<or> (case cs of [] \<Rightarrow> False
             | g # ds \<Rightarrow> (g = CHR ''+'' \<or> g = CHR ''-'') \<and> starts_digit ds))))"

text \<open>An integer's digits: a zero alone, or all digits that follow.\<close>

definition parse_nat :: "string \<Rightarrow> (nat \<times> string) res" where
  "parse_nat s =
     (if starts_digit s then
        (let ds = (if hd s = CHR ''0'' then [hd s] else takeWhile is_digit s);
             rest = drop (length ds) s
         in if float_tail rest then Inl (OtherException ''floats are not modelled'')
            else of_option JSONDecodeError (map_option (\<lambda>n. (n, rest)) (digits_value 0 False ds)))
      else Inl JSONDecodeError)"

definition parse_int :: "string \<Rightarrow> (pyval \<times> string) res" where
  "parse_int s = (case s of
       [] \<Rightarrow> Inl JSONDecodeError
     | c # cs \<Rightarrow>
         if c = CHR ''-'' then map_res (\<lambda>(n, rest). (PInt (- int n), rest)) (parse_nat cs)
         else map_res (\<lambda>(n, rest). (PInt (int n), rest)) (parse_nat s))"

text \<open>The constants; the three spellings of non-finite floats are read as floats.\<close>

definition parse_const :: "string \<Rightarrow> (pyval \<times> string) res" where
  "parse_const s =
     (if starts_with ''null'' s then Inr (PNone, drop 4 s)
      else if starts_with ''true'' s then Inr (PBool True, drop 4 s)
      else if starts_with ''false'' s then Inr (PBool False, drop 5 s)
      else if starts_with ''NaN'' s \<or> starts_with ''Infinity'' s \<or> starts_with ''-Infinity'' s
      then Inl (OtherException ''floats are not modelled'')
      else parse_int s)"

text \<open>
  The recursive descent. Two calls read at least one character, so twice the length of the text
  bounds the depth: \<open>json_loads\<close> starts with that much fuel, and \<open>json_loads_total\<close> shows that
  it is enough for every text.
\<close>

fun parse_value :: "nat \<Rightarrow> string \<Rightarrow> (pyval \<times> string) res"
  and parse_items :: "nat \<Rightarrow> string \<Rightarrow> (pyval list \<times> string) res"
  and parse_pairs :: "nat \<Rightarrow> string \<Rightarrow> ((string \<times> pyval) list \<times> string) res"
where
  "parse_value 0 s = Inl (OtherException ''out of fuel'')"
| "parse_value (Suc n) s = (case s of
       [] \<Rightarrow> Inl JSONDecodeError
     | c # cs \<Rightarrow>
         if c = CHR 0x22 then map_res (\<lambda>(t, rest). (PStr t, rest)) (parse_string cs)
         else if c = CHR ''['' then
           (case skip_ws cs of
              [] \<Rightarrow> Inl JSONDecodeError
            | d # ds \<Rightarrow> if d = CHR '']'' then Inr (PList [], ds)
                else map_res (\<lambda>(xs, rest). (PList xs, rest)) (parse_items n (d # ds)))
         else if c = CHR ''{'' then
           (case skip_ws cs of
              [] \<Rightarrow> Inl JSONDecodeError
            | d # ds \<Rightarrow> if d = CHR ''}'' then Inr (PDict [], ds)
                else map_res (\<lambda>(ps, rest). (PDict (dict_of_items ps), rest)) (parse_pairs n (d # ds)))
         else parse_const s)"
| "parse_items 0 s = Inl (OtherException ''out of fuel'')"
| "parse_items (Suc n) s =
     bind_res (parse_value n s) (\<lambda>(x, rest).
       (case skip_ws rest of
          [] \<Rightarrow> Inl JSONDecodeError
        | d # ds \<Rightarrow>
            if d = CHR '']'' then Inr ([x], ds)
            else if d = CHR '','' then
              map_res (\<lambda>(xs, rest'). (x # xs, rest')) (parse_items n (skip_ws ds))
            else Inl JSONDecodeError))"
| "parse_pairs 0 s = Inl (OtherException ''out of fuel'')"
| "parse_pairs (Suc n) s = (case s of
       [] \<Rightarrow> Inl JSONDecodeError
     | c # cs \<Rightarrow>
         if c \<noteq> CHR 0x22 then Inl JSONDecodeError
         else bind_res (parse_string cs) (\<lambda>(k, after_key).
           (case skip_ws after_key of
              [] \<Rightarrow> Inl JSONDecodeError
            | e # es \<Rightarrow>
                if e \<noteq> CHR '':'' then Inl JSONDecodeError
                else bind_res (parse_value n (skip_ws es)) (\<lambda>(v, rest).
                  (case skip_ws rest of
                     [] \<Rightarrow> Inl JSONDecodeError
                   | d # ds \<Rightarrow>
                       if d = CHR ''}'' then Inr ([(k, v)], ds)
                       else if d = CHR '','' then
                         map_res (\<lambda>(ps, rest'). ((k, v) # ps, rest')) (parse_pairs n (skip_ws ds))
                       else Inl JSONDecodeError)))))"

definition json_loads :: "string \<Rightarrow> pyval res" where
  "json_loads s =
     bind_res (parse_value (Suc (2 * length s)) (skip_ws s)) (\<lambda>(v, rest).
       if skip_ws rest = [] then Inr v else Inl JSONDecodeError)"

section \<open>Reading back what was written\<close>

subsection \<open>Strings and numbers\<close>

lemma hex_value_digit [simp]: "k < 16 \<Longrightarrow> hex_value (hex_digit k) = Some k"
  by (auto simp: hex_value_def hex_digit_def Let_def)

lemma code_point_special:
  "code_point c = 34 \<longleftrightarrow> c = CHR 0x22"
  "code_point c = 92 \<longleftrightarrow> c = CHR 0x5C"
  "code_point c = 10 \<longleftrightarrow> c = CHR 0x0A"
  "code_point c = 13 \<longleftrightarrow> c = CHR 0x0D"
  "code_point c = 9 \<longleftrightarrow> c = CHR 0x09"
  "code_point c = 12 \<longleftrightarrow> c = CHR 0x0C"
  "code_point c = 8 \<longleftrightarrow> c = CHR 0x08"
proof -
  have eq: "code_point c = n \<longleftrightarrow> c = char_of n" if "n < 256" for n
    using that by auto
  show "code_point c = 34 \<longleftrightarrow> c = CHR 0x22" "code_point c = 92 \<longleftrightarrow> c = CHR 0x5C"
    "code_point c = 10 \<longleftrightarrow> c = CHR 0x0A" "code_point c = 13 \<longleftrightarrow> c = CHR 0x0D"
    "code_point c = 9 \<longleftrightarrow> c = CHR 0x09" "code_point c = 12 \<longleftrightarrow> c = CHR 0x0C"
    "code_point c = 8 \<longleftrightarrow> c = CHR 0x08"
    by (simp_all add: eq char_of_def)
qed

lemma simple_escapes:
  "parse_string (CHR 0x5C # CHR 0x22 # s) = map_res (\<lambda>(t, rest). (CHR 0x22 # t, rest)) (parse_string s)"
  "parse_string (CHR 0x5C # CHR 0x5C # s) = map_res (\<lambda>(t, rest). (CHR 0x5C # t, rest)) (parse_string s)"
  "parse_string (CHR 0x5C # CHR ''n'' # s) = map_res (\<lambda>(t, rest). (CHR 0x0A # t, rest)) (parse_string s)"
  "parse_string (CHR 0x5C # CHR ''r'' # s) = map_res (\<lambda>(t, rest). (CHR 0x0D # t, rest)) (parse_string s)"
  "parse_string (CHR 0x5C # CHR ''t'' # s) = map_res (\<lambda>(t, rest). (CHR 0x09 # t, rest)) (parse_string s)"
  "parse_string (CHR 0x5C # CHR ''f'' # s) = map_res (\<lambda>(t, rest). (CHR 0x0C # t, rest)) (parse_string s)"
  "parse_string (CHR 0x5C # CHR ''b'' # s) = map_res (\<lambda>(t, rest). (CHR 0x08 # t, rest)) (parse_string s)"
  by (simp_all add: simple_escape_def)

lemma parse_escaped_char:
  "parse_string (escape_char c @ s) = map_res (\<lambda>(t, rest). (c # t, rest)) (parse_string s)"
proof -
  let ?special = "{CHR 0x22, CHR 0x5C, CHR 0x0A, CHR 0x0D, CHR 0x09, CHR 0x0C, CHR 0x08}"
  consider "c \<in> ?special" | "c \<notin> ?special" "code_point c < 32 \<or> 126 < code_point c"
    | "c \<notin> ?special" "32 \<le> code_point c" "code_point c \<le> 126"
    by fastforce
  then show ?thesis
  proof cases
    case 1
    then show ?thesis
      by (auto simp: escape_char_def Let_def code_point_special simple_escapes
          simp del: parse_string.simps)
  next
    case 2
    have b: "code_point c div 16 < 16"
      using code_point_less_256 [of c] by (simp add: less_mult_imp_div_less)
    have v: "unicode_escape [CHR ''0'', CHR ''0'', hex_digit (code_point c div 16),
        hex_digit (code_point c mod 16)] = Inr c"
      using b by (simp add: unicode_escape_def hex_value_def [of "CHR ''0''"] code_point_def [of "CHR ''0''"])
    have "escape_char c = [CHR 0x5C, CHR ''u'', CHR ''0'', CHR ''0'',
        hex_digit (code_point c div 16), hex_digit (code_point c mod 16)]"
      using 2 by (simp add: escape_char_def Let_def code_point_special)
    then show ?thesis by (simp add: v)
  next
    case 3
    then have "escape_char c = [c]" by (simp add: escape_char_def Let_def code_point_special)
    with 3 show ?thesis by simp
  qed
qed

lemma parse_escaped_string:
  "parse_string (concat (map escape_char s) @ CHR 0x22 # rest) = Inr (s, rest)"
  by (induction s) (simp_all add: parse_escaped_char)

definition delimiter :: "string \<Rightarrow> bool" where
  "delimiter s \<longleftrightarrow> s = [] \<or> hd s \<in> {CHR '','', CHR '']'', CHR ''}''} \<or> is_ws (hd s)"

lemma delimiter_not_number:
  "delimiter s \<Longrightarrow> \<not> starts_digit s \<and> \<not> float_tail s"
  by (cases s) (auto simp: delimiter_def starts_digit_def float_tail_def is_ws_def is_digit_def code_point_def)

lemma nat_digits_hd: "hd (nat_digits n) = CHR ''0'' \<longleftrightarrow> n = 0"
proof (induction n rule: nat_digits.induct)
  case (1 n)
  show ?case
  proof (cases "n < 10")
    case True
    have "char_of (48 + n) = CHR ''0'' \<longleftrightarrow> code_point (char_of (48 + n)) = code_point (CHR ''0'')"
      by (metis char_of_code_point)
    then show ?thesis using True by (subst nat_digits.simps) (simp add: code_point_def [of "CHR ''0''"])
  next
    case False
    then have "hd (nat_digits n) = hd (nat_digits (n div 10))"
      by (subst nat_digits.simps) simp
    with False "1.IH" show ?thesis by simp
  qed
qed

lemma nat_digits_0: "nat_digits 0 = [CHR ''0'']"
  by (simp add: nat_digits.simps char_of_def)

lemma parse_nat_digits: "delimiter rest \<Longrightarrow> parse_nat (nat_digits n @ rest) = Inr (n, rest)"
proof -
  assume d: "delimiter rest"
  have all: "list_all is_digit (nat_digits n)" by (rule nat_digits_all)
  then have hd: "starts_digit (nat_digits n @ rest)"
    by (cases "nat_digits n") (simp_all add: starts_digit_def)
  have take: "takeWhile is_digit (nat_digits n @ rest) = nat_digits n"
    using all delimiter_not_number [OF d]
    by (subst takeWhile_append2) (auto simp: list_all_iff starts_digit_def takeWhile_eq_Nil_iff split: list.splits)
  have "(if hd (nat_digits n @ rest) = CHR ''0'' then [hd (nat_digits n @ rest)]
      else takeWhile is_digit (nat_digits n @ rest)) = nat_digits n"
    using nat_digits_hd [of n] take by (auto simp: nat_digits_0)
  then show ?thesis
    using hd delimiter_not_number [OF d] by (simp add: parse_nat_def Let_def digits_value_nat_digits)
qed

lemma parse_const_int: "delimiter rest \<Longrightarrow> parse_const (str_of_int i @ rest) = Inr (PInt i, rest)"
proof -
  assume d: "delimiter rest"
  obtain c cs where n: "nat_digits (nat \<bar>i\<bar>) = c # cs" by (cases "nat_digits (nat \<bar>i\<bar>)") auto
  then have c: "is_digit c" using nat_digits_all [of "nat \<bar>i\<bar>"] by simp
  then have nc: "c \<noteq> CHR ''-''" "c \<noteq> CHR ''n''" "c \<noteq> CHR ''t''" "c \<noteq> CHR ''f''" "c \<noteq> CHR ''N''" "c \<noteq> CHR ''I''"
    by (auto simp: is_digit_def code_point_def)
  have p: "parse_nat ((c # cs) @ rest) = Inr (nat \<bar>i\<bar>, rest)"
    using parse_nat_digits [OF d, of "nat \<bar>i\<bar>"] n by simp
  show ?thesis
  proof (cases "i < 0")
    case True
    then have "str_of_int i = CHR ''-'' # c # cs" using n by (simp add: str_of_int_def)
    with True p nc show ?thesis by (simp add: parse_const_def parse_int_def)
  next
    case False
    then have "str_of_int i = c # cs" using n by (simp add: str_of_int_def)
    with False p nc show ?thesis by (simp add: parse_const_def parse_int_def)
  qed
qed

subsection \<open>Lists and dictionaries\<close>

definition all_ws :: "string \<Rightarrow> bool" where
  "all_ws w \<longleftrightarrow> list_all is_ws w"

lemma skip_ws_append: "all_ws w \<Longrightarrow> skip_ws (w @ s) = skip_ws s"
  by (induction w) (auto simp: all_ws_def skip_ws_def)

lemma skip_ws_id: "s \<noteq> [] \<Longrightarrow> \<not> is_ws (hd s) \<Longrightarrow> skip_ws (s @ t) = s @ t"
  by (cases s) (auto simp: skip_ws_def)

lemma skip_ws_Cons [simp]: "\<not> is_ws c \<Longrightarrow> skip_ws (c # s) = c # s"
  by (simp add: skip_ws_def)

lemma is_ws_simps [simp]:
  "\<not> is_ws CHR '','' " "\<not> is_ws CHR '']'' " "\<not> is_ws CHR ''}'' " "\<not> is_ws CHR '':'' "
  "\<not> is_ws CHR ''['' " "\<not> is_ws CHR ''{'' " "\<not> is_ws CHR 0x22" "is_ws CHR '' '' " "is_ws CHR 0x0A"
  by (simp_all add: is_ws_def code_point_def)

lemma delimiter_simps [simp]:
  "delimiter []" "delimiter (CHR '','' # s)" "delimiter (CHR '']'' # s)" "delimiter (CHR ''}'' # s)"
  by (simp_all add: delimiter_def)

lemma delimiter_ws: "all_ws w \<Longrightarrow> delimiter s \<Longrightarrow> delimiter (w @ s)"
  by (cases w) (auto simp: delimiter_def all_ws_def)

text \<open>A text the parser reads as a value: not empty, no white space or closing bracket in front.\<close>

definition value_text :: "string \<Rightarrow> bool" where
  "value_text t \<longleftrightarrow> t \<noteq> [] \<and> \<not> is_ws (hd t) \<and> hd t \<noteq> CHR '']''"

definition parses_to :: "string \<Rightarrow> pyval \<Rightarrow> bool" where
  "parses_to t v \<longleftrightarrow> value_text t \<and>
     (\<forall>f rest. length t \<le> f \<longrightarrow> delimiter rest \<longrightarrow> parse_value f (t @ rest) = Inr (v, rest))"

lemma parses_toD:
  "parses_to t v \<Longrightarrow> length t \<le> f \<Longrightarrow> delimiter rest \<Longrightarrow> parse_value f (t @ rest) = Inr (v, rest)"
  by (simp add: parses_to_def)

lemma parse_items_join:
  assumes "list_all2 parses_to ts vs" and "ts \<noteq> []" and "all_ws w" and "all_ws w2"
    and "length (join_with (CHR '','' # w) ts) < f"
  shows "parse_items f (join_with (CHR '','' # w) ts @ w2 @ CHR '']'' # rest) = Inr (vs, rest)"
  using assms(1,2,5)
proof (induction ts arbitrary: vs f)
  case Nil
  then show ?case by simp
next
  case (Cons t ts)
  then obtain v us where vs: "vs = v # us" and p: "parses_to t v" and ps: "list_all2 parses_to ts us"
    by (auto simp: list_all2_Cons1)
  obtain n where f: "f = Suc n" using Cons.prems(3) by (cases f) auto
  show ?case
  proof (cases ts)
    case Nil
    then have "parse_value n (t @ w2 @ CHR '']'' # rest) = Inr (v, w2 @ CHR '']'' # rest)"
      using Cons.prems(3) f assms(4) by (intro parses_toD [OF p]) (auto intro: delimiter_ws)
    with Nil f vs ps assms(4) show ?thesis by (simp add: skip_ws_append)
  next
    case (Cons t' ts')
    let ?r = "join_with (CHR '','' # w) ts @ w2 @ CHR '']'' # rest"
    have v: "parse_value n (t @ CHR '','' # w @ ?r) = Inr (v, CHR '','' # w @ ?r)"
      using Cons.prems(3) f Cons by (intro parses_toD [OF p]) auto
    have "value_text t'" using ps Cons by (auto simp: list_all2_Cons1 parses_to_def)
    then have "skip_ws (w @ ?r) = ?r"
      using assms(3) Cons by (cases ts') (simp_all add: skip_ws_append skip_ws_id value_text_def)
    moreover have "parse_items n ?r = Inr (us, rest)"
      using Cons.prems(3) f Cons by (intro Cons.IH ps) auto
    ultimately show ?thesis using f vs v Cons by simp
  qed
qed

definition parses_pair :: "string \<times> string \<Rightarrow> string \<times> pyval \<Rightarrow> bool" where
  "parses_pair p kv \<longleftrightarrow> fst p = fst kv \<and> parses_to (snd p) (snd kv)"

lemma parse_key:
  "parse_string (concat (map escape_char k) @ CHR 0x22 # rest) = Inr (k, rest)"
  by (rule parse_escaped_string)

lemma parse_pairs_key:
  assumes "skip_ws (s @ r) = s @ r" and "parse_value n (s @ r) = Inr (v, r)"
  shows "parse_pairs (Suc n) (key_text (k, s) @ r) =
    (case skip_ws r of
       [] \<Rightarrow> Inl JSONDecodeError
     | d # ds \<Rightarrow>
         if d = CHR ''}'' then Inr ([(k, v)], ds)
         else if d = CHR '','' then
           map_res (\<lambda>(ps, rest'). ((k, v) # ps, rest')) (parse_pairs n (skip_ws ds))
         else Inl JSONDecodeError)"
  using assms skip_ws_append [of "'' ''" "s @ r"]
  by (simp add: key_text_def json_string_def parse_key all_ws_def)

lemma parse_pairs_join:
  assumes "list_all2 parses_pair ts vs" and "ts \<noteq> []" and "all_ws w" and "all_ws w2"
    and "length (join_with (CHR '','' # w) (map key_text ts)) < f"
  shows "parse_pairs f (join_with (CHR '','' # w) (map key_text ts) @ w2 @ CHR ''}'' # rest) =
    Inr (vs, rest)"
  using assms(1,2,5)
proof (induction ts arbitrary: vs f)
  case Nil
  then show ?case by simp
next
  case (Cons t ts)
  obtain k s where t: "t = (k, s)" by (cases t)
  from Cons.prems(1) obtain kv us where kv: "vs = kv # us" "parses_pair t kv"
    and ps: "list_all2 parses_pair ts us"
    by (auto simp: list_all2_Cons1)
  then obtain v where vs: "vs = (k, v) # us" and p: "parses_to s v"
    using t by (cases kv) (auto simp: parses_pair_def)
  obtain n where f: "f = Suc n" using Cons.prems(3) by (cases f) auto
  have ws: "skip_ws (s @ r) = s @ r" for r
    using p by (auto simp: parses_to_def value_text_def skip_ws_id)
  show ?case
  proof (cases ts)
    case Nil
    then have "parse_value n (s @ w2 @ CHR ''}'' # rest) = Inr (v, w2 @ CHR ''}'' # rest)"
      using Cons.prems(3) f t assms(4)
      by (intro parses_toD [OF p]) (auto simp: key_text_def intro: delimiter_ws)
    from parse_pairs_key [OF ws this] show ?thesis
      using Nil f vs ps t assms(4) by (simp add: skip_ws_append del: parse_pairs.simps)
  next
    case (Cons t' ts')
    let ?r = "join_with (CHR '','' # w) (map key_text ts) @ w2 @ CHR ''}'' # rest"
    have v: "parse_value n (s @ CHR '','' # w @ ?r) = Inr (v, CHR '','' # w @ ?r)"
      using Cons.prems(3) f Cons t by (intro parses_toD [OF p]) (auto simp: key_text_def)
    have "skip_ws (w @ ?r) = ?r"
      using assms(3) Cons by (cases ts') (simp_all add: skip_ws_append key_text_def json_string_def)
    moreover have "parse_pairs n ?r = Inr (us, rest)"
      using Cons.prems(3) f Cons t by (intro Cons.IH ps) auto
    ultimately show ?thesis using parse_pairs_key [OF ws v, of k] f vs Cons t
      by (simp del: parse_pairs.simps)
  qed
qed

subsection \<open>Values\<close>

text \<open>Every dictionary inside has distinct keys, as Python's have.\<close>

fun wf_val :: "pyval \<Rightarrow> bool" where
  "wf_val (PList xs) = list_all wf_val xs"
| "wf_val (PDict d) = (wf_dict d \<and> list_all (\<lambda>(k, v). wf_val v) d)"
| "wf_val _ = True"

fun deep_sort :: "pyval \<Rightarrow> pyval" where
  "deep_sort (PList xs) = PList (map deep_sort xs)"
| "deep_sort (PDict d) = PDict (sorted_items (map (\<lambda>(k, v). (k, deep_sort v)) d))"
| "deep_sort v = v"

lemma newline_ws [simp]: "all_ws (newline L n)"
  by (auto simp: newline_def all_ws_def list_all_iff split: option.splits)

definition sep_ws :: "layout \<Rightarrow> nat \<Rightarrow> string" where
  "sep_ws L n = (case indent L of None \<Rightarrow> '' '' | Some _ \<Rightarrow> newline L n)"

lemma item_sep_ws: "item_sep L n = CHR '','' # sep_ws L n"
  by (simp add: item_sep_def sep_ws_def split: option.splits)

lemma sep_ws_ws [simp]: "all_ws (sep_ws L n)"
  by (simp add: sep_ws_def all_ws_def split: option.splits) (metis all_ws_def newline_ws)

lemma join_value_text:
  "ts \<noteq> [] \<Longrightarrow> value_text (hd ts) \<Longrightarrow> value_text (join_with sep ts) \<and> hd (join_with sep ts) = hd (hd ts)"
  by (cases "(sep, ts)" rule: join_with.cases) (auto simp: value_text_def)

lemma parse_value_const:
  assumes "t \<noteq> []" and "hd t \<notin> {CHR 0x22, CHR ''['', CHR ''{''}"
  shows "parse_value (Suc f) (t @ s) = parse_const (t @ s)"
  using assms by (cases t) auto

lemma const_parses_to:
  assumes "t \<noteq> []" and "hd t \<notin> {CHR 0x22, CHR ''['', CHR ''{'', CHR '']''}" and "\<not> is_ws (hd t)"
    and "\<And>rest. delimiter rest \<Longrightarrow> parse_const (t @ rest) = Inr (v, rest)"
  shows "parses_to t v"
  unfolding parses_to_def value_text_def
proof (intro conjI allI impI)
  fix f rest assume "length t \<le> f" and d: "delimiter rest"
  then obtain n where "f = Suc n" using assms(1) by (cases f) auto
  then show "parse_value f (t @ rest) = Inr (v, rest)"
    using assms d by (simp add: parse_value_const del: parse_value.simps)
qed (use assms in auto)

lemma str_of_int_hd:
  "str_of_int i \<noteq> [] \<and> hd (str_of_int i) \<notin> {CHR 0x22, CHR ''['', CHR ''{'', CHR '']'', CHR ''}''} \<and>
     \<not> is_ws (hd (str_of_int i))"
proof -
  have "is_digit (hd (nat_digits n))" for n
    using nat_digits_all [of n] by (cases "nat_digits n") auto
  moreover have "c \<notin> {CHR 0x22, CHR ''['', CHR ''{'', CHR '']'', CHR ''}''} \<and> \<not> is_ws c"
    if "is_digit c \<or> c = CHR ''-''" for c
    using that by (auto simp: is_digit_def is_ws_def code_point_def)
  ultimately show ?thesis by (simp add: str_of_int_def)
qed

lemma list_parses_to:
  assumes "list_all2 parses_to ts vs"
  shows "parses_to (bracket L n ''['' '']'' ts) (PList vs)"
proof (cases "ts = []")
  case True
  then have "parse_value f (''[]'' @ rest) = Inr (PList vs, rest)" if "2 \<le> f" for f rest
    using that assms by (cases f) (auto simp: skip_ws_def)
  with True show ?thesis by (simp add: parses_to_def value_text_def bracket_def)
next
  case False
  let ?w = "sep_ws L (Suc n)" and ?w1 = "newline L (Suc n)" and ?w2 = "newline L n"
  let ?b = "join_with (CHR '','' # ?w) ts"
  have hd: "value_text (hd ts)"
    using assms False by (cases ts) (auto simp: list_all2_Cons1 parses_to_def)
  have b: "value_text ?b" "hd ?b = hd (hd ts)" using join_value_text [OF False hd] by auto
  show ?thesis
    unfolding parses_to_def
  proof (intro conjI allI impI)
    show "value_text (bracket L n ''['' '']'' ts)" using False by (simp add: bracket_def value_text_def)
    fix f rest assume f: "length (bracket L n ''['' '']'' ts) \<le> f"
    then obtain m where m: "f = Suc m" using False by (cases f) (auto simp: bracket_def)
    have "parse_items m (?b @ ?w2 @ CHR '']'' # rest) = Inr (vs, rest)"
      using assms False f m by (intro parse_items_join) (auto simp: bracket_def item_sep_ws)
    moreover obtain c cs where "?b = c # cs" "\<not> is_ws c" "c \<noteq> CHR '']''"
      using b by (cases ?b) (auto simp: value_text_def)
    ultimately show "parse_value f (bracket L n ''['' '']'' ts @ rest) = Inr (PList vs, rest)"
      using False m by (simp add: bracket_def item_sep_ws skip_ws_append)
  qed
qed

lemma dict_parses_to:
  assumes "list_all2 parses_pair ts vs" and "wf_dict vs"
  shows "parses_to (bracket L n ''{'' ''}'' (map key_text ts)) (PDict vs)"
proof (cases "ts = []")
  case True
  then have "parse_value f (''{}'' @ rest) = Inr (PDict vs, rest)" if "2 \<le> f" for f rest
    using that assms by (cases f) (auto simp: skip_ws_def)
  with True show ?thesis by (simp add: parses_to_def value_text_def bracket_def)
next
  case False
  let ?w = "sep_ws L (Suc n)" and ?w2 = "newline L n"
  let ?b = "join_with (CHR '','' # ?w) (map key_text ts)"
  have hd: "hd (map key_text ts) \<noteq> [] \<and> hd (hd (map key_text ts)) = CHR 0x22"
    using False by (cases ts) (auto simp: key_text_def json_string_def)
  then have "value_text (hd (map key_text ts))" by (simp add: value_text_def)
  then have b: "value_text ?b" "hd ?b = CHR 0x22"
    using join_value_text [of "map key_text ts"] False hd by auto
  show ?thesis
    unfolding parses_to_def
  proof (intro conjI allI impI)
    show "value_text (bracket L n ''{'' ''}'' (map key_text ts))"
      using False by (simp add: bracket_def value_text_def)
    fix f rest assume f: "length (bracket L n ''{'' ''}'' (map key_text ts)) \<le> f"
    then obtain m where m: "f = Suc m" using False by (cases f) (auto simp: bracket_def)
    have "parse_pairs m (?b @ ?w2 @ CHR ''}'' # rest) = Inr (vs, rest)"
      using assms False f m by (intro parse_pairs_join) (auto simp: bracket_def item_sep_ws)
    moreover obtain cs where "?b = CHR 0x22 # cs"
      using b by (cases ?b) (auto simp: value_text_def)
    ultimately show "parse_value f (bracket L n ''{'' ''}'' (map key_text ts) @ rest) = Inr (PDict vs, rest)"
      using False m dict_of_items_distinct [OF assms(2)]
      by (simp add: bracket_def item_sep_ws skip_ws_append)
  qed
qed

lemma string_parses_to: "parses_to (json_string s) (PStr s)"
  unfolding parses_to_def value_text_def
proof (intro conjI allI impI)
  fix f rest assume "length (json_string s) \<le> f"
  then obtain n where "f = Suc n" by (cases f) (auto simp: json_string_def)
  then show "parse_value f (json_string s @ rest) = Inr (PStr s, rest)"
    by (simp add: json_string_def parse_escaped_string)
qed (simp_all add: json_string_def)

lemma json_text_parses:
  "json_ok v \<Longrightarrow> wf_val v \<Longrightarrow> \<not> sort_keys L \<Longrightarrow> parses_to (json_text L n v) v"
proof (induction v arbitrary: n)
  case PNone
  show ?case by (rule const_parses_to) (simp_all add: parse_const_def is_ws_def code_point_def)
next
  case (PBool b)
  show ?case by (rule const_parses_to) (auto simp: parse_const_def is_ws_def code_point_def)
next
  case (PInt i)
  show ?case using str_of_int_hd [of i] by (intro const_parses_to) (auto simp: parse_const_int)
next
  case (PStr s)
  show ?case by (simp add: string_parses_to)
next
  case (PList vs)
  then have "list_all2 parses_to (map (json_text L (Suc n)) vs) vs"
    by (auto simp: list_all2_conv_all_nth list_all_iff)
  then show ?case using list_parses_to by simp
next
  case (PDict d)
  have "parses_pair (k, json_text L (Suc n) v) (k, v)" if "(k, v) \<in> set d" for k v
    using PDict.IH [of "(k, v)" v "Suc n"] PDict.prems that
    by (fastforce simp: parses_pair_def list_all_iff)
  then have "list_all2 parses_pair (map (\<lambda>(k, v). (k, json_text L (Suc n) v)) d) d"
    by (induction d) auto
  from dict_parses_to [OF this] show ?case using PDict.prems by simp
qed simp_all

lemma insort_key_map:
  "(\<And>x. fst (g x) = fst x) \<Longrightarrow> insort_key fst (g x) (map g xs) = map g (insort_key fst x xs)"
  by (induction xs) auto

lemma sorted_items_map:
  fixes f :: "'a \<Rightarrow> 'b" and d :: "(string \<times> 'a) list"
  shows "sorted_items (map (\<lambda>(k, v). (k, f v)) d) = map (\<lambda>(k, v). (k, f v)) (sorted_items d)"
proof -
  have "sort_key fst (map g d) = map g (sort_key fst d)"
    if "\<And>x. fst (g x) = fst x" for g :: "string \<times> 'a \<Rightarrow> string \<times> 'b"
    using that by (induction d) (simp_all add: insort_key_map)
  then show ?thesis by (simp add: sorted_items_def case_prod_beta)
qed

lemma layout_unsorted [simp]:
  "newline (L\<lparr>sort_keys := b\<rparr>) n = newline L n"
  "item_sep (L\<lparr>sort_keys := b\<rparr>) n = item_sep L n"
  "bracket (L\<lparr>sort_keys := b\<rparr>) n = bracket L n"
proof -
  show nl: "newline (L\<lparr>sort_keys := b\<rparr>) n = newline L n" for n by (simp add: newline_def)
  show sep: "item_sep (L\<lparr>sort_keys := b\<rparr>) n = item_sep L n" for n
    using nl by (auto simp: item_sep_def split: option.split)
  show "bracket (L\<lparr>sort_keys := b\<rparr>) n = bracket L n"
    by (intro ext) (simp add: bracket_def nl sep)
qed

lemma json_text_sorted:
  "sort_keys L \<Longrightarrow> json_text L n v = json_text (L\<lparr>sort_keys := False\<rparr>) n (deep_sort v)"
proof (induction v arbitrary: n)
  case (PList vs)
  then show ?case by (simp add: comp_def cong: map_cong)
next
  case (PDict d)
  have "map (\<lambda>(k, v). (k, json_text L (Suc n) v)) d =
      map (\<lambda>(k, v). (k, json_text (L\<lparr>sort_keys := False\<rparr>) (Suc n) v)) (map (\<lambda>(k, v). (k, deep_sort v)) d)"
    using PDict.IH PDict.prems by fastforce
  then have "sorted_items (map (\<lambda>(k, v). (k, json_text L (Suc n) v)) d) =
      map (\<lambda>(k, v). (k, json_text (L\<lparr>sort_keys := False\<rparr>) (Suc n) v))
        (sorted_items (map (\<lambda>(k, v). (k, deep_sort v)) d))"
    by (simp only: sorted_items_map)
  then show ?case using PDict.prems by simp
qed simp_all

lemma deep_sort_ok: "json_ok v \<Longrightarrow> json_ok (deep_sort v)"
  by (induction v) (auto simp: list_all_iff)

lemma deep_sort_wf: "wf_val v \<Longrightarrow> wf_val (deep_sort v)"
proof (induction v)
  case (PDict d)
  then have "wf_dict (map (\<lambda>(k, v). (k, deep_sort v)) d)"
    by (simp add: wf_dict_def comp_def case_prod_beta)
  with PDict show ?case by (auto simp: list_all_iff)
qed (auto simp: list_all_iff)

definition normal_form :: "layout \<Rightarrow> pyval \<Rightarrow> pyval" where
  "normal_form L v = (if sort_keys L then deep_sort v else v)"

lemma json_text_parses_normal:
  "json_ok v \<Longrightarrow> wf_val v \<Longrightarrow> parses_to (json_text L 0 v) (normal_form L v)"
  using json_text_parses [of v L 0]
    json_text_parses [of "deep_sort v" "L\<lparr>sort_keys := False\<rparr>" 0]
  by (simp add: normal_form_def json_text_sorted deep_sort_ok deep_sort_wf)

lemma json_loads_text:
  assumes "json_ok v" and "wf_val v"
  shows "json_loads (json_text L 0 v) = Inr (normal_form L v)"
proof -
  let ?t = "json_text L 0 v"
  have p: "parses_to ?t (normal_form L v)" using assms by (rule json_text_parses_normal)
  then have "skip_ws (?t @ []) = ?t @ []"
    unfolding parses_to_def value_text_def by (intro skip_ws_id) auto
  moreover have "parse_value (Suc (2 * length ?t)) (?t @ []) = Inr (normal_form L v, [])"
    using p by (rule parses_toD) simp_all
  ultimately show ?thesis by (simp add: json_loads_def skip_ws_def del: parse_value.simps)
qed

text \<open>The encoder and the decoder as a codec, on the values without foreign objects.\<close>

interpretation json: codec "json_text default_layout 0" json_loads "\<lambda>v. json_ok v \<and> wf_val v"
  by unfold_locales (simp add: json_loads_text normal_form_def default_layout_def)

section \<open>What the reader returns\<close>

abbreviation out_of_fuel :: exn where
  "out_of_fuel \<equiv> OtherException ''out of fuel''"

lemma parse_string_result:
  "(parse_string s = Inr (t, rest) \<longrightarrow> length rest < length s) \<and> parse_string s \<noteq> Inl out_of_fuel"
proof (induction s arbitrary: t rest rule: parse_string.induct)
  case 1
  show ?case by simp
next
  case (2 c cs)
  have u: "unicode_escape x \<noteq> Inl out_of_fuel" for x
    by (simp add: unicode_escape_def split: list.splits option.splits)
  show ?case
  proof (cases cs)
    case Nil
    then show ?thesis using 2(3) by (cases "c = CHR 0x22"; cases "c = CHR 0x5C") (auto simp: res_iff)
  next
    case (Cons e es)
    consider "c = CHR 0x22" | "c \<noteq> CHR 0x22" "c = CHR 0x5C" "e = CHR ''u''"
      | "c \<noteq> CHR 0x22" "c = CHR 0x5C" "e \<noteq> CHR ''u''" | "c \<noteq> CHR 0x22" "c \<noteq> CHR 0x5C" by blast
    then show ?thesis
    proof cases
      case 1
      then show ?thesis by simp
    next
      case c: 2
      from 2(1) [OF c(1,2) Cons c(3)] show ?thesis
        using c Cons u by (fastforce simp: res_iff)
    next
      case c: 3
      from 2(2) [OF c(1,2) Cons c(3)] show ?thesis
        using c Cons by (fastforce simp: res_iff of_option_def split: option.splits)
    next
      case c: 4
      show ?thesis
        by (cases "code_point c < 32") (use 2(3) [OF c] c in \<open>fastforce simp: res_iff\<close>)+
    qed
  qed
qed

lemma parse_nat_result:
  "(parse_nat s = Inr (n, rest) \<longrightarrow> length rest < length s) \<and> parse_nat s \<noteq> Inl out_of_fuel"
  by (cases s) (auto simp: parse_nat_def starts_digit_def Let_def of_option_def split: if_splits option.splits)

lemma starts_with_length: "starts_with p s \<Longrightarrow> length p \<le> length s"
  by (induction p s rule: starts_with.induct) auto

lemma parse_const_result:
  "(parse_const s = Inr (v, rest) \<longrightarrow> json_ok v \<and> wf_val v \<and> length rest < length s) \<and> parse_const s \<noteq> Inl out_of_fuel"
proof -
  have i: "(parse_int s = Inr (v, rest) \<longrightarrow> json_ok v \<and> wf_val v \<and> length rest < length s) \<and> parse_int s \<noteq> Inl out_of_fuel"
  proof (cases s)
    case Nil
    then show ?thesis by (simp add: parse_int_def)
  next
    case (Cons c cs)
    show ?thesis
      using parse_nat_result [of cs] parse_nat_result [of s] Cons
      by (auto simp: parse_int_def res_iff less_Suc_eq split: if_splits)
  qed
  show ?thesis
    using i starts_with_length [of "''null''" s] starts_with_length [of "''true''" s] starts_with_length [of "''false''" s]
    by (auto simp: parse_const_def split: if_splits)
qed


lemma update_values: "(k', v') \<in> set (dict_set d k v) \<Longrightarrow> (k', v') = (k, v) \<or> (k', v') \<in> set d"
  by (induction d) (auto split: if_splits)

lemma dict_of_items_values: "(k, v) \<in> set (dict_of_items ps) \<Longrightarrow> (k, v) \<in> set ps"
proof (induction ps rule: rev_induct)
  case Nil
  then show ?case by (simp add: dict_of_items_def)
next
  case (snoc p ps)
  obtain k' v' where p: "p = (k', v')" by (cases p)
  from snoc show ?case by (auto simp: p dict_of_items_append dest!: update_values)
qed

lemma skip_ws_length: "skip_ws s = t \<Longrightarrow> length t \<le> length s"
  by (auto simp: skip_ws_def length_dropWhile_le)

definition json_good :: "pyval \<Rightarrow> bool" where
  "json_good v \<longleftrightarrow> json_ok v \<and> wf_val v"

definition value_result :: "nat \<Rightarrow> string \<Rightarrow> bool" where
  "value_result n s \<longleftrightarrow> (\<forall>v rest. parse_value n s = Inr (v, rest) \<longrightarrow> json_good v \<and> length rest < length s) \<and>
     (2 * length s < n \<longrightarrow> parse_value n s \<noteq> Inl out_of_fuel)"

definition items_result :: "nat \<Rightarrow> string \<Rightarrow> bool" where
  "items_result n s \<longleftrightarrow> (\<forall>vs rest. parse_items n s = Inr (vs, rest) \<longrightarrow> list_all json_good vs \<and> length rest < length s) \<and>
     (Suc (2 * length s) < n \<longrightarrow> parse_items n s \<noteq> Inl out_of_fuel)"

definition pairs_result :: "nat \<Rightarrow> string \<Rightarrow> bool" where
  "pairs_result n s \<longleftrightarrow> (\<forall>ps rest. parse_pairs n s = Inr (ps, rest) \<longrightarrow> list_all (json_good \<circ> snd) ps \<and> length rest < length s) \<and>
     (Suc (2 * length s) < n \<longrightarrow> parse_pairs n s \<noteq> Inl out_of_fuel)"

lemma json_good_list: "list_all json_good xs \<Longrightarrow> json_good (PList xs)"
  by (auto simp: json_good_def list_all_iff)

lemma json_good_dict: "list_all (json_good \<circ> snd) ps \<Longrightarrow> json_good (PDict (dict_of_items ps))"
  using wf_dict_of_items [of ps] by (auto simp: json_good_def list_all_iff dest!: dict_of_items_values)

lemma value_step:
  assumes "\<And>s. items_result n s" and "\<And>s. pairs_result n s"
  shows "value_result (Suc n) s"
proof (cases s)
  case Nil
  then show ?thesis by (simp add: value_result_def)
next
  case (Cons c cs)
  consider "c = CHR 0x22" | "c = CHR ''[''" | "c = CHR ''{''" | "c \<notin> {CHR 0x22, CHR ''['', CHR ''{''}" by blast
  then show ?thesis
  proof cases
    case 1
    then show ?thesis
      using parse_string_result [of cs] Cons by (force simp: value_result_def json_good_def res_iff)
  next
    case 2
    show ?thesis
    proof (cases "skip_ws cs")
      case Nil
      then show ?thesis using 2 Cons by (simp add: value_result_def)
    next
      case d: (Cons d ds)
      then show ?thesis
        using assms(1) [of "d # ds"] skip_ws_length [OF d] json_good_list 2 Cons
        by (fastforce simp: value_result_def items_result_def json_good_def res_iff)
    qed
  next
    case 3
    show ?thesis
    proof (cases "skip_ws cs")
      case Nil
      then show ?thesis using 3 Cons by (simp add: value_result_def)
    next
      case d: (Cons d ds)
      then show ?thesis
        using assms(2) [of "d # ds"] skip_ws_length [OF d] json_good_dict 3 Cons
        by (fastforce simp: value_result_def pairs_result_def json_good_def wf_dict_def res_iff)
    qed
  next
    case 4
    then show ?thesis
      using parse_const_result [of s] Cons by (auto simp: value_result_def json_good_def)
  qed
qed

lemma items_step:
  assumes "\<And>s. value_result n s" and "\<And>s. items_result n s"
  shows "items_result (Suc n) s"
proof (cases "parse_value n s")
  case (Inl e)
  then show ?thesis using assms(1) [of s] by (auto simp: items_result_def value_result_def)
next
  case (Inr p)
  obtain x rest where p: "parse_value n s = Inr (x, rest)" using Inr by (cases p) auto
  then have x: "json_good x" "length rest < length s" using assms(1) [of s] by (auto simp: value_result_def)
  show ?thesis
  proof (cases "skip_ws rest")
    case Nil
    then show ?thesis using p by (simp add: items_result_def)
  next
    case (Cons d ds)
    have l: "length (skip_ws ds) < length rest" using skip_ws_length [OF Cons] skip_ws_length [of ds] by simp
    have r: "length ds < length s" using skip_ws_length [OF Cons] x(2) by simp
    have fuel: "parse_items n (skip_ws ds) \<noteq> Inl out_of_fuel" if "Suc (2 * length s) < Suc n"
      using assms(2) [of "skip_ws ds"] that l x(2) by (auto simp: items_result_def)
    have e: "parse_items (Suc n) s = (if d = CHR '']'' then Inr ([x], ds) else if d = CHR '','' then
        map_res (\<lambda>(xs, rest'). (x # xs, rest')) (parse_items n (skip_ws ds)) else Inl JSONDecodeError)"
      using p Cons by simp
    have i: "list_all json_good vs \<and> length t < length s" if "parse_items n (skip_ws ds) = Inr (vs, t)" for vs t
      using assms(2) [of "skip_ws ds"] that l x(2) by (fastforce simp: items_result_def)
    show ?thesis
      unfolding items_result_def e using x r fuel i by (auto simp: res_iff split: if_splits)
  qed
qed


lemma pairs_step:
  assumes "\<And>s. value_result n s" and "\<And>s. pairs_result n s"
  shows "pairs_result (Suc n) s"
proof (cases "\<exists>cs k after_key es. s = CHR 0x22 # cs \<and> parse_string cs = Inr (k, after_key) \<and> skip_ws after_key = CHR '':'' # es")
  case False
  have "\<exists>e. parse_pairs (Suc n) s = Inl e \<and> e \<noteq> out_of_fuel"
  proof (cases s)
    case Nil
    then show ?thesis by simp
  next
    case c: (Cons c cs)
    show ?thesis
    proof (cases "c = CHR 0x22 \<and> (\<exists>p. parse_string cs = Inr p)")
      case True
      then obtain k a where p: "parse_string cs = Inr (k, a)" by auto
      show ?thesis using False True c p by (cases "skip_ws a") auto
    next
      case False
      then show ?thesis using c parse_string_result [of cs] by (cases "parse_string cs") auto
    qed
  qed
  then show ?thesis by (auto simp: pairs_result_def)
next
  case True
  then obtain cs k after_key es where s: "s = CHR 0x22 # cs" "parse_string cs = Inr (k, after_key)"
    "skip_ws after_key = CHR '':'' # es" by blast
  have l: "length (skip_ws es) < length s"
    using s parse_string_result [of cs k after_key] skip_ws_length [OF s(3)] skip_ws_length [of es] by simp
  show ?thesis
  proof (cases "parse_value n (skip_ws es)")
    case (Inl e)
    then show ?thesis using assms(1) [of "skip_ws es"] s l by (auto simp: pairs_result_def value_result_def)
  next
    case (Inr p)
    then obtain v rest where p: "parse_value n (skip_ws es) = Inr (v, rest)" by (cases p) auto
    then have v: "json_good v" "length rest < length s" using assms(1) [of "skip_ws es"] l by (auto simp: value_result_def)
    show ?thesis
    proof (cases "skip_ws rest")
      case Nil
      then show ?thesis using s p by (simp add: pairs_result_def)
    next
      case (Cons d ds)
      have m: "length (skip_ws ds) < length rest" using skip_ws_length [OF Cons] skip_ws_length [of ds] by simp
      have r: "length ds < length s" using skip_ws_length [OF Cons] v(2) by simp
      have fuel: "parse_pairs n (skip_ws ds) \<noteq> Inl out_of_fuel" if "Suc (2 * length s) < Suc n"
        using assms(2) [of "skip_ws ds"] that m v(2) by (auto simp: pairs_result_def)
      have e: "parse_pairs (Suc n) s = (if d = CHR ''}'' then Inr ([(k, v)], ds) else if d = CHR '','' then
          map_res (\<lambda>(ps, rest'). ((k, v) # ps, rest')) (parse_pairs n (skip_ws ds)) else Inl JSONDecodeError)"
        using s p Cons by simp
      have i: "list_all (json_good \<circ> snd) ps \<and> length t < length s" if "parse_pairs n (skip_ws ds) = Inr (ps, t)" for ps t
        using assms(2) [of "skip_ws ds"] that m v(2) by (fastforce simp: pairs_result_def)
      show ?thesis
        unfolding pairs_result_def e using v r fuel i by (auto simp: res_iff split: if_splits)
    qed
  qed
qed

lemma parse_results: "value_result n s \<and> items_result n s \<and> pairs_result n s"
proof (induction n arbitrary: s)
  case 0
  show ?case by (simp add: value_result_def items_result_def pairs_result_def)
next
  case (Suc n)
  then show ?case using value_step [of n s] items_step [of n s] pairs_step [of n s] by blast
qed

text \<open>The fuel is always enough, and what is read can be written again.\<close>

lemma json_loads_total: "json_loads s \<noteq> Inl out_of_fuel"
proof -
  have "parse_value (Suc (2 * length s)) (skip_ws s) \<noteq> Inl out_of_fuel"
    using parse_results [of "Suc (2 * length s)" "skip_ws s"] skip_ws_length [of s] by (simp add: value_result_def)
  then show ?thesis by (auto simp: json_loads_def res_iff split: if_splits simp del: parse_value.simps)
qed

lemma json_loads_good: "json_loads s = Inr v \<Longrightarrow> json_ok v \<and> wf_val v"
  using parse_results by (fastforce simp: json_loads_def value_result_def json_good_def res_iff split: if_splits simp del: parse_value.simps)

end
