(* ===== verification/AlgodTransaction.thy ===== *)
theory AlgodTransaction
  imports AlgodAccount Json
begin

text \<open>
  \<open>kavm/adaptors/algod_transaction.py\<close>: transactions between the SDK, the JSON of a
  simulation scenario and the K cell \<open><transaction>\<close>.
\<close>

section \<open>Apply data\<close>

record apply_data =
  tx_scratch :: "(int, pyval) dict"
  inner_txns :: "pyval list"
  tx_config_asset :: int
  tx_application_id :: int
  log_size :: int
  log_data :: "pyval list"

definition new_apply_data :: apply_data where
  "new_apply_data = \<lparr>tx_scratch = [], inner_txns = [], tx_config_asset = 0,
     tx_application_id = 0, log_size = 0, log_data = []\<rparr>"

definition apply_data_from_k_cell :: "pyk \<Rightarrow> kinner \<Rightarrow> apply_data res" where
  "apply_data_from_k_cell P t =
     (let subst = snd (split_config_from P t) in
      bind_res (subst_int subst ''TXCONFIGASSET_CELL'') (\<lambda>asset.
      bind_res (subst_int subst ''TXAPPLICATIONID_CELL'') (\<lambda>app.
      map_res (\<lambda>size. new_apply_data\<lparr>tx_config_asset := asset, tx_application_id := app, log_size := size\<rparr>)
        (subst_int subst ''LOGSIZE_CELL''))))"

text \<open>The response for a transaction; \<open>None\<close> stands for missing apply data.\<close>

definition pending_transaction_responce :: "apply_data option \<Rightarrow> pydict" where
  "pending_transaction_responce ad =
     [(''asset-index'', PInt (case ad of Some a \<Rightarrow> tx_config_asset a | None \<Rightarrow> 0)),
      (''application-index'', PInt (case ad of Some a \<Rightarrow> tx_application_id a | None \<Rightarrow> 0)),
      (''close-rewards'', PInt 0), (''closing-amount'', PInt 0), (''asset-closing-amount'', PInt 0),
      (''confirmed-round'', PInt 1), (''receiver-rewards'', PInt 0), (''sender-rewards'', PInt 0),
      (''local-state-delta'', PNone), (''global-state-delta'', PNone),
      (''logs'', case ad of Some a \<Rightarrow> PList (log_data a) | None \<Rightarrow> PNone),
      (''inner-txns'', case ad of Some a \<Rightarrow> PList (inner_txns a) | None \<Rightarrow> PNone),
      (''txn'', PNone)]"

section \<open>Byte fields of a transaction dictionary\<close>

text \<open>
  Both functions walk the dictionary and store into keys it already has, so each entry is
  rewritten on its own, in order; the first that raises ends the walk.
\<close>

definition map_values :: "(string \<Rightarrow> pyval \<Rightarrow> pyval res) \<Rightarrow> pydict \<Rightarrow> pydict res" where
  "map_values f d = mapM_res (\<lambda>(k, v). map_res (Pair k) (f k v)) d"

definition address_keys :: "string list" where
  "address_keys = [''snd'', ''rcv'', ''close'', ''asnd'', ''arcv'', ''aclose'']"

definition asset_address_keys :: "string list" where
  "asset_address_keys = [''c'', ''f'', ''r'']"

definition convert_apar :: "(pyval \<Rightarrow> pyval res) \<Rightarrow> pyval \<Rightarrow> pyval res" where
  "convert_apar conv v = bind_res (as_items v) (\<lambda>d. map_res PDict
     (map_values (\<lambda>sub_k sub_v. if sub_k \<in> set asset_address_keys then conv sub_v else Inr sub_v) d))"

fun b64encode_val :: "pyval \<Rightarrow> pyval res" where
  "b64encode_val (PBytes b) = Inr (PStr (b64encode b))"
| "b64encode_val _ = Inl TypeError"

definition sanitize_field :: "sdk \<Rightarrow> string \<Rightarrow> pyval \<Rightarrow> pyval res" where
  "sanitize_field S k v =
     bind_res (if k = ''apar'' then convert_apar (encode_address S) v else Inr v) (\<lambda>v1.
     bind_res (if is_bytes v
       then (if k \<in> set address_keys then encode_address S v else b64encode_val v)
       else Inr v1) (\<lambda>v2.
     if k = ''apaa'' then bind_res (py_iter v2) (\<lambda>xs. map_res PList (mapM_res b64encode_val xs))
     else Inr v2))"

definition sanitize_byte_fields :: "sdk \<Rightarrow> pydict \<Rightarrow> pydict res" where
  "sanitize_byte_fields S txn_dict = map_values (sanitize_field S) txn_dict"

definition desanitize_text :: "string \<Rightarrow> pyval res" where
  "desanitize_text s =
     catch_res (map_res PBytes (b64decode s)) (\<lambda>e. e = BinasciiError) (\<lambda>_. Inr (PBytes (encode_utf8 s)))"

definition desanitize_field :: "sdk \<Rightarrow> string \<Rightarrow> pyval \<Rightarrow> pyval res" where
  "desanitize_field S k v =
     bind_res (if k = ''apar'' then convert_apar (decode_address S) v else Inr v) (\<lambda>v1.
     bind_res (case v of
         PStr s \<Rightarrow> if k \<in> set (address_keys @ [''rekey'']) then decode_address S v
           else if k \<noteq> ''type'' then desanitize_text s else Inr v1
       | _ \<Rightarrow> Inr v1) (\<lambda>v2.
     if k = ''apaa'' then bind_res (py_iter v2) (\<lambda>xs. map_res PList
       (mapM_res (\<lambda>x. map_res PBytes (b64decode_val x)) xs))
     else Inr v2))"

definition desanitize_byte_fields :: "sdk \<Rightarrow> pydict \<Rightarrow> pydict res" where
  "desanitize_byte_fields S txn_dict = map_values (desanitize_field S) txn_dict"

section \<open>Transaction types\<close>

definition txn_type_to_type_enum :: "string \<Rightarrow> int res" where
  "txn_type_to_type_enum t =
     (if t = ''unknown'' then Inr 0
      else if t = ''pay'' then Inr 1
      else if t = ''keyreg'' then Inr 2
      else if t = ''acfg'' then Inr 3
      else if t = ''axfer'' then Inr 4
      else if t = ''afrz'' then Inr 5
      else if t = ''appl'' then Inr 6
      else Inl ValueError)"

text \<open>The SDK's names of the three supported types.\<close>

abbreviation PAYMENT_TXN :: string where "PAYMENT_TXN \<equiv> ''pay''"
abbreviation ASSETTRANSFER_TXN :: string where "ASSETTRANSFER_TXN \<equiv> ''axfer''"
abbreviation APPCALL_TXN :: string where "APPCALL_TXN \<equiv> ''appl''"

section \<open>Parsing a transaction cell\<close>

text \<open>\<open>token.strip('"')\<close> of a cell, its integer, and a program, absent if the cell holds no token.\<close>

definition stripped :: "subst \<Rightarrow> string \<Rightarrow> string res" where
  "stripped s k = map_res (strip_char (CHR 0x22)) (subst_token s k)"

definition stripped_int :: "subst \<Rightarrow> string \<Rightarrow> int res" where
  "stripped_int s k = bind_res (stripped s k) int_of_str"

definition program_bytes :: "subst \<Rightarrow> string \<Rightarrow> bytes res" where
  "program_bytes s k = bind_res (subst_get s k) (\<lambda>t. case t of
       KToken tok srt \<Rightarrow> b64decode (strip_char (CHR 0x22) tok)
     | _ \<Rightarrow> b64decode [])"

definition schema_object :: "sdk \<Rightarrow> int \<Rightarrow> int \<Rightarrow> pyval" where
  "schema_object S n b = new_model S ''StateSchema'' [(''num_uints'', PInt n), (''num_byte_slices'', PInt b)]"

definition appl_from_cells :: "sdk \<Rightarrow> subst \<Rightarrow> pyval \<Rightarrow> pyval res" where
  "appl_from_cells S s sp =
     bind_res (stripped s ''SENDER_CELL'') (\<lambda>sender.
     bind_res (stripped_int s ''APPLICATIONID_CELL'') (\<lambda>index.
     bind_res (bind_res (stripped_int s ''ONCOMPLETION_CELL'') (OnComplete S)) (\<lambda>oc.
     bind_res (stripped_int s ''LOCALNUI_CELL'') (\<lambda>lu.
     bind_res (stripped_int s ''LOCALNBS_CELL'') (\<lambda>lb.
     bind_res (stripped_int s ''GLOBALNUI_CELL'') (\<lambda>gu.
     bind_res (stripped_int s ''GLOBALNBS_CELL'') (\<lambda>gb.
     bind_res (program_bytes s ''APPROVALPROGRAM_CELL'') (\<lambda>approval.
     bind_res (program_bytes s ''CLEARSTATEPROGRAM_CELL'') (\<lambda>clear.
     new_txn S ''ApplicationCallTxn''
       [(''sender'', PStr sender), (''sp'', sp), (''index'', PInt index), (''on_complete'', oc),
        (''local_schema'', schema_object S lu lb), (''global_schema'', schema_object S gu gb),
        (''approval_program'', PBytes approval), (''clear_program'', PBytes clear),
        (''app_args'', PNone), (''accounts'', PNone), (''foreign_apps'', PNone),
        (''foreign_assets'', PNone), (''extra_pages'', PInt 0)])))))))))"

definition transaction_from_k_cell :: "pyk \<Rightarrow> sdk \<Rightarrow> kinner \<Rightarrow> pyval res" where
  "transaction_from_k_cell P S t =
     (let s = snd (split_config_from P t) in
      bind_res (subst_int s ''FEE_CELL'') (\<lambda>fee.
      bind_res (subst_int s ''FIRSTVALID_CELL'') (\<lambda>first.
      bind_res (subst_int s ''LASTVALID_CELL'') (\<lambda>last.
      bind_res (subst_token s ''GENESISHASH_CELL'') (\<lambda>gh.
      bind_res (new_txn S ''SuggestedParams''
        [(''fee'', PInt fee), (''first'', PInt first), (''last'', PInt last), (''gh'', PStr gh),
         (''flat_fee'', PBool True)]) (\<lambda>sp.
      bind_res (stripped s ''TXTYPE_CELL'') (\<lambda>tx_type.
      if tx_type = PAYMENT_TXN then
        bind_res (stripped s ''SENDER_CELL'') (\<lambda>sender.
        bind_res (stripped s ''RECEIVER_CELL'') (\<lambda>receiver.
        bind_res (subst_int s ''AMOUNT_CELL'') (\<lambda>amt.
        new_txn S ''PaymentTxn'' [(''sender'', PStr sender), (''sp'', sp),
          (''receiver'', PStr receiver), (''amt'', PInt amt)])))
      else if tx_type = ASSETTRANSFER_TXN then
        bind_res (stripped s ''SENDER_CELL'') (\<lambda>sender.
        bind_res (stripped s ''ASSETRECEIVER_CELL'') (\<lambda>receiver.
        bind_res (stripped_int s ''ASSETAMOUNT_CELL'') (\<lambda>amt.
        bind_res (stripped_int s ''XFERASSET_CELL'') (\<lambda>index.
        new_txn S ''AssetTransferTxn'' [(''sender'', PStr sender), (''sp'', sp),
          (''receiver'', PStr receiver), (''amt'', PInt amt), (''index'', PInt index)]))))
      else if tx_type = APPCALL_TXN then appl_from_cells S s sp
      else Inl ValueError)))))))"

section \<open>Building a transaction cell\<close>

abbreviation no_value_error :: kinner where
  "no_value_error \<equiv> KApply ''int__TEAL-OPCODES_PseudoOpCode_PseudoTUInt64'' [KToken ''1'' ''Int'']"

text \<open>A substitution under construction: the entries in the order the code evaluates them.\<close>

definition eval_entries :: "(string \<times> kinner res) list \<Rightarrow> subst res" where
  "eval_entries es = mapM_res (\<lambda>(k, r). map_res (Pair k) r) es"

definition attr_tvalue :: "pyk \<Rightarrow> pyval \<Rightarrow> string \<Rightarrow> kinner res" where
  "attr_tvalue P txn a = bind_res (py_attr txn a) (maybe_tvalue P)"

definition rekey_token :: "pyk \<Rightarrow> sdk \<Rightarrow> pyval \<Rightarrow> kinner res" where
  "rekey_token P S v =
     (if py_true v then
        (case v of PBytes b \<Rightarrow> Inr (bytesToken P b) | PStr s \<Rightarrow> bytesToken_str P s | _ \<Rightarrow> Inl TypeError)
      else algorand_address_to_k_bytes P S (PStr ZERO_ADDRESS))"

text \<open>A type that is no text equals none of the names.\<close>

definition txn_type_text :: "pyval \<Rightarrow> string" where
  "txn_type_text v = (case v of PStr s \<Rightarrow> s | _ \<Rightarrow> [])"

definition header_entries :: "pyk \<Rightarrow> sdk \<Rightarrow> pyval \<Rightarrow> (string \<times> kinner res) list" where
  "header_entries P S txn =
     [(''FEE_CELL'', bind_res (py_attr txn ''fee'') (token_or_expr (maybe_tvalue P))),
      (''FIRSTVALID_CELL'', attr_tvalue P txn ''first_valid_round''),
      (''LASTVALID_CELL'', attr_tvalue P txn ''last_valid_round''),
      (''GENESISHASH_CELL'', attr_tvalue P txn ''genesis_hash''),
      (''GENESISID_CELL'', attr_tvalue P txn ''genesis_id''),
      (''SENDER_CELL'', bind_res (py_attr txn ''sender'') (token_or_expr (algorand_address_to_k_bytes P S))),
      (''TXTYPE_CELL'', attr_tvalue P txn ''type''),
      (''TYPEENUM_CELL'', bind_res (py_attr txn ''type'') (\<lambda>t.
         bind_res (txn_type_to_type_enum (txn_type_text t)) (\<lambda>n. maybe_tvalue P (PInt n)))),
      (''GROUPIDX_CELL'', maybe_tvalue P PNone),
      (''GROUPID_CELL'', bind_res (py_attr txn ''group'') (\<lambda>g.
         if py_true g then maybe_tvalue P g else Inr (KToken [CHR 0x22, CHR ''0'', CHR 0x22] ''String''))),
      (''LEASE_CELL'', attr_tvalue P txn ''lease''),
      (''NOTE_CELL'', Inr empty_string_token),
      (''REKEYTO_CELL'', bind_res (py_attr txn ''rekey_to'') (rekey_token P S))]"

definition apply_data_subst :: subst where
  "apply_data_subst =
     [(''TXSCRATCH_CELL'', KToken ''.Map'' ''Map''),
      (''TXCONFIGASSET_CELL'', KToken ''0'' ''Int''),
      (''TXAPPLICATIONID_CELL'', KToken ''0'' ''Int''),
      (''LOGDATA_CELL'', KToken ''.TValueList'' ''TValueList''),
      (''LOGSIZE_CELL'', KToken ''0'' ''Int'')]"

definition service_fields_subst :: subst where
  "service_fields_subst =
     [(''TXNEXECUTIONCONTEXT_CELL'', KToken ''.K'' ''KItem''),
      (''RESUME_CELL'', KToken ''false'' ''Bool'')]"

definition zero_address :: "pyk \<Rightarrow> sdk \<Rightarrow> kinner res" where
  "zero_address P S = algorand_address_to_k_bytes P S (PStr ZERO_ADDRESS)"

definition pay_entries :: "pyk \<Rightarrow> sdk \<Rightarrow> pyval \<Rightarrow> (string \<times> kinner res) list" where
  "pay_entries P S txn =
     [(''RECEIVER_CELL'', bind_res (py_attr txn ''receiver'') (token_or_expr (algorand_address_to_k_bytes P S))),
      (''AMOUNT_CELL'', bind_res (py_attr txn ''amt'') (token_or_expr (maybe_tvalue P))),
      (''CLOSEREMAINDERTO_CELL'', token_or_expr (algorand_address_to_k_bytes P S) (PStr ZERO_ADDRESS))]"

text \<open>\<open>intToken(txn.index)\<close> is asked for a number.\<close>

definition axfer_entries :: "pyk \<Rightarrow> sdk \<Rightarrow> pyval \<Rightarrow> (string \<times> kinner res) list" where
  "axfer_entries P S txn =
     [(''XFERASSET_CELL'', bind_res (py_attr txn ''index'') (\<lambda>i. map_res (intToken P) (as_int i))),
      (''ASSETRECEIVER_CELL'', bind_res (py_attr txn ''receiver'') (algorand_address_to_k_bytes P S)),
      (''ASSETAMOUNT_CELL'', attr_tvalue P txn ''amount''),
      (''ASSETCLOSETO_CELL'', zero_address P S),
      (''ASSETASENDER_CELL'', zero_address P S)]"

definition unless_None :: "pyval \<Rightarrow> (pyval \<Rightarrow> kinner res) \<Rightarrow> kinner res \<Rightarrow> kinner res" where
  "unless_None v f d = (if v \<noteq> PNone then f v else d)"

definition list_attr :: "pyk \<Rightarrow> pyval \<Rightarrow> string \<Rightarrow> kinner res" where
  "list_attr P txn a = bind_res (py_attr txn a) (\<lambda>v.
     unless_None v (\<lambda>v. bind_res (as_list v) (tvalue_list P)) (tvalue_list P []))"

text \<open>\<open>xs if xs else []\<close>, as a list.\<close>

definition list_or_empty :: "pyval \<Rightarrow> pyval list res" where
  "list_or_empty v = (if py_true v then as_list v else Inr [])"

definition schema_attr :: "pyk \<Rightarrow> pyval \<Rightarrow> string \<Rightarrow> string \<Rightarrow> kinner res" where
  "schema_attr P txn a field = bind_res (py_attr txn a) (\<lambda>v.
     unless_None v (\<lambda>v. bind_res (py_attr v field) (maybe_tvalue P)) (maybe_tvalue P (PInt 0)))"

definition program_src :: "pyk \<Rightarrow> pyval \<Rightarrow> string \<Rightarrow> kinner res" where
  "program_src P txn a = bind_res (py_attr txn a) (\<lambda>v.
     if py_true v then maybe_tvalue P v else Inr no_value_error)"

definition appl_entries :: "pyk \<Rightarrow> pyval \<Rightarrow> (string \<times> kinner res) list" where
  "appl_entries P txn =
     [(''APPLICATIONID_CELL'', attr_tvalue P txn ''index''),
      (''ONCOMPLETION_CELL'', bind_res (py_attr txn ''on_complete'') (\<lambda>v.
         unless_None v (\<lambda>v. bind_res (py_int v) (\<lambda>n. maybe_tvalue P (PInt n))) (maybe_tvalue P (PInt 0)))),
      (''ACCOUNTS_CELL'', list_attr P txn ''accounts''),
      (''APPROVALPROGRAM_CELL'', attr_tvalue P txn ''approval_program''),
      (''APPROVALPROGRAMSRC_CELL'', program_src P txn ''approval_program''),
      (''CLEARSTATEPROGRAM_CELL'', attr_tvalue P txn ''clear_program''),
      (''CLEARSTATEPROGRAMSRC_CELL'', program_src P txn ''clear_program''),
      (''APPLICATIONARGS_CELL'', bind_res (bind_res (py_attr txn ''app_args'') list_or_empty) (tvalue_bytes_list P)),
      (''FOREIGNAPPS_CELL'', bind_res (bind_res (py_attr txn ''foreign_apps'') list_or_empty) (tvalue_list P)),
      (''FOREIGNASSETS_CELL'', list_attr P txn ''foreign_assets''),
      (''GLOBALNUI_CELL'', schema_attr P txn ''global_schema'' ''num_uints''),
      (''GLOBALNBS_CELL'', schema_attr P txn ''global_schema'' ''num_byte_slices''),
      (''LOCALNUI_CELL'', schema_attr P txn ''local_schema'' ''num_uints''),
      (''LOCALNBS_CELL'', schema_attr P txn ''local_schema'' ''num_byte_slices''),
      (''EXTRAPROGRAMPAGES_CELL'', bind_res (py_attr txn ''extra_pages'') (\<lambda>v.
         unless_None v (maybe_tvalue P) (maybe_tvalue P (PInt 0)))),
      (''BOXREFERENCES_CELL'', Inr (KToken ''.TValuePairList'' ''TValuePairList''))]"

text \<open>
  The six cells of type-specific fields: all empty but the one of the transaction's type,
  which stands at position \<open>i\<close>.
\<close>

definition empty_fields_cells :: "kinner list" where
  "empty_fields_cells =
     [KConst ''.PayTxFieldsCell'', KConst ''.AppCallTxFieldsCell'', KConst ''.KeyRegTxFieldsCell'',
      KConst ''.AssetConfigTxFieldsCell'', KConst ''.AssetTransferTxFieldsCell'',
      KConst ''.AssetFreezeTxFieldsCell'']"

definition type_specific ::
    "pyk \<Rightarrow> sdk \<Rightarrow> kdefinition \<Rightarrow> pyval \<Rightarrow> string \<Rightarrow> (subst \<times> kinner list) res" where
  "type_specific P S D txn ty =
     (if ty = PAYMENT_TXN then
        map_res (\<lambda>s. (s, empty_fields_cells[0 := empty_config D ''PayTxFieldsCell'']))
          (eval_entries (pay_entries P S txn))
      else if ty = ASSETTRANSFER_TXN then
        map_res (\<lambda>s. (s, empty_fields_cells[4 := empty_config D ''AssetTransferTxFieldsCell'']))
          (eval_entries (axfer_entries P S txn))
      else if ty = APPCALL_TXN then
        map_res (\<lambda>s. (s, empty_fields_cells[1 := empty_config D ''AppCallTxFieldsCell'']))
          (eval_entries (appl_entries P txn))
      else Inl ValueError)"

definition empty_transaction_cell :: "pyk \<Rightarrow> kdefinition \<Rightarrow> string \<Rightarrow> kinner list \<Rightarrow> kinner" where
  "empty_transaction_cell P D txid type_specific_fields =
     KApply ''<transaction>''
       [KApply ''<txID>'' [stringToken P txid],
        empty_config D ''TxHeaderCell'',
        KApply ''<txnTypeSpecificFields>'' type_specific_fields,
        empty_config D ''ApplyDataCell'',
        KApply ''<txnExecutionContext>'' [KVariable ''TXNEXECUTIONCONTEXT_CELL'' None],
        KApply ''<resume>'' [KVariable ''RESUME_CELL'' None]]"

definition txid_subst :: "string \<Rightarrow> subst" where
  "txid_subst txid = [(''TXID_CELL'', KToken ([CHR 0x22] @ txid @ [CHR 0x22]) ''String'')]"

definition compose_all :: "pyk \<Rightarrow> subst list \<Rightarrow> subst" where
  "compose_all P ss = foldl (subst_compose P) (hd ss) (tl ss)"

definition transaction_k_term ::
    "pyk \<Rightarrow> sdk \<Rightarrow> kdefinition \<Rightarrow> pyval \<Rightarrow> string \<Rightarrow> subst \<Rightarrow> kinner res" where
  "transaction_k_term P S D txn txid symbolic_fields_subst =
     bind_res (eval_entries (header_entries P S txn)) (\<lambda>header.
     bind_res (py_attr txn ''type'') (\<lambda>ty.
     map_res (\<lambda>(specific, cells).
         subst_apply P
           (compose_all P [txid_subst txid, service_fields_subst, apply_data_subst, header, specific,
              symbolic_fields_subst])
           (empty_transaction_cell P D txid cells))
       (type_specific P S D txn (txn_type_text ty))))"

section \<open>Byte fields: properties\<close>

text \<open>
  The fields of a dictionary the SDK made of a transaction, as far as the two functions
  handle them: addresses of 32 bytes, other byte strings, application arguments, the asset
  parameters with the addresses \<open>c\<close>, \<open>f\<close>, \<open>r\<close>, and values that hold no bytes.
\<close>

fun is_address :: "pyval \<Rightarrow> bool" where
  "is_address (PBytes b) = (length b = 32)"
| "is_address _ = False"

fun bytes_list :: "pyval \<Rightarrow> bool" where
  "bytes_list (PList xs) = list_all is_bytes xs"
| "bytes_list _ = False"

definition asset_field :: "string \<times> pyval \<Rightarrow> bool" where
  "asset_field = (\<lambda>(k, v). if k \<in> set asset_address_keys then is_address v else json_ok v)"

fun asset_params :: "pyval \<Rightarrow> bool" where
  "asset_params (PDict d) = list_all asset_field d"
| "asset_params _ = False"

definition wire_field :: "string \<times> pyval \<Rightarrow> bool" where
  "wire_field = (\<lambda>(k, v).
     if k = ''apar'' then asset_params v
     else if k = ''apaa'' then bytes_list v
     else if k \<in> set address_keys then is_address v
     else is_bytes v \<or> json_ok v)"

text \<open>Fields whose value the second function restores.\<close>

definition exact_field :: "string \<times> pyval \<Rightarrow> bool" where
  "exact_field = (\<lambda>(k, v). wire_field (k, v) \<and>
     (case v of PStr s \<Rightarrow> k = ''type'' | PBytes b \<Rightarrow> k \<notin> {''type'', ''rekey''} | _ \<Rightarrow> True))"

lemma is_address_cases: "is_address v \<Longrightarrow> (\<And>b. v = PBytes b \<Longrightarrow> length b = 32 \<Longrightarrow> thesis) \<Longrightarrow> thesis"
  by (cases v) auto

lemma is_bytes_cases: "is_bytes v \<Longrightarrow> (\<And>b. v = PBytes b \<Longrightarrow> thesis) \<Longrightarrow> thesis"
  by (cases v) auto

lemma bytes_list_map: "list_all is_bytes xs \<Longrightarrow> \<exists>bs. xs = map PBytes bs"
proof (induction xs)
  case Nil
  then show ?case by simp
next
  case (Cons x xs)
  then obtain b bs where "x = PBytes b" "xs = map PBytes bs" by (auto elim: is_bytes_cases)
  then show ?case by (intro exI [of _ "b # bs"]) simp
qed

lemma bytes_list_cases: "bytes_list v \<Longrightarrow> (\<And>bs. v = PList (map PBytes bs) \<Longrightarrow> thesis) \<Longrightarrow> thesis"
  by (cases v) (auto dest: bytes_list_map)

lemma address_text:
  assumes "sdk_address_law S" and "is_address v"
  obtains a where "encode_address S v = Inr (PStr a)" and "decode_address S (PStr a) = Inr v"
  using assms by (auto simp: sdk_address_law_def elim!: is_address_cases)

lemma map_values_steps:
  assumes "list_all P d"
    and "\<And>k v. P (k, v) \<Longrightarrow> \<exists>w. f k v = Inr w \<and> Q k v w"
  shows "\<exists>d'. map_values f d = Inr d' \<and> list_all2 (\<lambda>(k, v) (k', w). k' = k \<and> Q k v w) d d'"
  using assms(1)
proof (induction d)
  case Nil
  then show ?case by (simp add: map_values_def)
next
  case (Cons kv d)
  obtain k v where kv: "kv = (k, v)" by (cases kv)
  with Cons.prems obtain w where "f k v = Inr w" "Q k v w" using assms(2) by auto
  moreover obtain d' where "map_values f d = Inr d'"
    and "list_all2 (\<lambda>(k, v) (k', w). k' = k \<and> Q k v w) d d'"
    using Cons by auto
  ultimately show ?case by (auto simp: kv map_values_def)
qed

lemma map_values_back:
  assumes "list_all2 (\<lambda>(k, v) (k', w). k' = k \<and> g k w = Inr v) d d'"
  shows "map_values g d' = Inr d"
  using assms by (induction rule: list_all2_induct) (auto simp: map_values_def split: prod.splits)

lemma list_all2_keys: "list_all2 (\<lambda>(k, v) (k', w). k' = k \<and> Q k v w) d d' \<Longrightarrow> dict_keys d' = dict_keys d"
  by (induction rule: list_all2_induct) auto

lemma list_all2_values:
  "list_all2 (\<lambda>(k, v) (k', w). k' = k \<and> Q k v w) d d' \<Longrightarrow> (\<And>k v w. Q k v w \<Longrightarrow> R w) \<Longrightarrow>
     list_all (\<lambda>(k, w). R w) d'"
  by (induction rule: list_all2_induct) auto

lemma list_all2_restrict:
  "list_all2 Q d d' \<Longrightarrow> list_all P d \<Longrightarrow> (\<And>x y. P x \<Longrightarrow> Q x y \<Longrightarrow> R x y) \<Longrightarrow> list_all2 R d d'"
  by (induction rule: list_all2_induct) auto

lemma apar_sanitized:
  assumes "sdk_address_law S" and "asset_params v"
  shows "\<exists>w. convert_apar (encode_address S) v = Inr w \<and> json_ok w \<and> is_dict w \<and>
    convert_apar (decode_address S) w = Inr v"
proof -
  from assms(2) obtain d where v: "v = PDict d" and d: "list_all asset_field d" by (cases v) auto
  let ?f = "\<lambda>conv k v. if k \<in> set asset_address_keys then conv v else Inr v"
  have "\<exists>d'. map_values (?f (encode_address S)) d = Inr d' \<and>
      list_all2 (\<lambda>(k, v) (k', w). k' = k \<and> (json_ok w \<and> ?f (decode_address S) k w = Inr v)) d d'"
  proof (rule map_values_steps [OF d])
    fix k v
    assume "asset_field (k, v)"
    then show "\<exists>w. ?f (encode_address S) k v = Inr w \<and> json_ok w \<and> ?f (decode_address S) k w = Inr v"
      by (cases "k \<in> set asset_address_keys") (auto simp: asset_field_def elim: address_text [OF assms(1)])
  qed
  then obtain d' where 1: "map_values (?f (encode_address S)) d = Inr d'"
    and 2: "list_all2 (\<lambda>(k, v) (k', w). k' = k \<and> (json_ok w \<and> ?f (decode_address S) k w = Inr v)) d d'"
    by blast
  have "list_all (\<lambda>(k, w). json_ok w) d'" using 2 by (rule list_all2_values) blast
  moreover have "map_values (?f (decode_address S)) d' = Inr d"
    by (rule map_values_back, rule list_all2_mono [OF 2]) auto
  ultimately show ?thesis using 1 by (auto simp: convert_apar_def v)
qed

lemma apaa_encoded: "mapM_res b64encode_val (map PBytes bs) = Inr (map (\<lambda>b. PStr (b64encode b)) bs)"
  by (induction bs) simp_all

lemma apaa_decoded:
  "mapM_res (\<lambda>x. map_res PBytes (b64decode_val x)) (map (\<lambda>b. PStr (b64encode b)) bs) = Inr (map PBytes bs)"
  by (induction bs) simp_all

lemma sanitized_field:
  assumes law: "sdk_address_law S" and ok: "wire_field (k, v)"
  shows "\<exists>w. sanitize_field S k v = Inr w \<and> json_ok w \<and>
    (exact_field (k, v) \<longrightarrow> desanitize_field S k w = Inr v)"
proof -
  consider "k = ''apar''" | "k = ''apaa''" | "k \<in> set address_keys" "k \<noteq> ''apar''" "k \<noteq> ''apaa''"
    | "k \<notin> set address_keys" "k \<noteq> ''apar''" "k \<noteq> ''apaa''" by blast
  then show ?thesis
  proof cases
    case 1
    then have "asset_params v" using ok by (simp add: wire_field_def)
    from apar_sanitized [OF law this] obtain w where w: "convert_apar (encode_address S) v = Inr w"
      "json_ok w" "is_dict w" "convert_apar (decode_address S) w = Inr v" by blast
    moreover have "\<not> is_bytes v" using \<open>asset_params v\<close> by (cases v) auto
    ultimately show ?thesis
      by (cases w) (auto simp: 1 sanitize_field_def desanitize_field_def address_keys_def)
  next
    case 2
    then have "bytes_list v" using ok by (simp add: wire_field_def)
    then obtain bs where "v = PList (map PBytes bs)" by (rule bytes_list_cases)
    then show ?thesis
      by (simp add: 2 sanitize_field_def desanitize_field_def apaa_encoded apaa_decoded list_all_iff)
  next
    case 3
    then have a: "is_address v" using ok by (simp add: wire_field_def)
    then obtain b where b: "v = PBytes b" by (rule is_address_cases)
    from address_text [OF law a] obtain t where "encode_address S v = Inr (PStr t)"
      "decode_address S (PStr t) = Inr v" by blast
    with 3 b show ?thesis by (simp add: sanitize_field_def desanitize_field_def)
  next
    case 4
    then have "is_bytes v \<or> json_ok v" using ok by (simp add: wire_field_def)
    then show ?thesis
      using 4 by (cases v) (auto simp: sanitize_field_def desanitize_field_def exact_field_def desanitize_text_def)
  qed
qed

lemma sanitized_dict:
  assumes "sdk_address_law S" and "list_all wire_field d"
  shows "\<exists>d'. sanitize_byte_fields S d = Inr d' \<and> list_all2 (\<lambda>(k, v) (k', w). k' = k \<and>
    (json_ok w \<and> (exact_field (k, v) \<longrightarrow> desanitize_field S k w = Inr v))) d d'"
  unfolding sanitize_byte_fields_def
  by (rule map_values_steps [OF assms(2)]) (rule sanitized_field [OF assms(1)])

text \<open>
  \<open>sanitize_byte_fields\<close> returns on every dictionary of such fields; the result has the
  same keys and the JSON encoder accepts it.
\<close>

theorem sanitized_is_json:
  assumes "sdk_address_law S" and "list_all wire_field d"
  shows "\<exists>d'. sanitize_byte_fields S d = Inr d' \<and> dict_keys d' = dict_keys d \<and> json_ok (PDict d')"
proof -
  from sanitized_dict [OF assms] obtain d' where 1: "sanitize_byte_fields S d = Inr d'"
    and 2: "list_all2 (\<lambda>(k, v) (k', w). k' = k \<and>
      (json_ok w \<and> (exact_field (k, v) \<longrightarrow> desanitize_field S k w = Inr v))) d d'" by blast
  have "list_all (\<lambda>(k, w). json_ok w) d'" using 2 by (rule list_all2_values) blast
  with 1 list_all2_keys [OF 2] show ?thesis by simp
qed

definition sample_txn_dict :: pydict where
  "sample_txn_dict =
     [(''type'', PStr ''pay''), (''snd'', PBytes (replicate 32 7)), (''amt'', PInt 5),
      (''gh'', PBytes [1, 2]), (''apaa'', PList [PBytes [0, 255], PBytes []]),
      (''apar'', PDict [(''t'', PInt 9), (''r'', PBytes (replicate 32 3))])]"

lemma sample_txn_wire: "list_all wire_field sample_txn_dict"
  by (simp add: sample_txn_dict_def wire_field_def address_keys_def asset_field_def asset_address_keys_def)

theorem sanitized_is_json_witness:
  "\<exists>d'. sanitize_byte_fields ref_sdk sample_txn_dict = Inr d' \<and>
     dict_keys d' = dict_keys sample_txn_dict \<and> json_ok (PDict d')"
  by (rule sanitized_is_json [OF ref_address_law sample_txn_wire])



text \<open>
  What the two functions miss. The accounts of an application call and the manager of an
  asset stay byte strings, and the JSON encoder refuses the result; the address to rekey to is
  written as base64 text but read as an address, which fails.
\<close>

theorem byte_fields_missed:
  assumes "sdk_address_law S" and "length b = 32"
  shows "bind_res (sanitize_byte_fields S [(''apat'', PList [PBytes b])]) (\<lambda>d. json_dumps L (PDict d)) = Inl TypeError \<and>
    bind_res (sanitize_byte_fields S [(''apar'', PDict [(''m'', PBytes b)])]) (\<lambda>d. json_dumps L (PDict d)) = Inl TypeError \<and>
    (\<exists>e. bind_res (sanitize_byte_fields S [(''rekey'', PBytes b)]) (desanitize_byte_fields S) = Inl e)"
proof -
  have "length (b64encode b) \<noteq> 58" using assms(2) by (simp add: b64encode_length)
  then obtain e where "decode_address S (PStr (b64encode b)) = Inl e"
    using assms(1) unfolding sdk_address_law_def by blast
  then have "desanitize_byte_fields S [(''rekey'', PStr (b64encode b))] = Inl e"
    by (simp add: desanitize_byte_fields_def map_values_def desanitize_field_def address_keys_def)
  then show ?thesis
    by (simp add: sanitize_byte_fields_def map_values_def sanitize_field_def address_keys_def
        convert_apar_def asset_address_keys_def json_dumps_def)
qed

theorem byte_fields_missed_witness:
  "bind_res (sanitize_byte_fields ref_sdk [(''apat'', PList [PBytes (replicate 32 1)])])
     (\<lambda>d. json_dumps default_layout (PDict d)) = Inl TypeError"
  using byte_fields_missed [OF ref_address_law, of "replicate 32 1" default_layout] by simp

section \<open>The transaction cell: properties\<close>

lemma compose_all_Cons:
  "pyk_subst_law P \<Longrightarrow> subst_apply P (foldl (subst_compose P) a ss) t = apply_of a (foldr apply_of ss t)"
proof (induction ss arbitrary: a t rule: rev_induct)
  case Nil
  then show ?case by (simp add: pyk_subst_law_def)
next
  case (snoc s ss)
  then have "subst_apply P (foldl (subst_compose P) a (ss @ [s])) t =
      subst_apply P (foldl (subst_compose P) a ss) (apply_of s t)"
    by (metis foldl_append foldl.simps pyk_subst_law_def)
  with snoc show ?case by simp
qed

text \<open>Substitutions into ground terms, one after the other, are the first that has the variable.\<close>

definition ground_range :: "subst \<Rightarrow> bool" where
  "ground_range s = list_all (\<lambda>(k, t). ground t) s"

lemma apply_of_apply: "ground_range b \<Longrightarrow> apply_of a (apply_of b t) = apply_of (b @ a) t"
proof (induction t)
  case (KVariable n srt)
  show ?case
  proof (cases "dict_get b n")
    case None
    then show ?thesis by (simp add: map_add_def)
  next
    case (Some u)
    then have "ground u" using KVariable by (auto simp: ground_range_def list_all_iff dest: map_of_SomeD)
    with Some show ?thesis by (simp add: apply_ground map_add_def)
  qed
qed simp_all

lemma foldr_apply_of:
  "list_all ground_range ss \<Longrightarrow> foldr apply_of ss t = apply_of (concat (rev ss)) t"
proof (induction ss arbitrary: t)
  case Nil
  have "apply_of [] t = t" for t by (induction t) (simp_all add: map_idI)
  then show ?case by simp
next
  case (Cons s ss)
  then have "ground_range (concat (rev ss))"
    by (auto simp: ground_range_def list_all_iff)
  with Cons show ?case by (simp add: apply_of_apply)
qed

lemma type_specific_type: "type_specific P S D txn ty = Inr r \<Longrightarrow> ty \<in> {PAYMENT_TXN, ASSETTRANSFER_TXN, APPCALL_TXN}"
  by (auto simp: type_specific_def split: if_splits)


definition sample_definition :: kdefinition where
  "sample_definition = \<lparr>empty_config = (\<lambda>s. KApply s [KVariable ''AMOUNT_CELL'' None]), init_config = KConst\<rparr>"

definition sample_payment :: pyval where
  "sample_payment = PObj ''PaymentTxn''
     [(''fee'', PInt 1000), (''first_valid_round'', PInt 1), (''last_valid_round'', PInt 9),
      (''genesis_hash'', PStr ''hash''), (''genesis_id'', PNone), (''sender'', PStr ZERO_ADDRESS),
      (''type'', PStr ''pay''), (''group'', PNone), (''lease'', PNone), (''rekey_to'', PNone),
      (''receiver'', PStr ZERO_ADDRESS), (''amt'', PTerm (KVariable ''AMOUNT'' None))]"

lemma ref_zero_address:
  "algorand_address_to_k_bytes ref_pyk ref_sdk (PStr ZERO_ADDRESS) = Inr (bytesToken ref_pyk (replicate 32 0))"
proof -
  have "decode_address ref_sdk (PStr ZERO_ADDRESS) = Inr (PBytes (replicate 32 0))"
    by (simp add: ref_sdk_def ZERO_ADDRESS_def zero_address_text_def)
  then show ?thesis
    by (simp add: algorand_address_to_k_bytes_def k_bytes_text_repr [OF ref_quote_law])
qed

lemma sample_payment_term:
  "\<exists>t. transaction_k_term ref_pyk ref_sdk D sample_payment ''0'' [] = Inr t"
  by (simp add: transaction_k_term_def header_entries_def eval_entries_def sample_payment_def attr_tvalue_def
      token_or_expr_def ref_zero_address rekey_token_def txn_type_text_def txn_type_to_type_enum_def
      type_specific_def pay_entries_def)


definition txn_type_names :: "string list" where
  "txn_type_names = [''unknown'', ''pay'', ''keyreg'', ''acfg'', ''axfer'', ''afrz'', ''appl'']"

text \<open>
  The transaction types have the numbers 0 to 6 in the order of the protocol, no other
  name has one, and a transaction of another type than the three supported ones is refused
  with a \<open>ValueError\<close> once its header is built.
\<close>

theorem txn_types:
  "map txn_type_to_type_enum txn_type_names = map Inr [0, 1, 2, 3, 4, 5, 6] \<and>
   (ty \<notin> set txn_type_names \<longrightarrow> txn_type_to_type_enum ty = Inl ValueError) \<and>
   (ty \<notin> {''pay'', ''axfer'', ''appl''} \<longrightarrow> type_specific P S D txn ty = Inl ValueError)"
  by (simp add: txn_type_to_type_enum_def txn_type_names_def type_specific_def)

theorem txn_types_witness:
  "txn_type_to_type_enum ''stpf'' = Inl ValueError \<and>
     type_specific ref_pyk ref_sdk sample_definition PNone ''stpf'' = Inl ValueError"
  using txn_types [of "''stpf''" ref_pyk ref_sdk sample_definition PNone] by (simp add: txn_type_names_def)

end
