(* ===== verification/Scenario.thy ===== *)
theory Scenario
  imports AlgodTransaction
begin

text \<open>
  \<open>kavm/scenario.py\<close>: the JSON simulation scenario. Accounts, applications and transactions
  are completed with default values, the TEAL programs they name or contain are collected
  under file names, and the scenario is checked to have its two stages.
\<close>

section \<open>Sorting a dictionary\<close>

text \<open>
  The loop of \<open>_sort_dict\<close> as it stands: a nested dictionary is stored sorted, and then the
  next statement stores the unsorted value over it.
\<close>

lemma size_dict_value: "(k, v) \<in> set d \<Longrightarrow> size v < size (PDict d)"
  by (induction d) auto

function sort_dict :: "pydict \<Rightarrow> pydict" where
  "sort_dict d = foldl (\<lambda>od (k, v).
     dict_set (case v of PDict sub \<Rightarrow> dict_set od k (PDict (sort_dict sub)) | _ \<Rightarrow> od) k v)
     [] (sorted_items d)"
  by pat_completeness auto
termination
  by (relation "measure (\<lambda>d. size (PDict d))")
     (auto simp del: pyval.size dest!: size_dict_value simp: sorted_items_def)

declare sort_dict.simps [simp del]

section \<open>Accounts and applications\<close>

definition inverted_attribute_map :: "sdk \<Rightarrow> string \<Rightarrow> (string, string) dict" where
  "inverted_attribute_map S c = dict_of_items (map (\<lambda>(k, v). (v, k)) (attribute_map S c))"

text \<open>\<open>{inverted_attribute_map[k]: v for k, v in d.items()}\<close>.\<close>

definition translate_keys :: "sdk \<Rightarrow> string \<Rightarrow> pydict \<Rightarrow> pydict res" where
  "translate_keys S c d = map_res dict_of_items (mapM_res (\<lambda>(k, v).
     map_res (\<lambda>a. (a, v)) (of_option KeyError (dict_get (inverted_attribute_map S c) k))) d)"

text \<open>\<open>if not d[k]: d[k] = v\<close>.\<close>

definition default_if_false :: "string \<Rightarrow> pyval \<Rightarrow> pydict \<Rightarrow> pydict res" where
  "default_if_false k v d =
     map_res (\<lambda>x. if py_true x then d else dict_set d k v) (dict_lookup d k)"

definition sanitize_app :: "sdk \<Rightarrow> pyval \<Rightarrow> pyval res" where
  "sanitize_app S app_dict =
     bind_res (bind_res (py_get app_dict ''params'') as_items) (\<lambda>params.
     bind_res (translate_keys S ''KAVMApplicationParams'' params) (\<lambda>translated.
     bind_res (py_get app_dict ''id'') (\<lambda>i.
     let app = dictify S (new_model S ''KAVMApplication''
           [(''id'', i), (''params'', new_model S ''KAVMApplicationParams'' translated)])
     in bind_res (dict_lookup app ''params'') (\<lambda>p.
        bind_res (py_get p ''global-state'') (\<lambda>gs.
        if py_true gs then Inr (PDict app)
        else map_res (\<lambda>p'. PDict (dict_set app ''params'' p')) (py_set p ''global-state'' (PList [])))))))"

definition sanitize_apps :: "sdk \<Rightarrow> pyval \<Rightarrow> pyval list res" where
  "sanitize_apps S apps_data = bind_res (py_iter apps_data) (mapM_res (sanitize_app S))"

definition sanitize_account :: "sdk \<Rightarrow> pyval \<Rightarrow> pydict res" where
  "sanitize_account S acc_dict =
     bind_res (as_items acc_dict) (\<lambda>d.
     bind_res (translate_keys S ''KAVMAccount'' d) (\<lambda>translated.
     let acc = dictify S (new_model S ''KAVMAccount'' translated) in
     bind_res (default_if_false ''auth-addr'' (PStr ZERO_ADDRESS) acc) (\<lambda>acc1.
     bind_res (dict_lookup acc1 ''created-apps'') (\<lambda>apps.
     bind_res (if py_true apps then map_res PList (sanitize_apps S apps) else Inr (PList [])) (\<lambda>apps'.
     bind_res (default_if_false ''created-assets'' (PList []) (dict_set acc1 ''created-apps'' apps')) (\<lambda>acc2.
     bind_res (default_if_false ''apps-local-state'' (PList []) acc2)
       (default_if_false ''assets'' (PList []))))))))"

definition sanitize_accounts :: "sdk \<Rightarrow> pyval \<Rightarrow> pydict list res" where
  "sanitize_accounts S accounts_data = bind_res (py_iter accounts_data) (mapM_res (sanitize_account S))"

section \<open>Transactions\<close>

definition header_defaults :: "(string \<times> pyval) list" where
  "header_defaults =
     [(''fv'', PInt 1), (''lv'', PInt 1001), (''gen'', PStr ''kteal''), (''gh'', PStr ''kteal''),
      (''fee'', PInt 1000), (''grp'', PStr ''dummy_grp''), (''note'', PStr []),
      (''rekey'', PStr ZERO_ADDRESS)]"

definition schema_defaults :: "(string \<times> pyval) list" where
  "schema_defaults = [(''nbs'', PInt 0), (''nui'', PInt 0)]"

text \<open>\<open>if not k in v: v[k] = x\<close> for a value, in turn.\<close>

definition fill_in :: "(string \<times> pyval) list \<Rightarrow> pyval \<Rightarrow> pyval res" where
  "fill_in kvs v = foldM_res (\<lambda>(k, x) w.
     bind_res (py_in k w) (\<lambda>b. if b then Inr w else py_set w k x)) kvs v"

text \<open>Application calls: the keys before the global schema, and those after it.\<close>

definition appl_defaults_1 :: "(string \<times> pyval) list" where
  "appl_defaults_1 = [(''apat'', PList []), (''apfa'', PList []), (''apas'', PList [])]"

definition appl_defaults_2 :: "(string \<times> pyval) list" where
  "appl_defaults_2 =
     [(''apls'', PDict schema_defaults), (''apep'', PInt 0), (''apap'', PNone), (''apsu'', PNone),
      (''apbx'', PList [])]"

definition insert_appl_defaults :: "pydict \<Rightarrow> pydict res" where
  "insert_appl_defaults d =
     (let d1 = set_defaults [(''apaa'', PList []), (''apid'', PInt 0)] d;
          d2 = (if dict_get d1 ''apan'' \<in> {None, Some PNone} then dict_set d1 ''apan'' (PInt 0) else d1);
          d3 = set_defaults appl_defaults_1 d2
      in map_res (set_defaults appl_defaults_2)
        (case dict_get d3 ''apgs'' of
           None \<Rightarrow> Inr (dict_set d3 ''apgs'' (PDict schema_defaults))
         | Some gs \<Rightarrow> map_res (dict_set d3 ''apgs'') (fill_in schema_defaults gs)))"

definition insert_acfg_defaults :: "pydict \<Rightarrow> pydict res" where
  "insert_acfg_defaults d =
     (let d1 = set_default ''caid'' (PInt 0) d in
      bind_res (dict_lookup d1 ''apar'') (\<lambda>apar.
      bind_res (fill_in [(''am'', PStr []), (''df'', PBool False)] apar) (\<lambda>apar1.
      bind_res (py_in ''m'' apar1) (\<lambda>b.
      map_res (dict_set d1 ''apar'')
        (if b then Inr apar1 else bind_res (py_get apar1 ''c'') (py_set apar1 ''m''))))))"

definition axfer_defaults :: "(string \<times> pyval) list" where
  "axfer_defaults =
     [(''xaid'', PInt 0), (''aamt'', PInt 0), (''asnd'', PNone), (''arcv'', PNone), (''aclose'', PNone)]"

definition insert_defaults :: "pydict \<Rightarrow> pydict res" where
  "insert_defaults txn_dict =
     (let d = set_defaults header_defaults txn_dict in
      bind_res (dict_lookup d ''type'') (\<lambda>ty.
      if ty = PStr ''appl'' then insert_appl_defaults d
      else if ty = PStr ''acfg'' then insert_acfg_defaults d
      else if ty = PStr ''axfer'' then Inr (set_defaults axfer_defaults d)
      else Inr d))"

definition sanitize_transaction :: "pydict \<Rightarrow> pydict res" where
  "sanitize_transaction txn_dict = map_res sort_dict (insert_defaults txn_dict)"

text \<open>A transaction that is no dictionary fails at the first membership test or assignment.\<close>

definition sanitize_transactions :: "pyval \<Rightarrow> pydict list res" where
  "sanitize_transactions txn_data = bind_res (py_iter txn_data)
     (mapM_res (\<lambda>v. case v of PDict d \<Rightarrow> sanitize_transaction d | _ \<Rightarrow> Inl TypeError))"

section \<open>TEAL programs\<close>

text \<open>
  The world outside: reading a file of the TEAL directory, the hash, and the decompiler the
  caller may pass. The default decompiler decodes base64.
\<close>

record teal_env =
  read_teal :: "string \<Rightarrow> string res"
  sha512_hexdigest :: "bytes \<Rightarrow> string"
  teal_decompiler :: "(string \<Rightarrow> string res) option"

definition decompile :: "teal_env \<Rightarrow> string \<Rightarrow> string res" where
  "decompile E src = (case teal_decompiler E of
       Some f \<Rightarrow> f src
     | None \<Rightarrow> bind_res (b64decode src) decode_ascii)"

fun extract_teal_program :: "teal_env \<Rightarrow> pyval \<Rightarrow> (string \<times> string) res" where
  "extract_teal_program E (PStr s) =
     (if ends_with ''.teal'' s then map_res (\<lambda>src. (s, src)) (read_teal E s)
      else map_res (\<lambda>src. (sha512_hexdigest E (encode_utf8 src) @ ''.teal'', src)) (decompile E s))"
| "extract_teal_program E _ = Inl AttributeError"

type_synonym programs = "(string, string) dict"

text \<open>A field that holds a program is replaced by the program's name.\<close>

definition extract_field :: "teal_env \<Rightarrow> string \<Rightarrow> pydict \<times> programs \<Rightarrow> (pydict \<times> programs) res" where
  "extract_field E f = (\<lambda>(d, progs). bind_res (dict_lookup d f) (\<lambda>x.
     if py_true x then
       map_res (\<lambda>(name, src). (dict_set d f (PStr name), dict_set progs name src)) (extract_teal_program E x)
     else Inr (d, progs)))"

definition extract_app :: "teal_env \<Rightarrow> pyval \<Rightarrow> programs \<Rightarrow> (pyval \<times> programs) res" where
  "extract_app E app progs =
     bind_res (as_items app) (\<lambda>a.
     bind_res (bind_res (dict_lookup a ''params'') as_items) (\<lambda>p.
     bind_res (extract_field E ''approval-program'' (p, progs)) (\<lambda>st.
     map_res (\<lambda>(p', progs'). (PDict (dict_set a ''params'' (PDict p')), progs'))
       (extract_field E ''clear-state-program'' st))))"

text \<open>A loop that rewrites the elements of a list and threads the programs through.\<close>

fun thread_list :: "('a \<Rightarrow> programs \<Rightarrow> ('a \<times> programs) res) \<Rightarrow> 'a list \<Rightarrow> programs \<Rightarrow> ('a list \<times> programs) res" where
  "thread_list f [] p = Inr ([], p)"
| "thread_list f (x # xs) p =
     bind_res (f x p) (\<lambda>(y, p'). map_res (\<lambda>(ys, p''). (y # ys, p'')) (thread_list f xs p'))"

definition extract_account :: "teal_env \<Rightarrow> pydict \<Rightarrow> programs \<Rightarrow> (pydict \<times> programs) res" where
  "extract_account E acc progs =
     (case dict_get acc ''created-apps'' of
        None \<Rightarrow> Inr (acc, progs)
      | Some apps \<Rightarrow>
          if py_true apps then
            bind_res (py_iter apps) (\<lambda>xs.
            map_res (\<lambda>(ys, progs'). (dict_set acc ''created-apps'' (PList ys), progs'))
              (thread_list (extract_app E) xs progs))
          else Inr (acc, progs))"

definition extract_if_present ::
    "teal_env \<Rightarrow> string \<Rightarrow> pydict \<times> programs \<Rightarrow> (pydict \<times> programs) res" where
  "extract_if_present E f = (\<lambda>(d, progs).
     if dict_get d f = None then Inr (d, progs) else extract_field E f (d, progs))"

definition extract_txn :: "teal_env \<Rightarrow> pydict \<Rightarrow> programs \<Rightarrow> (pydict \<times> programs) res" where
  "extract_txn E txn progs =
     bind_res (extract_if_present E ''apap'' (txn, progs)) (extract_if_present E ''apsu'')"

section \<open>The scenario\<close>

record scenario =
  stages :: "pyval list"
  teal_programs :: programs

text \<open>
  A stage's data: the check of its type, whose failures become a \<open>ValueError\<close>, then the named
  list. \<open>rewrap\<close> is \<open>except (\<dots>) as e: raise ValueError(\<dots>) from e\<close>.
\<close>

definition rewrap :: "exn set \<Rightarrow> 'a res \<Rightarrow> 'a res" where
  "rewrap es m = catch_res m (\<lambda>e. e \<in> es) (\<lambda>_. Inl ValueError)"

definition check_stage :: "string \<Rightarrow> pyval \<Rightarrow> unit res" where
  "check_stage ty stage = bind_res (py_get stage ''stage-type'')
     (\<lambda>t. guard_res (t = PStr ty) AssertionError)"

definition stage_data :: "pyval \<Rightarrow> string \<Rightarrow> pyval res" where
  "stage_data stage k = bind_res (py_get stage ''data'') (\<lambda>d. py_get d k)"

text \<open>\<open>stage['data'][k] = v\<close>.\<close>

definition put_stage_data :: "pyval \<Rightarrow> string \<Rightarrow> pyval \<Rightarrow> pyval res" where
  "put_stage_data stage k v = bind_res (py_get stage ''data'') (\<lambda>d.
     bind_res (py_set d k v) (py_set stage ''data''))"

definition setup_stage :: "sdk \<Rightarrow> teal_env \<Rightarrow> pyval \<Rightarrow> (pyval \<times> programs) res" where
  "setup_stage S E stages_val =
     bind_res (rewrap {KeyError} (py_index stages_val 0)) (\<lambda>s0.
     bind_res (rewrap {KeyError, AssertionError} (check_stage ''setup-network'' s0)) (\<lambda>_.
     bind_res (rewrap {KeyError} (stage_data s0 ''accounts'')) (\<lambda>accounts.
     bind_res (sanitize_accounts S accounts) (\<lambda>accs.
     bind_res (thread_list (extract_account E) accs []) (\<lambda>(accs', progs).
     map_res (\<lambda>s. (s, progs)) (put_stage_data s0 ''accounts'' (PList (map PDict accs'))))))))"

definition submit_stage :: "teal_env \<Rightarrow> pyval \<Rightarrow> programs \<Rightarrow> (pyval \<times> programs) res" where
  "submit_stage E stages_val progs =
     bind_res (rewrap {KeyError, AssertionError}
       (bind_res (py_index stages_val 1) (\<lambda>s1.
        map_res (\<lambda>_. s1) (check_stage ''submit-transactions'' s1)))) (\<lambda>s1.
     bind_res (stage_data s1 ''transactions'') (\<lambda>txns.
     bind_res (sanitize_transactions txns) (\<lambda>ts.
     bind_res (thread_list (extract_txn E) ts progs) (\<lambda>(ts', progs').
     map_res (\<lambda>s. (s, progs')) (put_stage_data s1 ''transactions'' (PList (map PDict ts')))))))"

definition scenario_of_value :: "sdk \<Rightarrow> teal_env \<Rightarrow> pyval \<Rightarrow> scenario res" where
  "scenario_of_value S E parsed =
     bind_res (py_get parsed ''stages'') (\<lambda>stages_val.
     bind_res (setup_stage S E stages_val) (\<lambda>(s0, progs).
     bind_res (submit_stage E stages_val progs) (\<lambda>(s1, progs').
     bind_res (as_list stages_val) (\<lambda>xs.
     if 2 < length xs then Inl ValueError
     else Inr \<lparr>stages = xs[0 := s0, 1 := s1], teal_programs = progs'\<rparr>))))"

definition from_json :: "sdk \<Rightarrow> teal_env \<Rightarrow> string \<Rightarrow> scenario res" where
  "from_json S E scenario_json_str =
     bind_res (json_loads scenario_json_str) (scenario_of_value S E)"

definition scenario_dictify :: "scenario \<Rightarrow> pydict" where
  "scenario_dictify sc = [(''stages'', PList (stages sc))]"

definition to_json :: "scenario \<Rightarrow> nat \<Rightarrow> string res" where
  "to_json sc n = json_dumps \<lparr>indent = Some n, sort_keys = True\<rparr> (PDict (scenario_dictify sc))"

section \<open>Sorting\<close>

lemma sort_dict_items: "sort_dict d = dict_of_items (sorted_items d)"
proof -
  have "(\<lambda>od (k, v). dict_set (case v of PDict sub \<Rightarrow> dict_set od k (PDict (sort_dict sub)) | _ \<Rightarrow> od) k v) =
      (\<lambda>(od :: pydict) (k, v). dict_set od k v)"
    by (intro ext) (auto split: pyval.splits)
  then show ?thesis by (simp only: sort_dict.simps [of d] dict_of_items_def)
qed

lemma sort_dict_sorted_items: "wf_dict d \<Longrightarrow> sort_dict d = sorted_items d"
  by (simp add: sort_dict_items dict_of_items_distinct)

lemma sorted_items_id: "sorted (dict_keys d) \<Longrightarrow> sorted_items d = d"
  by (simp add: sorted_items_def sort_key_id_if_sorted)

section \<open>Transactions completed with defaults\<close>

definition filled :: "(string \<times> pyval) list \<Rightarrow> pyval \<Rightarrow> bool" where
  "filled kvs v \<longleftrightarrow> (\<forall>(k, x) \<in> set kvs. py_in k v = Inr True)"

definition has_keys :: "(string \<times> pyval) list \<Rightarrow> pydict \<Rightarrow> bool" where
  "has_keys kvs d \<longleftrightarrow> (\<forall>(k, x) \<in> set kvs. dict_get d k \<noteq> None)"

lemma has_keys_simps [simp]:
  "has_keys [] d"
  "has_keys ((k, x) # kvs) d \<longleftrightarrow> dict_get d k \<noteq> None \<and> has_keys kvs d"
  by (auto simp: has_keys_def)

lemma has_keys_id: "has_keys kvs d \<Longrightarrow> set_defaults kvs d = d"
  by (rule set_defaults_id) (auto simp: has_keys_def)

lemma set_defaults_has_keys: "has_keys kvs (set_defaults kvs d)"
  unfolding has_keys_def dict_get_defaults
  by (force split: option.splits simp: map_of_eq_None_iff)

lemma has_keys_set: "has_keys kvs d \<Longrightarrow> has_keys kvs (dict_set d k v)"
  by (auto simp: has_keys_def dict_get_set)

lemma has_keys_defaults: "has_keys kvs d \<Longrightarrow> has_keys kvs (set_defaults kvs' d)"
  by (auto simp: has_keys_def dict_get_defaults split: option.splits)

lemma has_keys_cong: "(\<And>k. dict_get d k = dict_get d' k) \<Longrightarrow> has_keys kvs d = has_keys kvs d'"
  by (auto simp: has_keys_def)

lemma py_set_in: "py_set w k x = Inr w' \<Longrightarrow> py_in k w' = Inr True"
  by (cases w) (auto simp: dict_get_set)

lemma py_set_keeps: "py_set w k x = Inr w' \<Longrightarrow> py_in k' w = Inr True \<Longrightarrow> py_in k' w' = Inr True"
  by (cases w) (auto simp: dict_get_set)

lemma fill_in_step_keeps:
  assumes "fill_in kvs v = Inr w" and "py_in k v = Inr True"
  shows "py_in k w = Inr True"
  using assms
proof (induction kvs arbitrary: v)
  case Nil
  then show ?case by (simp add: fill_in_def)
next
  case (Cons kv kvs)
  obtain k' x where kv: "kv = (k', x)" by (cases kv)
  from Cons show ?case unfolding kv
    by (auto simp: fill_in_def res_iff split: if_splits dest: py_set_keeps)
qed

lemma fill_in_filled: "fill_in kvs v = Inr w \<Longrightarrow> filled kvs w"
proof (induction kvs arbitrary: v)
  case Nil
  then show ?case by (simp add: filled_def)
next
  case (Cons kv kvs)
  obtain k x where kv: "kv = (k, x)" by (cases kv)
  with Cons.prems obtain u where u: "py_in k u = Inr True" "fill_in kvs u = Inr w"
    by (auto simp: fill_in_def res_iff split: if_splits dest: py_set_in)
  then show ?case
    using Cons.IH [OF u(2)] fill_in_step_keeps [OF u(2,1)] kv by (simp add: filled_def)
qed

lemma fill_in_id: "filled kvs v \<Longrightarrow> fill_in kvs v = Inr v"
  by (induction kvs) (auto simp: fill_in_def filled_def)

text \<open>What a transaction has after the defaults were inserted.\<close>

definition complete_appl :: "pydict \<Rightarrow> bool" where
  "complete_appl d \<longleftrightarrow>
     (has_keys [(''apaa'', PNone), (''apid'', PNone)] d \<and> has_keys appl_defaults_1 d \<and>
      has_keys appl_defaults_2 d \<and> dict_get d ''apan'' \<notin> {None, Some PNone} \<and>
      (\<exists>gs. dict_get d ''apgs'' = Some gs \<and> filled schema_defaults gs))"

definition complete_acfg :: "pydict \<Rightarrow> bool" where
  "complete_acfg d \<longleftrightarrow> dict_get d ''caid'' \<noteq> None \<and>
     (\<exists>apar. dict_get d ''apar'' = Some apar \<and> filled [(''am'', PNone), (''df'', PNone), (''m'', PNone)] apar)"

definition complete_txn :: "pydict \<Rightarrow> bool" where
  "complete_txn d \<longleftrightarrow> has_keys header_defaults d \<and>
     (\<exists>ty. dict_get d ''type'' = Some ty \<and>
        (ty = PStr ''appl'' \<longrightarrow> complete_appl d) \<and>
        (ty = PStr ''acfg'' \<longrightarrow> complete_acfg d) \<and>
        (ty = PStr ''axfer'' \<longrightarrow> has_keys axfer_defaults d))"


lemma filled_schema_defaults: "filled schema_defaults (PDict schema_defaults)"
  by (simp add: filled_def schema_defaults_def)

lemma appl_defaults_complete: "insert_appl_defaults d = Inr d' \<Longrightarrow> complete_appl d'"
proof -
  assume ins: "insert_appl_defaults d = Inr d'"
  define d1 where "d1 = set_defaults [(''apaa'', PList []), (''apid'', PInt 0)] d"
  define d2 where "d2 = (if dict_get d1 ''apan'' \<in> {None, Some PNone} then dict_set d1 ''apan'' (PInt 0) else d1)"
  define d3 where "d3 = set_defaults appl_defaults_1 d2"
  have "map_res (set_defaults appl_defaults_2)
        (case dict_get d3 ''apgs'' of
           None \<Rightarrow> Inr (dict_set d3 ''apgs'' (PDict schema_defaults))
         | Some gs \<Rightarrow> map_res (dict_set d3 ''apgs'') (fill_in schema_defaults gs)) = Inr d'"
    using ins unfolding insert_appl_defaults_def Let_def d1_def d2_def d3_def .
  then obtain gs where gs: "filled schema_defaults gs"
    and d': "d' = set_defaults appl_defaults_2 (dict_set d3 ''apgs'' gs)"
    using filled_schema_defaults
    by (cases "dict_get d3 ''apgs''") (auto simp: res_iff dest: fill_in_filled)
  have "has_keys [(''apaa'', PNone), (''apid'', PNone)] d1"
    using set_defaults_has_keys [of "[(''apaa'', PList []), (''apid'', PInt 0)]" d]
    by (simp add: d1_def)
  then have 1: "has_keys [(''apaa'', PNone), (''apid'', PNone)] d'"
    by (simp only: d' d3_def d2_def has_keys_defaults has_keys_set split: if_split) simp
  have 2: "has_keys appl_defaults_1 d'"
    by (simp only: d' d3_def has_keys_defaults has_keys_set set_defaults_has_keys)
  have "dict_get d2 ''apan'' \<notin> {None, Some PNone}"
    by (auto simp: d2_def dict_get_set)
  then have 3: "dict_get d' ''apan'' \<notin> {None, Some PNone}"
    by (auto simp: d' d3_def dict_get_defaults dict_get_set split: option.splits)
  have 4: "dict_get d' ''apgs'' = Some gs"
    by (simp add: d' dict_get_defaults dict_get_set)
  from 1 2 3 4 gs show ?thesis
    using set_defaults_has_keys [of appl_defaults_2] by (auto simp: complete_appl_def d')
qed

lemma complete_appl_id: "complete_appl d \<Longrightarrow> insert_appl_defaults d = Inr d"
proof -
  assume c: "complete_appl d"
  then have "set_defaults [(''apaa'', PList []), (''apid'', PInt 0)] d = d"
    by (intro has_keys_id) (simp add: complete_appl_def)
  with c show ?thesis
    by (auto simp: insert_appl_defaults_def complete_appl_def Let_def has_keys_id fill_in_id dict_set_same
        simp del: set_defaults_simps)
qed

lemma acfg_defaults_complete: "insert_acfg_defaults d = Inr d' \<Longrightarrow> complete_acfg d'"
proof -
  assume ins: "insert_acfg_defaults d = Inr d'"
  define d1 where "d1 = set_default ''caid'' (PInt 0) d"
  from ins obtain apar apar1 b apar2 where
    1: "fill_in [(''am'', PStr []), (''df'', PBool False)] apar = Inr apar1"
    and b: "py_in ''m'' apar1 = Inr b"
    and 2: "(if b then Inr apar1 else bind_res (py_get apar1 ''c'') (py_set apar1 ''m'')) = Inr apar2"
    and d': "d' = dict_set d1 ''apar'' apar2"
    unfolding insert_acfg_defaults_def Let_def d1_def [symmetric] by (auto simp: res_iff)
  have "filled [(''am'', PStr []), (''df'', PBool False)] apar1" using 1 by (rule fill_in_filled)
  with b 2 have "filled [(''am'', PNone), (''df'', PNone), (''m'', PNone)] apar2"
    by (cases b) (auto simp: filled_def res_iff dest: py_set_in py_set_keeps)
  moreover have "dict_get d1 ''caid'' \<noteq> None"
    by (simp add: d1_def dict_get_default split: option.splits)
  ultimately show ?thesis by (simp add: complete_acfg_def d' dict_get_set)
qed

lemma complete_acfg_id: "complete_acfg d \<Longrightarrow> insert_acfg_defaults d = Inr d"
  by (auto simp: insert_acfg_defaults_def complete_acfg_def filled_def fill_in_def set_default_def dict_set_same)

lemma insert_defaults_complete:
  assumes "insert_defaults d = Inr d'"
  shows "complete_txn d'"
proof -
  define d1 where "d1 = set_defaults header_defaults d"
  have hd: "has_keys header_defaults d1" unfolding d1_def by (rule set_defaults_has_keys)
  from assms obtain ty where ty: "dict_get d1 ''type'' = Some ty"
    and r: "(if ty = PStr ''appl'' then insert_appl_defaults d1
      else if ty = PStr ''acfg'' then insert_acfg_defaults d1
      else if ty = PStr ''axfer'' then Inr (set_defaults axfer_defaults d1) else Inr d1) = Inr d'"
    unfolding insert_defaults_def Let_def d1_def [symmetric] by (auto simp: res_iff)
  show ?thesis
  proof -
    consider "ty = PStr ''appl''" | "ty = PStr ''acfg''" | "ty = PStr ''axfer''"
      | "ty \<notin> {PStr ''appl'', PStr ''acfg'', PStr ''axfer''}" by auto
    then show ?thesis
    proof cases
      case 1
      then have ins: "insert_appl_defaults d1 = Inr d'" using r by simp
      then have "dict_get d' k = dict_get d1 k" if "dict_get d1 k \<noteq> None" "k \<notin> {''apan'', ''apgs''}" for k
        using that by (auto simp: insert_appl_defaults_def Let_def res_iff dict_get_defaults dict_get_default dict_get_set
            split: option.splits if_splits)
      with hd ty 1 appl_defaults_complete [OF ins] show ?thesis
        by (auto simp: complete_txn_def header_defaults_def)
    next
      case 2
      then have ins: "insert_acfg_defaults d1 = Inr d'" using r by simp
      then have "dict_get d' k = dict_get d1 k" if "dict_get d1 k \<noteq> None" "k \<noteq> ''apar''" for k
        using that by (auto simp: insert_acfg_defaults_def Let_def res_iff dict_get_default dict_get_set
            split: option.splits)
      with hd ty 2 acfg_defaults_complete [OF ins] show ?thesis
        by (auto simp: complete_txn_def header_defaults_def)
    next
      case 3
      then show ?thesis using r hd ty set_defaults_has_keys [of axfer_defaults d1]
        by (auto simp: complete_txn_def has_keys_defaults dict_get_defaults)
    next
      case 4
      then show ?thesis using r hd ty by (auto simp: complete_txn_def)
    qed
  qed
qed

lemma complete_txn_id: "complete_txn d \<Longrightarrow> insert_defaults d = Inr d"
  by (auto simp: insert_defaults_def complete_txn_def Let_def has_keys_id complete_appl_id complete_acfg_id)

lemma complete_txn_cong:
  assumes "\<And>k. dict_get d k = dict_get d' k"
  shows "complete_txn d = complete_txn d'"
  using assms has_keys_cong [of d d', OF assms]
  by (simp add: complete_txn_def complete_appl_def complete_acfg_def)


lemma insert_appl_defaults_wf: "wf_dict d \<Longrightarrow> insert_appl_defaults d = Inr d' \<Longrightarrow> wf_dict d'"
  unfolding insert_appl_defaults_def Let_def
  by (elim map_res_Inr_iff [THEN iffD1, elim_format] exE conjE) (auto simp: res_iff split: option.splits)

lemma insert_acfg_defaults_wf: "wf_dict d \<Longrightarrow> insert_acfg_defaults d = Inr d' \<Longrightarrow> wf_dict d'"
  unfolding insert_acfg_defaults_def Let_def by (auto simp: res_iff simp del: if_split)

lemma insert_defaults_wf: "wf_dict d \<Longrightarrow> insert_defaults d = Inr d' \<Longrightarrow> wf_dict d'"
proof -
  assume d: "wf_dict d" and ins: "insert_defaults d = Inr d'"
  define d1 where "d1 = set_defaults header_defaults d"
  have d1: "wf_dict d1" using d by (simp only: d1_def wf_set_defaults)
  from ins obtain ty where "(if ty = PStr ''appl'' then insert_appl_defaults d1
      else if ty = PStr ''acfg'' then insert_acfg_defaults d1
      else if ty = PStr ''axfer'' then Inr (set_defaults axfer_defaults d1) else Inr d1) = Inr d'"
    unfolding insert_defaults_def Let_def d1_def [symmetric] by (auto simp only: bind_res_Inr_iff)
  with d1 show ?thesis
    by (auto simp del: set_defaults_simps dest: insert_appl_defaults_wf insert_acfg_defaults_wf split: if_splits)
qed

definition type_defaults :: "pyval \<Rightarrow> (string \<times> pyval) list" where
  "type_defaults ty = header_defaults @
     (if ty = PStr ''appl'' then [(''apaa'', PList []), (''apid'', PInt 0)] @ appl_defaults_1 @ appl_defaults_2
      else if ty = PStr ''acfg'' then [(''caid'', PInt 0)]
      else if ty = PStr ''axfer'' then axfer_defaults else [])"

lemma type_defaults_simps:
  "type_defaults (PStr ''appl'') = header_defaults @
     [(''apaa'', PList []), (''apid'', PInt 0)] @ appl_defaults_1 @ appl_defaults_2"
  "type_defaults (PStr ''acfg'') = header_defaults @ [(''caid'', PInt 0)]"
  "type_defaults (PStr ''axfer'') = header_defaults @ axfer_defaults"
  by (simp_all add: type_defaults_def)

text \<open>The first of two lookups that finds the key.\<close>

definition or_else :: "'a option \<Rightarrow> 'a option \<Rightarrow> 'a option" where
  "or_else x y = (case x of Some v \<Rightarrow> Some v | None \<Rightarrow> y)"

lemma or_else_simps [simp]:
  "or_else None y = y" "or_else (Some v) y = Some v" "or_else x None = x"
  by (auto simp: or_else_def split: option.splits)

lemma or_else_assoc: "or_else (or_else x y) z = or_else x (or_else y z)"
  by (cases x) simp_all

lemma map_of_append_or: "map_of (xs @ ys) k = or_else (map_of xs k) (map_of ys k)"
  by (cases "map_of xs k") (simp_all add: map_add_def)

lemma dict_get_defaults_or: "dict_get (set_defaults kvs d) k = or_else (dict_get d k) (map_of kvs k)"
  by (simp only: dict_get_defaults or_else_def)

lemma dict_get_default_or: "dict_get (set_default k' v d) k = or_else (dict_get d k) (map_of [(k', v)] k)"
  by (auto simp: dict_get_default or_else_def split: option.splits)

lemma insert_appl_defaults_get:
  assumes ins: "insert_appl_defaults d = Inr d'" and k: "k \<noteq> ''apan''" "k \<noteq> ''apgs''"
  shows "dict_get d' k = or_else (dict_get d k)
    (map_of ([(''apaa'', PList []), (''apid'', PInt 0)] @ appl_defaults_1 @ appl_defaults_2) k)"
proof -
  define d1 where "d1 = set_defaults [(''apaa'', PList []), (''apid'', PInt 0)] d"
  define d2 where "d2 = (if dict_get d1 ''apan'' \<in> {None, Some PNone} then dict_set d1 ''apan'' (PInt 0) else d1)"
  define d3 where "d3 = set_defaults appl_defaults_1 d2"
  have "map_res (set_defaults appl_defaults_2)
        (case dict_get d3 ''apgs'' of
           None \<Rightarrow> Inr (dict_set d3 ''apgs'' (PDict schema_defaults))
         | Some gs \<Rightarrow> map_res (dict_set d3 ''apgs'') (fill_in schema_defaults gs)) = Inr d'"
    using ins unfolding insert_appl_defaults_def Let_def d1_def d2_def d3_def .
  then obtain gs where "d' = set_defaults appl_defaults_2 (dict_set d3 ''apgs'' gs)"
    by (cases "dict_get d3 ''apgs''") (auto simp: res_iff)
  then have "dict_get d' k = or_else (dict_get d3 k) (map_of appl_defaults_2 k)"
    using k(2) by (simp only: dict_get_defaults_or dict_get_set if_False)
  moreover have "dict_get d2 k = dict_get d1 k"
    using k(1) by (simp add: d2_def dict_get_set)
  ultimately show ?thesis
    by (simp only: d3_def d1_def dict_get_defaults_or map_of_append_or or_else_assoc)
qed

lemma insert_acfg_defaults_get:
  assumes ins: "insert_acfg_defaults d = Inr d'" and k: "k \<noteq> ''apar''"
  shows "dict_get d' k = or_else (dict_get d k) (map_of [(''caid'', PInt 0)] k)"
proof -
  from ins obtain x where "d' = dict_set (set_default ''caid'' (PInt 0) d) ''apar'' x"
    unfolding insert_acfg_defaults_def Let_def by (auto simp: res_iff)
  then show ?thesis using k by (simp only: dict_get_set if_False dict_get_default_or)
qed

lemma insert_defaults_get:
  assumes "insert_defaults d = Inr d'" and ty: "dict_get d ''type'' = Some ty"
    and k: "k \<noteq> ''apan''" "k \<noteq> ''apgs''" "k \<noteq> ''apar''"
  shows "dict_get d' k = or_else (dict_get d k) (map_of (type_defaults ty) k)"
proof -
  define d1 where "d1 = set_defaults header_defaults d"
  have d1: "dict_get d1 k = or_else (dict_get d k) (map_of header_defaults k)" for k
    by (simp only: d1_def dict_get_defaults_or)
  then have ty1: "dict_get d1 ''type'' = Some ty" using ty by simp
  have r: "(if ty = PStr ''appl'' then insert_appl_defaults d1
      else if ty = PStr ''acfg'' then insert_acfg_defaults d1
      else if ty = PStr ''axfer'' then Inr (set_defaults axfer_defaults d1) else Inr d1) = Inr d'"
    using assms(1) ty1 unfolding insert_defaults_def Let_def d1_def [symmetric] by simp
  consider "ty = PStr ''appl''" | "ty = PStr ''acfg''" | "ty = PStr ''axfer''"
    | "ty \<notin> {PStr ''appl'', PStr ''acfg'', PStr ''axfer''}" by auto
  then show ?thesis
  proof cases
    case 1
    then have "insert_appl_defaults d1 = Inr d'" using r by simp
    from insert_appl_defaults_get [OF this k(1,2)] show ?thesis
      using 1 by (simp only: d1 type_defaults_simps map_of_append_or or_else_assoc)
  next
    case 2
    then have "insert_acfg_defaults d1 = Inr d'" and "ty \<noteq> PStr ''appl''" using r by simp_all
    with insert_acfg_defaults_get [OF this(1) k(3)] show ?thesis
      using 2 by (simp only: d1 type_defaults_simps map_of_append_or or_else_assoc)
  next
    case 3
    then have "d' = set_defaults axfer_defaults d1" using r by simp
    moreover have "ty \<noteq> PStr ''appl''" "ty \<noteq> PStr ''acfg''" using 3 by simp_all
    ultimately show ?thesis
      using 3 by (simp only: d1 dict_get_defaults_or type_defaults_simps map_of_append_or or_else_assoc)
  next
    case 4
    then have "d' = d1" using r by simp
    with 4 show ?thesis by (simp add: d1 type_defaults_def)
  qed
qed

lemma sanitize_transaction_sorted:
  "wf_dict d \<Longrightarrow> sanitize_transaction d = Inr d' \<Longrightarrow>
     \<exists>e. insert_defaults d = Inr e \<and> wf_dict e \<and> d' = sorted_items e"
  by (auto simp: sanitize_transaction_def res_iff sort_dict_sorted_items insert_defaults_wf)

section \<open>Programs\<close>

text \<open>A field is closed when a program it holds is the name of a collected program.\<close>

definition field_closed :: "programs \<Rightarrow> string \<Rightarrow> pydict \<Rightarrow> bool" where
  "field_closed progs f d \<longleftrightarrow> (\<forall>x. dict_get d f = Some x \<longrightarrow> py_true x \<longrightarrow>
     (\<exists>n. x = PStr n \<and> n \<in> set (dict_keys progs)))"

definition programs_ok :: "programs \<Rightarrow> bool" where
  "programs_ok progs \<longleftrightarrow> wf_dict progs \<and> list_all (ends_with ''.teal'') (dict_keys progs)"

definition extends :: "programs \<Rightarrow> programs \<Rightarrow> bool" where
  "extends p q \<longleftrightarrow> set (dict_keys p) \<subseteq> set (dict_keys q) \<and> (programs_ok p \<longrightarrow> programs_ok q)"

lemma extends_refl [simp]: "extends p p"
  by (simp add: extends_def)

lemma extends_trans: "extends p q \<Longrightarrow> extends q r \<Longrightarrow> extends p r"
  by (auto simp: extends_def)

lemma field_closed_extends: "field_closed p f d \<Longrightarrow> extends p q \<Longrightarrow> field_closed q f d"
  unfolding field_closed_def extends_def by blast

lemma field_closed_cong: "dict_get d f = dict_get d' f \<Longrightarrow> field_closed p f d = field_closed p f d'"
  by (simp add: field_closed_def)

lemma ends_with_append [simp]: "ends_with suf (s @ suf)"
proof -
  have "starts_with p (p @ t)" for p t by (induction p) auto
  then show ?thesis by (simp add: ends_with_def)
qed

lemma extract_name: "extract_teal_program E x = Inr (n, src) \<Longrightarrow> ends_with ''.teal'' n"
  by (cases x) (auto simp: res_iff split: if_splits)

lemma extract_field_closed:
  assumes "extract_field E f (d, progs) = Inr (d', progs')"
  shows "field_closed progs' f d' \<and> extends progs progs' \<and>
    (\<forall>g. g \<noteq> f \<longrightarrow> dict_get d' g = dict_get d g)"
proof -
  from assms obtain x where x: "dict_get d f = Some x"
    and r: "(if py_true x then
       map_res (\<lambda>(name, src). (dict_set d f (PStr name), dict_set progs name src)) (extract_teal_program E x)
     else Inr (d, progs)) = Inr (d', progs')"
    by (auto simp: extract_field_def res_iff)
  show ?thesis
  proof (cases "py_true x")
    case True
    with r obtain n src where n: "extract_teal_program E x = Inr (n, src)"
      and d': "d' = dict_set d f (PStr n)" and p': "progs' = dict_set progs n src"
      by (auto simp: res_iff)
    have "n \<in> set (dict_keys progs')" by (auto simp: p' dict_keys_set)
    moreover have "extends progs progs'"
      using extract_name [OF n] by (auto simp: extends_def programs_ok_def p' dict_keys_set)
    ultimately show ?thesis by (auto simp: field_closed_def d' dict_get_set)
  next
    case False
    with r x show ?thesis by (auto simp: field_closed_def)
  qed
qed

text \<open>
  A loop whose body closes its element and extends the programs closes every element: what
  was closed stays closed when programs are added.
\<close>

lemma thread_list_closed:
  assumes "thread_list f xs p = Inr (ys, q)"
    and "\<And>x p y q. f x p = Inr (y, q) \<Longrightarrow> C q y \<and> extends p q"
    and "\<And>p q y. C p y \<Longrightarrow> extends p q \<Longrightarrow> C q y"
  shows "(\<forall>y \<in> set ys. C q y) \<and> extends p q"
  using assms(1)
proof (induction xs arbitrary: p ys)
  case Nil
  then show ?case by simp
next
  case (Cons x xs)
  from Cons.prems obtain y p' zs where f: "f x p = Inr (y, p')"
    and rest: "thread_list f xs p' = Inr (zs, q)" and ys: "ys = y # zs"
    by (auto simp: res_iff)
  have y: "C p' y \<and> extends p p'" using f by (rule assms(2))
  have zs: "(\<forall>y \<in> set zs. C q y) \<and> extends p' q" using rest by (rule Cons.IH)
  have "C q y" by (rule assms(3) [OF y [THEN conjunct1] zs [THEN conjunct2]])
  moreover have "extends p q" by (rule extends_trans [OF y [THEN conjunct2] zs [THEN conjunct2]])
  ultimately show ?case using zs by (simp add: ys)
qed

definition app_closed :: "programs \<Rightarrow> pyval \<Rightarrow> bool" where
  "app_closed progs app \<longleftrightarrow> (\<exists>a p. app = PDict a \<and> dict_get a ''params'' = Some (PDict p) \<and>
     field_closed progs ''approval-program'' p \<and> field_closed progs ''clear-state-program'' p)"

definition account_closed :: "programs \<Rightarrow> pydict \<Rightarrow> bool" where
  "account_closed progs acc \<longleftrightarrow> (\<forall>apps. dict_get acc ''created-apps'' = Some apps \<longrightarrow> py_true apps \<longrightarrow>
     (\<exists>xs. apps = PList xs \<and> (\<forall>app \<in> set xs. app_closed progs app)))"

definition txn_closed :: "programs \<Rightarrow> pydict \<Rightarrow> bool" where
  "txn_closed progs t \<longleftrightarrow> field_closed progs ''apap'' t \<and> field_closed progs ''apsu'' t"

lemma extract_app_closed:
  assumes "extract_app E app p = Inr (app', q)"
  shows "app_closed q app' \<and> extends p q"
proof -
  from assms obtain a d d1 p1 d2 where
    1: "extract_field E ''approval-program'' (d, p) = Inr (d1, p1)"
    and 2: "extract_field E ''clear-state-program'' (d1, p1) = Inr (d2, q)"
    and app': "app' = PDict (dict_set a ''params'' (PDict d2))"
    by (auto simp: extract_app_def res_iff)
  note c1 = extract_field_closed [OF 1] and c2 = extract_field_closed [OF 2]
  have "field_closed q ''approval-program'' d1"
    by (rule field_closed_extends [OF _ c2 [THEN conjunct2, THEN conjunct1]]) (simp add: c1)
  moreover have "dict_get d2 ''approval-program'' = dict_get d1 ''approval-program''"
    using c2 by simp
  ultimately have "field_closed q ''approval-program'' d2"
    by (simp add: field_closed_def)
  with c1 c2 show ?thesis by (auto simp: app_closed_def app' dict_get_set intro: extends_trans)
qed

lemma app_closed_extends: "app_closed p app \<Longrightarrow> extends p q \<Longrightarrow> app_closed q app"
  by (auto simp: app_closed_def intro: field_closed_extends)

lemma account_closed_extends: "account_closed p acc \<Longrightarrow> extends p q \<Longrightarrow> account_closed q acc"
  by (fastforce simp: account_closed_def intro: app_closed_extends)

lemma txn_closed_extends: "txn_closed p t \<Longrightarrow> extends p q \<Longrightarrow> txn_closed q t"
  by (auto simp: txn_closed_def intro: field_closed_extends)

lemma extract_account_closed:
  assumes "extract_account E acc p = Inr (acc', q)"
  shows "account_closed q acc' \<and> extends p q"
proof (cases "\<exists>apps. dict_get acc ''created-apps'' = Some apps \<and> py_true apps")
  case True
  with assms obtain xs ys where "thread_list (extract_app E) xs p = Inr (ys, q)"
    and acc': "acc' = dict_set acc ''created-apps'' (PList ys)"
    by (auto simp: extract_account_def res_iff)
  from this(1) have "(\<forall>y \<in> set ys. app_closed q y) \<and> extends p q"
    by (rule thread_list_closed [where C = app_closed]) (rule extract_app_closed app_closed_extends; assumption)+
  with acc' show ?thesis by (simp add: account_closed_def dict_get_set)
next
  case False
  with assms show ?thesis
    by (auto simp: extract_account_def account_closed_def split: option.splits)
qed

lemma extract_if_present_closed:
  assumes "extract_if_present E f (d, p) = Inr (d', q)"
  shows "field_closed q f d' \<and> extends p q \<and> (\<forall>g. g \<noteq> f \<longrightarrow> dict_get d' g = dict_get d g)"
  using assms extract_field_closed [of E f d p d' q]
  by (auto simp: extract_if_present_def field_closed_def split: if_splits)

lemma extract_txn_closed:
  assumes "extract_txn E t p = Inr (t', q)"
  shows "txn_closed q t' \<and> extends p q"
proof -
  from assms obtain t1 p1 where 1: "extract_if_present E ''apap'' (t, p) = Inr (t1, p1)"
    and 2: "extract_if_present E ''apsu'' (t1, p1) = Inr (t', q)"
    by (auto simp: extract_txn_def res_iff)
  note c1 = extract_if_present_closed [OF 1] and c2 = extract_if_present_closed [OF 2]
  have "field_closed q ''apap'' t1"
    by (rule field_closed_extends [OF _ c2 [THEN conjunct2, THEN conjunct1]]) (simp add: c1)
  moreover have "dict_get t' ''apap'' = dict_get t1 ''apap''" using c2 by simp
  ultimately have "field_closed q ''apap'' t'" by (simp add: field_closed_def)
  with c1 c2 show ?thesis by (auto simp: txn_closed_def intro: extends_trans)
qed

lemma put_stage_data_get: "put_stage_data s k v = Inr s' \<Longrightarrow> stage_data s' k = Inr v"
  by (cases s) (auto simp: put_stage_data_def stage_data_def res_iff dict_get_set
      elim!: py_set.elims split: if_splits)

lemma put_stage_data_type:
  "put_stage_data s k v = Inr s' \<Longrightarrow> py_get s' ''stage-type'' = py_get s ''stage-type''"
  by (cases s) (auto simp: put_stage_data_def res_iff dict_lookup_def dict_get_set)

lemma check_stage_get: "check_stage ty s = Inr u \<longleftrightarrow> py_get s ''stage-type'' = Inr (PStr ty)"
  by (auto simp: check_stage_def res_iff)

lemma rewrap_Inr [simp]: "rewrap es m = Inr x \<longleftrightarrow> m = Inr x"
  by (cases m) (auto simp: rewrap_def)

lemma setup_stage_result:
  assumes "setup_stage S E sv = Inr (s0, p)"
  shows "py_get s0 ''stage-type'' = Inr (PStr ''setup-network'') \<and>
    (\<exists>accs. stage_data s0 ''accounts'' = Inr (PList (map PDict accs)) \<and> (\<forall>a \<in> set accs. account_closed p a)) \<and>
    programs_ok p"
proof -
  from assms obtain s accs accs' where c: "check_stage ''setup-network'' s = Inr ()"
    and t: "thread_list (extract_account E) accs [] = Inr (accs', p)"
    and put: "put_stage_data s ''accounts'' (PList (map PDict accs')) = Inr s0"
    by (auto simp: setup_stage_def res_iff)
  have "(\<forall>a \<in> set accs'. account_closed p a) \<and> extends [] p"
    by (rule thread_list_closed [OF t, where C = account_closed])
      (rule extract_account_closed account_closed_extends; assumption)+
  then show ?thesis
    using c put_stage_data_get [OF put] put_stage_data_type [OF put]
    by (auto simp: check_stage_get extends_def programs_ok_def)
qed

lemma submit_stage_result:
  assumes "submit_stage E sv p = Inr (s1, q)"
  shows "py_get s1 ''stage-type'' = Inr (PStr ''submit-transactions'') \<and>
    (\<exists>ts. stage_data s1 ''transactions'' = Inr (PList (map PDict ts)) \<and> (\<forall>t \<in> set ts. txn_closed q t)) \<and>
    extends p q"
proof -
  from assms obtain s ts ts' where c: "check_stage ''submit-transactions'' s = Inr ()"
    and t: "thread_list (extract_txn E) ts p = Inr (ts', q)"
    and put: "put_stage_data s ''transactions'' (PList (map PDict ts')) = Inr s1"
    by (auto simp: submit_stage_def res_iff)
  have "(\<forall>a \<in> set ts'. txn_closed q a) \<and> extends p q"
    by (rule thread_list_closed [OF t, where C = txn_closed])
      (rule extract_txn_closed txn_closed_extends; assumption)+
  then show ?thesis
    using c put_stage_data_get [OF put] put_stage_data_type [OF put] by (auto simp: check_stage_get)
qed

text \<open>A scenario that names no program it does not carry.\<close>

definition scenario_ok :: "scenario \<Rightarrow> bool" where
  "scenario_ok sc \<longleftrightarrow> (\<exists>s0 s1 accs ts. stages sc = [s0, s1] \<and>
     py_get s0 ''stage-type'' = Inr (PStr ''setup-network'') \<and>
     py_get s1 ''stage-type'' = Inr (PStr ''submit-transactions'') \<and>
     stage_data s0 ''accounts'' = Inr (PList (map PDict accs)) \<and>
     stage_data s1 ''transactions'' = Inr (PList (map PDict ts)) \<and>
     (\<forall>a \<in> set accs. account_closed (teal_programs sc) a) \<and>
     (\<forall>t \<in> set ts. txn_closed (teal_programs sc) t) \<and>
     programs_ok (teal_programs sc))"

lemma scenario_of_value_ok:
  assumes "scenario_of_value S E v = Inr sc"
  shows "scenario_ok sc"
proof -
  from assms obtain xs s0 p s1 q where s0: "setup_stage S E (PList xs) = Inr (s0, p)"
    and s1: "submit_stage E (PList xs) p = Inr (s1, q)" and len: "\<not> 2 < length xs"
    and sc: "sc = \<lparr>stages = xs[0 := s0, 1 := s1], teal_programs = q\<rparr>"
    by (auto simp: scenario_of_value_def res_iff split: if_splits elim!: as_list.elims)
  have "1 < length xs"
    using s1 by (auto simp: submit_stage_def res_iff split: if_splits)
  then have "length xs = Suc (Suc 0)" using len by simp
  then obtain a b where "xs = [a, b]" by (auto simp only: length_Suc_conv length_0_conv)
  then have st: "stages sc = [s0, s1]" by (simp add: sc)
  note r0 = setup_stage_result [OF s0] and r1 = submit_stage_result [OF s1]
  have "\<forall>a. account_closed p a \<longrightarrow> account_closed q a"
    using r1 account_closed_extends by blast
  moreover have "programs_ok q" using r0 r1 by (simp add: extends_def)
  ultimately show ?thesis using r0 r1 st unfolding scenario_ok_def sc by fastforce
qed

section \<open>Properties\<close>

subsection \<open>Sorting\<close>

lemma map_values_id:
  "xs = map (\<lambda>(k, v). (k, f v)) xs \<longleftrightarrow> list_all (\<lambda>(k, v). f v = v) xs"
  by (induction xs) auto

lemma mapM_res_all:
  "(\<And>x. x \<in> set xs \<Longrightarrow> f x = Inr (g x)) \<Longrightarrow> mapM_res f xs = Inr (map g xs)"
  by (induction xs) simp_all

text \<open>
  \<open>_sort_dict\<close> sorts the top level of a dictionary and keeps its values as they were:
  a dictionary inside stays unsorted, so the result is the deeply sorted dictionary only if
  nothing inside needed sorting.
\<close>

theorem sort_dict_shallow:
  assumes "wf_dict d"
  shows "sort_dict d = sorted_items d \<and>
    (PDict (sort_dict d) = deep_sort (PDict d) \<longleftrightarrow> list_all (\<lambda>(k, v). deep_sort v = v) d)"
proof -
  have "list_all (\<lambda>(k, v). deep_sort v = v) (sorted_items d) \<longleftrightarrow> list_all (\<lambda>(k, v). deep_sort v = v) d"
    by (simp only: list_all_iff sorted_items_set)
  then show ?thesis
    using assms map_values_id [of "sorted_items d" deep_sort]
    by (simp only: sort_dict_sorted_items sorted_items_map deep_sort.simps pyval.inject simp_thms)
qed

theorem sort_dict_shallow_witness:
  "sort_dict [(''y'', PInt 1), (''x'', PDict [(''b'', PInt 2), (''a'', PInt 3)])] =
     [(''x'', PDict [(''b'', PInt 2), (''a'', PInt 3)]), (''y'', PInt 1)]"
  using sort_dict_shallow [of "[(''y'', PInt 1), (''x'', PDict [(''b'', PInt 2), (''a'', PInt 3)])]"]
  by (simp add: wf_dict_def sorted_items_def)

subsection \<open>Transactions\<close>

text \<open>
  \<open>sanitize_transaction\<close> keeps every field the transaction has, fills in the defaults of
  the header and of the transaction's type where the field is missing, and adds nothing else
  (the on-completion number, the global schema and the asset parameters, which it looks into,
  are apart).
\<close>

theorem sanitize_transaction_fields:
  assumes "wf_dict d" and "sanitize_transaction d = Inr d'" and "dict_get d ''type'' = Some ty"
    and "k \<noteq> ''apan''" and "k \<noteq> ''apgs''" and "k \<noteq> ''apar''"
  shows "dict_get d' k = (case dict_get d k of Some v \<Rightarrow> Some v | None \<Rightarrow> map_of (type_defaults ty) k)"
proof -
  from sanitize_transaction_sorted [OF assms(1,2)] obtain e
    where "insert_defaults d = Inr e" "wf_dict e" "d' = sorted_items e" by blast
  then show ?thesis
    using insert_defaults_get [of d e ty k] assms(3-6) by (simp add: dict_get_sorted or_else_def)
qed

definition sample_appl :: pydict where
  "sample_appl = [(''type'', PStr ''appl''), (''apid'', PInt 7), (''apan'', PNone)]"

lemma sample_appl_ok: "\<exists>d'. sanitize_transaction sample_appl = Inr d'"
  by (simp add: sanitize_transaction_def insert_defaults_def insert_appl_defaults_def sample_appl_def
      Let_def set_default_def header_defaults_def appl_defaults_1_def)

theorem sanitize_transaction_fields_witness:
  "\<exists>d'. sanitize_transaction sample_appl = Inr d' \<and>
     dict_get d' ''apid'' = Some (PInt 7) \<and> dict_get d' ''fee'' = Some (PInt 1000) \<and> dict_get d' ''rcv'' = None"
proof -
  from sample_appl_ok obtain d' where d': "sanitize_transaction sample_appl = Inr d'" by blast
  have wf: "wf_dict sample_appl" and ty: "dict_get sample_appl ''type'' = Some (PStr ''appl'')"
    by (simp_all add: sample_appl_def wf_dict_def)
  have "dict_get d' k = or_else (dict_get sample_appl k) (map_of (type_defaults (PStr ''appl'')) k)"
    if "k \<noteq> ''apan''" "k \<noteq> ''apgs''" "k \<noteq> ''apar''" for k
    using sanitize_transaction_fields [OF wf d' ty that] by (simp add: or_else_def)
  with d' show ?thesis
    by (simp add: type_defaults_simps sample_appl_def header_defaults_def appl_defaults_1_def appl_defaults_2_def)
qed



text \<open>
  A transaction without a type is refused with a \<open>KeyError\<close>, and so is an asset
  configuration without parameters, or whose parameters name neither a manager nor a creator:
  the configurations that change or destroy an asset are not accepted.
\<close>

theorem sanitize_transaction_errors:
  "(dict_get d ''type'' = None \<longrightarrow> sanitize_transaction d = Inl KeyError) \<and>
   (dict_get d ''type'' = Some (PStr ''acfg'') \<and> dict_get d ''apar'' = None \<longrightarrow>
      sanitize_transaction d = Inl KeyError) \<and>
   (dict_get d ''type'' = Some (PStr ''acfg'') \<and> dict_get d ''apar'' = Some (PDict p) \<and>
      dict_get p ''m'' = None \<and> dict_get p ''c'' = None \<longrightarrow> sanitize_transaction d = Inl KeyError)"
proof -
  let ?d = "set_defaults header_defaults d"
  have get: "dict_get ?d k = dict_get d k" if "k \<notin> set (map fst header_defaults)" for k
    using that by (simp add: dict_get_defaults map_of_eq_None_iff [THEN iffD2] split: option.splits)
  have 1: "dict_get ?d ''type'' = dict_get d ''type''" "dict_get ?d ''apar'' = dict_get d ''apar''"
    by (rule get, simp add: header_defaults_def)+
  show ?thesis
    by (auto simp: sanitize_transaction_def insert_defaults_def insert_acfg_defaults_def Let_def 1
        dict_get_default fill_in_def dict_get_set split: option.splits)
qed

theorem sanitize_transaction_errors_witness:
  "sanitize_transaction [(''type'', PStr ''acfg''), (''caid'', PInt 5)] = Inl KeyError"
  using sanitize_transaction_errors [of "[(''type'', PStr ''acfg''), (''caid'', PInt 5)]"] by simp

subsection \<open>Accounts\<close>

lemma inverted_map_get:
  assumes "sdk_model_law S"
  shows "dict_get (inverted_attribute_map S c) j = Some a \<longleftrightarrow> (a, j) \<in> set (attribute_map S c)"
proof -
  have d: "distinct (map snd (attribute_map S c))" using assms by (simp add: sdk_model_law_def)
  then have "wf_dict (map (\<lambda>(k, v). (v, k)) (attribute_map S c))"
    by (simp add: wf_dict_def comp_def case_prod_beta)
  then show ?thesis
    by (auto simp: inverted_attribute_map_def dict_of_items_distinct wf_dict_def)
qed

lemma mapM_first_error:
  assumes err: "\<And>x e. f x = Inl e \<Longrightarrow> e = err"
    and "x \<in> set xs" and fx: "f x = Inl err"
  shows "mapM_res f xs = Inl err"
  using assms(2)
proof (induction xs)
  case (Cons y ys)
  show ?case
  proof (cases "f y")
    case (Inl e)
    then have "e = err" by (rule err)
    with Inl show ?thesis by simp
  next
    case (Inr z)
    with fx have "x \<noteq> y" by auto
    with Cons Inr show ?thesis by simp
  qed
qed simp

lemma translate_unknown_key:
  assumes "sdk_model_law S" and "k \<in> set (dict_keys d)" and "k \<notin> snd ` set (attribute_map S c)"
  shows "translate_keys S c d = Inl KeyError"
proof -
  from assms(2) obtain v where kv: "(k, v) \<in> set d" by auto
  have "dict_get (inverted_attribute_map S c) k = None"
    using assms(3) inverted_map_get [OF assms(1), of c k] by (metis image_eqI not_None_eq snd_conv)
  then show ?thesis
    unfolding translate_keys_def
    by (subst mapM_first_error [OF _ kv]) (auto simp: res_iff of_option_def split: option.splits)
qed

lemma translate_known_keys:
  assumes "sdk_model_law S" and "wf_dict d" and "set (dict_keys d) \<subseteq> snd ` set (attribute_map S c)"
  shows "\<exists>t. translate_keys S c d = Inr t \<and> (\<forall>(a, j) \<in> set (attribute_map S c). dict_get t a = dict_get d j)"
proof -
  let ?inv = "\<lambda>j. the (dict_get (inverted_attribute_map S c) j)"
  have m: "wf_dict (attribute_map S c)" "distinct (map snd (attribute_map S c))"
    using assms(1) by (simp_all add: sdk_model_law_def)
  have inv: "dict_get (inverted_attribute_map S c) j = Some a" if "(a, j) \<in> set (attribute_map S c)" for a j
    using that inverted_map_get [OF assms(1)] by simp
  have in_map: "(?inv k, k) \<in> set (attribute_map S c)" if "k \<in> set (dict_keys d)" for k
  proof -
    have "k \<in> snd ` set (attribute_map S c)" by (rule subsetD [OF assms(3) that])
    then obtain a where "(a, k) \<in> set (attribute_map S c)" by auto
    with inv [OF this] show ?thesis by simp
  qed
  have "mapM_res (\<lambda>(k, v). map_res (\<lambda>a. (a, v)) (of_option KeyError (dict_get (inverted_attribute_map S c) k))) d =
      Inr (map (\<lambda>(k, v). (?inv k, v)) d)"
  proof (rule mapM_res_all)
    fix x
    assume "x \<in> set d"
    then have "fst x \<in> set (dict_keys d)" by simp
    then have "of_option KeyError (dict_get (inverted_attribute_map S c) (fst x)) = Inr (?inv (fst x))"
    proof -
      assume "fst x \<in> set (dict_keys d)"
      from in_map [OF this] obtain a where "(a, fst x) \<in> set (attribute_map S c)" by blast
      from inv [OF this] show ?thesis by simp
    qed
    then show "(case x of (k, v) \<Rightarrow> map_res (\<lambda>a. (a, v))
        (of_option KeyError (dict_get (inverted_attribute_map S c) k))) = Inr (case x of (k, v) \<Rightarrow> (?inv k, v))"
      by (simp only: case_prod_beta map_res_simps)
  qed
  moreover have inj: "inj_on ?inv (set (dict_keys d))"
  proof (rule inj_onI)
    fix k k'
    assume "k \<in> set (dict_keys d)" "k' \<in> set (dict_keys d)" "?inv k = ?inv k'"
    with in_map [of k] in_map [of k'] show "k = k'"
      using eq_key_imp_eq_value m(1) unfolding wf_dict_def by metis
  qed
  have keys: "dict_keys (map (\<lambda>(k, v). (?inv k, v)) d) = map ?inv (dict_keys d)"
    by (simp add: comp_def case_prod_beta)
  have wf: "wf_dict (map (\<lambda>(k, v). (?inv k, v)) d)"
    unfolding wf_dict_def keys using assms(2) inj by (simp only: wf_dict_def distinct_map [of ?inv])
  moreover have "dict_get (map (\<lambda>(k, v). (?inv k, v)) d) a = dict_get d j"
    if aj: "(a, j) \<in> set (attribute_map S c)" for a j
  proof (cases "dict_get d j")
    case None
    have "a \<noteq> ?inv k" if k: "k \<in> set (dict_keys d)" for k
    proof
      assume "a = ?inv k"
      with in_map [OF k] aj have "k = j"
        using eq_key_imp_eq_value m(1) unfolding wf_dict_def by metis
      with None k show False by (simp add: map_of_eq_None_iff)
    qed
    then have "a \<notin> set (dict_keys (map (\<lambda>(k, v). (?inv k, v)) d))" unfolding keys by auto
    then show ?thesis unfolding None dict_get_None_iff .
  next
    case (Some v)
    then have "(j, v) \<in> set d" by (rule map_of_SomeD)
    then have "(?inv j, v) \<in> set (map (\<lambda>(k, v). (?inv k, v)) d)" by force
    moreover have "?inv j = a" using inv [OF aj] by simp
    ultimately show ?thesis using wf Some by (simp add: wf_dict_def)
  qed
  ultimately show ?thesis by (auto simp: translate_keys_def dict_of_items_distinct)
qed

text \<open>The value of a field of a completed account.\<close>

definition account_default :: "string \<Rightarrow> pyval \<Rightarrow> pyval" where
  "account_default k v =
     (if py_true v then v
      else if k = ''auth-addr'' then PStr ZERO_ADDRESS
      else if k \<in> {''created-assets'', ''apps-local-state'', ''assets''} then PList []
      else v)"

lemma default_if_false_get:
  "dict_get d k = Some x \<Longrightarrow> default_if_false k v d = Inr (if py_true x then d else dict_set d k v)"
  by (simp add: default_if_false_def)

lemma default_get:
  "dict_get (if b then d else dict_set d k v) k' = (if k' = k \<and> \<not> b then Some v else dict_get d k')"
  by (simp add: dict_get_set)

lemma dictify_plain: "json_ok v \<Longrightarrow> dictify_value S v = v"
proof -
  have e: "json_ok x \<Longrightarrow> dictify_elem S x = x" for x by (cases x) (simp_all add: dictify_elem_def)
  show "json_ok v \<Longrightarrow> dictify_value S v = v"
    by (cases v) (auto simp: dictify_value_def e list_all_iff map_idI)
qed

definition account_names :: "string list" where
  "account_names = map snd account_attributes"

lemma account_object_get:
  assumes "sdk_model_law S" and "attribute_map S ''KAVMAccount'' = account_attributes"
    and "(a, j) \<in> set account_attributes" and "json_ok (value_or_None (dict_get kw a))"
  shows "dict_get (dictify S (new_model S ''KAVMAccount'' kw)) j = Some (value_or_None (dict_get kw a))"
proof -
  let ?items = "map (\<lambda>(a, j). (j, dictify_value S (value_or_None (dict_get kw a)))) account_attributes"
  have "dictify S (new_model S ''KAVMAccount'' kw) = ?items"
    using assms(1,2) by (simp add: sdk_model_law_def account_attributes_def)
  moreover have "wf_dict ?items"
    by (simp add: wf_dict_def account_attributes_def)
  moreover have "(j, dictify_value S (value_or_None (dict_get kw a))) \<in> set ?items" using assms(3) by force
  ultimately show ?thesis using assms(4) by (simp add: wf_dict_def dictify_plain)
qed

text \<open>
  \<open>sanitize_account\<close> refuses a dictionary with a key that is no JSON name of an account
  attribute. Otherwise its result, or its error, is decided by the created applications: they
  are completed one by one, and every other field has the given value or its default.
\<close>

theorem sanitize_account_fields:
  assumes "sdk_model_law S" and "attribute_map S ''KAVMAccount'' = account_attributes"
    and "wf_dict d" and "json_ok (PDict d)"
    and "apps = value_or_None (dict_get d ''created-apps'')"
  shows "if set (dict_keys d) \<subseteq> set account_names then
      (case (if py_true apps then sanitize_apps S apps else Inr []) of
         Inl e \<Rightarrow> sanitize_account S (PDict d) = Inl e
       | Inr apps' \<Rightarrow> \<exists>acc. sanitize_account S (PDict d) = Inr acc \<and>
           dict_get acc ''created-apps'' = Some (PList apps') \<and>
           (\<forall>k \<in> set account_names. k \<noteq> ''created-apps'' \<longrightarrow>
              dict_get acc k = Some (account_default k (value_or_None (dict_get d k)))))
    else sanitize_account S (PDict d) = Inl KeyError"
proof (cases "set (dict_keys d) \<subseteq> set account_names")
  case False
  then obtain k where "k \<in> set (dict_keys d)" "k \<notin> snd ` set (attribute_map S ''KAVMAccount'')"
    by (auto simp: account_names_def assms(2))
  with translate_unknown_key [OF assms(1) this] False show ?thesis by (simp add: sanitize_account_def)
next
  case True
  then have "set (dict_keys d) \<subseteq> snd ` set (attribute_map S ''KAVMAccount'')"
    by (simp add: account_names_def assms(2))
  from translate_known_keys [OF assms(1,3) this] obtain t
    where t: "translate_keys S ''KAVMAccount'' d = Inr t"
      and tg: "\<forall>(a, j) \<in> set account_attributes. dict_get t a = dict_get d j"
    by (auto simp: assms(2))
  define acc where "acc = dictify S (new_model S ''KAVMAccount'' t)"
  have ok: "json_ok (value_or_None (dict_get d k))" for k
    using assms(4) by (auto simp: value_or_None_def list_all_iff split: option.splits dest!: map_of_SomeD)
  have get: "dict_get acc k = Some (value_or_None (dict_get d k))" if k: "k \<in> set account_names" for k
  proof -
    from k obtain a where a: "(a, k) \<in> set account_attributes" by (auto simp: account_names_def)
    with tg have "dict_get t a = dict_get d k" by blast
    with account_object_get [OF assms(1,2) a, of t] ok [of k] show ?thesis by (simp add: acc_def)
  qed
  have names: "''auth-addr'' \<in> set account_names" "''created-apps'' \<in> set account_names"
    "''created-assets'' \<in> set account_names" "''apps-local-state'' \<in> set account_names"
    "''assets'' \<in> set account_names"
    by (simp_all add: account_names_def account_attributes_def)
  note g = names [THEN get]
  let ?r = "\<lambda>k v d'. if py_true (value_or_None (dict_get d k)) then d' else dict_set d' k v"
  let ?acc1 = "?r ''auth-addr'' (PStr ZERO_ADDRESS) acc"
  have acc1: "default_if_false ''auth-addr'' (PStr ZERO_ADDRESS) acc = Inr ?acc1"
    by (rule default_if_false_get [OF g(1)])
  have look: "dict_lookup ?acc1 ''created-apps'' = Inr apps"
    using g(2) assms(5) by (simp add: dict_get_set)
  have step: "sanitize_account S (PDict d) = bind_res (if py_true apps then sanitize_apps S apps else Inr [])
      (\<lambda>apps'. bind_res (default_if_false ''created-assets'' (PList []) (dict_set ?acc1 ''created-apps'' (PList apps')))
        (\<lambda>acc2. bind_res (default_if_false ''apps-local-state'' (PList []) acc2)
          (default_if_false ''assets'' (PList []))))"
    by (simp add: sanitize_account_def t Let_def acc_def [symmetric] acc1 look bind_map_res)
  show ?thesis
  proof (cases "if py_true apps then sanitize_apps S apps else Inr []")
    case (Inl e)
    then show ?thesis using True by (simp add: step)
  next
    case (Inr apps')
    let ?acc2 = "?r ''created-assets'' (PList []) (dict_set ?acc1 ''created-apps'' (PList apps'))"
    let ?acc3 = "?r ''apps-local-state'' (PList []) ?acc2"
    let ?acc = "?r ''assets'' (PList []) ?acc3"
    have 2: "default_if_false ''created-assets'' (PList []) (dict_set ?acc1 ''created-apps'' (PList apps')) = Inr ?acc2"
      by (rule default_if_false_get) (use g(3) in \<open>simp add: dict_get_set\<close>)
    have 3: "default_if_false ''apps-local-state'' (PList []) ?acc2 = Inr ?acc3"
      by (rule default_if_false_get) (use g(4) in \<open>simp add: dict_get_set\<close>)
    have 4: "default_if_false ''assets'' (PList []) ?acc3 = Inr ?acc"
      by (rule default_if_false_get) (use g(5) in \<open>simp add: dict_get_set\<close>)
    have "sanitize_account S (PDict d) = Inr ?acc"
      by (simp only: step Inr bind_res_simps 2 3 4)
    moreover have "dict_get ?acc k = Some (account_default k (value_or_None (dict_get d k)))"
      if "k \<in> set account_names" "k \<noteq> ''created-apps''" for k
      using get [OF that(1)] that(2)
      by (simp only: default_get dict_get_set account_default_def if_False) auto
    moreover have "dict_get ?acc ''created-apps'' = Some (PList apps')"
      by (simp add: dict_get_set)
    ultimately show ?thesis using True Inr by auto
  qed
qed

theorem sanitize_account_fields_witness:
  "(\<exists>acc. sanitize_account ref_sdk (PDict [(''address'', PStr ''a''), (''amount'', PInt 5)]) = Inr acc \<and>
      dict_get acc ''created-apps'' = Some (PList []) \<and>
      dict_get acc ''auth-addr'' = Some (PStr ZERO_ADDRESS) \<and> dict_get acc ''amount'' = Some (PInt 5)) \<and>
   sanitize_account ref_sdk (PDict [(''adress'', PStr ''a'')]) = Inl KeyError"
proof -
  have m: "attribute_map ref_sdk ''KAVMAccount'' = account_attributes"
    by (simp add: ref_sdk_def ref_attributes_def)
  have n: "set account_names = snd ` set account_attributes" by (simp add: account_names_def)
  show ?thesis
    using sanitize_account_fields [OF ref_model_law m, of "[(''address'', PStr ''a''), (''amount'', PInt 5)]"]
      sanitize_account_fields [OF ref_model_law m, of "[(''adress'', PStr ''a'')]"]
    by (auto simp: wf_dict_def n account_attributes_def value_or_None_def account_default_def)
qed

subsection \<open>Scenarios\<close>


definition sample_teal :: teal_env where
  "sample_teal = \<lparr>read_teal = (\<lambda>n. if n = ''a.teal'' then Inr ''int 1'' else Inl (OtherException ''FileNotFoundError'')),
     sha512_hexdigest = (\<lambda>b. ''0a0b''), teal_decompiler = None\<rparr>"

definition sample_scenario :: pyval where
  "sample_scenario = PDict [(''stages'', PList
     [PDict [(''data'', PDict [(''accounts'', PList [PDict
         [(''address'', PStr ''A''), (''amount'', PInt 5),
          (''created-apps'', PList [PDict [(''id'', PInt 1),
             (''params'', PDict [(''approval-program'', PStr ''a.teal''), (''clear-state-program'', PStr ''aW50'')])]])]])]),
        (''stage-type'', PStr ''setup-network'')],
      PDict [(''data'', PDict [(''transactions'', PList [PDict [(''type'', PStr ''appl''), (''apap'', PStr ''a.teal'')]])]),
        (''stage-type'', PStr ''submit-transactions'')]])]"

lemma sample_from_json:
  "from_json S E (json_text default_layout 0 sample_scenario) = scenario_of_value S E sample_scenario"
proof -
  have "json_ok sample_scenario" "wf_val sample_scenario"
    by (simp_all add: sample_scenario_def wf_dict_def)
  then show ?thesis
    using json_loads_text [of sample_scenario default_layout]
    by (simp add: from_json_def normal_form_def default_layout_def)
qed

lemma sample_accepted: "\<not> isl (scenario_of_value ref_sdk sample_teal sample_scenario)"
  by code_simp


text \<open>
  Malformed scenarios. A stage of the wrong type, a third stage and a missing list of
  accounts are the documented \<open>ValueError\<close>; an empty list of stages and a missing second
  stage are \<open>IndexError\<close>s, since only a missing key is turned into a \<open>ValueError\<close>, and missing
  stages or transactions are \<open>KeyError\<close>s.
\<close>

theorem malformed_scenarios:
  "scenario_of_value S E (PDict []) = Inl KeyError \<and>
   scenario_of_value S E (PDict [(''stages'', PList [])]) = Inl IndexError \<and>
   (check_stage ''setup-network'' s0 \<in> {Inl KeyError, Inl AssertionError} \<longrightarrow>
      scenario_of_value S E (PDict [(''stages'', PList (s0 # rest))]) = Inl ValueError) \<and>
   (check_stage ''setup-network'' s0 = Inr () \<and> stage_data s0 ''accounts'' = Inl KeyError \<longrightarrow>
      scenario_of_value S E (PDict [(''stages'', PList (s0 # rest))]) = Inl ValueError) \<and>
   (setup_stage S E (PList (s0 # rest)) = Inr r \<longrightarrow>
      (rest = [] \<longrightarrow> scenario_of_value S E (PDict [(''stages'', PList (s0 # rest))]) = Inl IndexError) \<and>
      (\<forall>s1 more. rest = s1 # more \<longrightarrow>
        (check_stage ''submit-transactions'' s1 \<in> {Inl KeyError, Inl AssertionError} \<longrightarrow>
           scenario_of_value S E (PDict [(''stages'', PList (s0 # rest))]) = Inl ValueError) \<and>
        (check_stage ''submit-transactions'' s1 = Inr () \<and> stage_data s1 ''transactions'' = Inl KeyError \<longrightarrow>
           scenario_of_value S E (PDict [(''stages'', PList (s0 # rest))]) = Inl KeyError))) \<and>
   (2 < length stages_list \<and> (\<exists>r. setup_stage S E (PList stages_list) = Inr r \<and>
        (\<exists>r'. submit_stage E (PList stages_list) (snd r) = Inr r')) \<longrightarrow>
      scenario_of_value S E (PDict [(''stages'', PList stages_list)]) = Inl ValueError)"
proof -
  have c0: "check_stage ''setup-network'' s0 \<in> {Inl KeyError, Inl AssertionError} \<Longrightarrow>
      setup_stage S E (PList (s0 # rest)) = Inl ValueError"
    by (auto simp: setup_stage_def rewrap_def)
  have c1: "check_stage ''setup-network'' s0 = Inr () \<Longrightarrow> stage_data s0 ''accounts'' = Inl KeyError \<Longrightarrow>
      setup_stage S E (PList (s0 # rest)) = Inl ValueError"
    by (simp add: setup_stage_def rewrap_def)
  have c2: "submit_stage E (PList [s0]) p = Inl IndexError" for p
    by (simp add: submit_stage_def rewrap_def)
  have c3: "check_stage ''submit-transactions'' s1 \<in> {Inl KeyError, Inl AssertionError} \<Longrightarrow>
      submit_stage E (PList (s0 # s1 # more)) p = Inl ValueError" for s1 more p
    by (auto simp: submit_stage_def rewrap_def)
  have c4: "check_stage ''submit-transactions'' s1 = Inr () \<Longrightarrow> stage_data s1 ''transactions'' = Inl KeyError \<Longrightarrow>
      submit_stage E (PList (s0 # s1 # more)) p = Inl KeyError" for s1 more p
    by (simp add: submit_stage_def rewrap_def)
  have sv: "scenario_of_value S E (PDict [(''stages'', PList xs)]) =
      bind_res (setup_stage S E (PList xs)) (\<lambda>(s0, progs).
      bind_res (submit_stage E (PList xs) progs) (\<lambda>(s1, progs').
      if 2 < length xs then Inl ValueError
      else Inr \<lparr>stages = xs[0 := s0, 1 := s1], teal_programs = progs'\<rparr>))" for xs
    by (simp add: scenario_of_value_def)
  have e: "setup_stage S E (PList []) = Inl IndexError"
    by (simp add: setup_stage_def rewrap_def)
  have m: "scenario_of_value S E (PDict []) = Inl KeyError"
    by (simp add: scenario_of_value_def)
  show ?thesis
    unfolding sv e m by (cases r) (auto simp: c0 c1 c2 c3 c4)
qed

theorem malformed_scenarios_witness:
  "scenario_of_value ref_sdk sample_teal (PDict [(''stages'', PList
     [PDict [(''stage-type'', PStr ''setup'')]])]) = Inl ValueError \<and>
   scenario_of_value ref_sdk sample_teal (PDict [(''stages'', PList [])]) = Inl IndexError"
  using malformed_scenarios [of ref_sdk sample_teal "PDict [(''stage-type'', PStr ''setup'')]" "[]"]
  by (simp add: check_stage_def)

text \<open>
  The JSON text of a scenario decodes to the scenario's stages, their keys sorted at every
  level. The collected programs are not part of the text.
\<close>

theorem to_json_decodes:
  assumes "list_all json_ok (stages sc)" and "list_all wf_val (stages sc)"
  shows "bind_res (to_json sc n) json_loads = Inr (PDict [(''stages'', PList (map deep_sort (stages sc)))])"
proof -
  let ?v = "PDict (scenario_dictify sc)"
  have "json_ok ?v" "wf_val ?v" using assms by (simp_all add: scenario_dictify_def wf_dict_def)
  then show ?thesis
    using json_loads_text [of ?v "\<lparr>indent = Some n, sort_keys = True\<rparr>"]
    by (simp add: to_json_def json_dumps_def normal_form_def scenario_dictify_def sorted_items_def)
qed

theorem to_json_decodes_witness:
  "bind_res (to_json \<lparr>stages = [PDict [(''b'', PInt 1), (''a'', PNone)]], teal_programs = []\<rparr> 4) json_loads =
     Inr (PDict [(''stages'', PList [PDict [(''a'', PNone), (''b'', PInt 1)]])])"
  using to_json_decodes [of "\<lparr>stages = [PDict [(''b'', PInt 1), (''a'', PNone)]], teal_programs = []\<rparr>" 4]
  by (simp add: wf_dict_def sorted_items_def)

end
