(* ===== verification/KavmRunner.thy ===== *)
theory KavmRunner
  imports Scenario
begin

text \<open>
  \<open>kavm/kavm.py\<close>: the wrapper around the K tools. It parses TEAL programs, joins them into one
  KORE map, runs a scenario with \<open>krun\<close> and decides what to return or raise. The programs it
  starts and the KORE library are the fields of the record \<open>ktools\<close>.
\<close>

section \<open>KORE patterns and the K tools\<close>

text \<open>
  An application of a symbol, or a pattern of another class with its \<open>app\<close> attribute (if the
  class has one) and its sub-patterns.
\<close>

datatype kore =
    KoreApp string "kore list"
  | KorePattern "kore option" "kore list"

record krun_result =
  returncode :: int
  stdout :: string
  stderr :: string

text \<open>
  What a run is given: the scenario's text and the text of the TEAL map (the contents of the
  two temporary files), the output format, the depth, and whether to raise on failure.
\<close>

record krun_args =
  run_scenario :: string
  run_teals :: string
  run_output :: string
  run_depth :: "int option"
  run_check :: bool

type_synonym files = "(string, string) dict"

text \<open>
  \<open>parse_kore\<close> is \<open>KoreParser(s).pattern()\<close> with \<open>parser.eof\<close> after it, \<open>run_bison\<close> the generated
  parser's standard output for a file of the given directory.
\<close>

record ktools =
  parse_kore :: "string \<Rightarrow> (kore \<times> bool) res"
  kore_text :: "kore \<Rightarrow> string"
  run_bison :: "files \<Rightarrow> string \<Rightarrow> string res"
  krun :: "krun_args \<Rightarrow> krun_result res"
  kore_to_kast :: "kore \<Rightarrow> kinner res"
  get_cell :: "kinner \<Rightarrow> string \<Rightarrow> kinner res"

text \<open>
  \<open>krun\<close> with \<open>check\<close> raises a \<open>RuntimeError\<close> of a message and the two outputs when the process
  fails, and without \<open>check\<close> it returns the process's result whatever its code.
\<close>

definition krun_law :: "ktools \<Rightarrow> bool" where
  "krun_law K \<longleftrightarrow> (\<forall>a.
     (run_check a \<longrightarrow> (case krun K a of
        Inr r \<Rightarrow> returncode r = 0
      | Inl e \<Rightarrow> \<exists>msg out err. e = RuntimeError [msg, out, err])) \<and>
     (\<not> run_check a \<longrightarrow> \<not> isl (krun K a)))"

section \<open>A KAVM object\<close>

text \<open>
  What the constructor sets: the backend's name, whether the object is a prover as well, with its
  definition, and the three parsers. \<open>read_text\<close> reads a file of the definition directory.
\<close>

record kavm_object =
  kv_backend :: string
  kv_definition_dir :: string
  kv_verification_definition :: "string option"
  kv_catcat_parser :: string
  kv_teal_parser :: string
  kv_scenario_parser :: string

definition path_join :: "string \<Rightarrow> string \<Rightarrow> string" where
  "path_join d f = d @ ''/'' @ f"

definition or_default :: "'a option \<Rightarrow> 'a \<Rightarrow> 'a" where
  "or_default given d = (case given of Some x \<Rightarrow> x | None \<Rightarrow> d)"

definition kavm_init :: "(string \<Rightarrow> string res) \<Rightarrow> string \<Rightarrow> string option \<Rightarrow> string option \<Rightarrow> kavm_object res" where
  "kavm_init read_text definition_dir teal_parser scenario_parser =
     map_res (\<lambda>backend. \<lparr>kv_backend = backend, kv_definition_dir = definition_dir,
         kv_verification_definition = (if backend = ''haskell'' then Some definition_dir else None),
         kv_catcat_parser = path_join definition_dir ''catcat'',
         kv_teal_parser = or_default teal_parser (path_join definition_dir ''parser_TealInputPgm_TEAL-PARSER-SYNTAX''),
         kv_scenario_parser = or_default scenario_parser (path_join definition_dir ''parser_JSON_AVM-TESTING-SYNTAX'')\<rparr>)
       (read_text (path_join definition_dir ''backend.txt''))"

text \<open>The printers of two symbols; \<open>parens\<close> is pyk's \<open>paren\<close>, a printer is given the texts of the arguments.\<close>

type_synonym printer = "string list \<Rightarrow> string res"

fun print_bytes_sum :: printer where
  "print_bytes_sum [a1, a2] = Inr (a1 @ ''+Bytes'' @ a2)"
| "print_bytes_sum _ = Inl TypeError"

definition kavm_patch_symbol_table :: "(printer \<Rightarrow> printer) \<Rightarrow> (string, printer) dict \<Rightarrow> (string, printer) dict res" where
  "kavm_patch_symbol_table parens table =
     map_res (\<lambda>p. dict_set (dict_set table ''_+Int_'' (parens p)) ''_+Bytes_'' (parens print_bytes_sum))
       (of_option KeyError (dict_get table ''_+Int_''))"

section \<open>Parsing programs\<close>

definition error_program_kore :: string where
  "error_program_kore = ''inj{SortPseudoOpCode{}, SortTealInputPgm{}}(Lblint'' @ [CHR 0x27] @ ''UndsUnds'' @
     [CHR 0x27] @ ''TEAL-OPCODES'' @ [CHR 0x27] @ ''Unds'' @ [CHR 0x27] @ ''PseudoOpCode'' @ [CHR 0x27] @ ''Unds'' @
     [CHR 0x27] @ ''PseudoTUInt64{}(inj{SortInt{}, SortPseudoTUInt64{}}('' @ [CHR 0x5C] @ ''dv{SortInt{}}('' @
     [CHR 0x22] @ ''1'' @ [CHR 0x22] @ ''))))''"

definition parse_teal :: "ktools \<Rightarrow> files \<Rightarrow> string option \<Rightarrow> kore res" where
  "parse_teal K fs file = (case file of
       None \<Rightarrow> map_res fst (parse_kore K error_program_kore)
     | Some f \<Rightarrow> bind_res (run_bison K fs f) (\<lambda>out. map_res fst (parse_kore K out)))"

abbreviation map_union_op :: string where
  "map_union_op \<equiv> ''Lbl'' @ [CHR 0x27] @ ''Unds'' @ [CHR 0x27] @ ''Map'' @ [CHR 0x27] @ ''Unds'' @ [CHR 0x27] @ ''{}''"

abbreviation map_item_op :: string where
  "map_item_op \<equiv> ''Lbl'' @ [CHR 0x27] @ ''UndsPipe'' @ [CHR 0x27] @ ''-'' @ [CHR 0x27] @ ''-GT-Unds'' @ [CHR 0x27] @ ''{}''"

abbreviation empty_map_label :: string where
  "empty_map_label \<equiv> ''Lbl'' @ [CHR 0x27] @ ''Stop'' @ [CHR 0x27] @ ''Map{}()''"

definition teal_path_kore :: "string \<Rightarrow> string" where
  "teal_path_kore p = ''inj{SortString{},SortKItem{}}('' @ [CHR 0x5C] @ ''dv{SortString{}}('' @ [CHR 0x22] @ p @
     [CHR 0x22] @ ''))''"

definition teal_map_item :: "ktools \<Rightarrow> files \<Rightarrow> string \<Rightarrow> string res" where
  "teal_map_item K fs p = map_res (\<lambda>pgm. map_item_op @ ''('' @ teal_path_kore p @ '','' @
      (''inj{SortTealInputPgm{},SortKItem{}}('' @ kore_text K pgm @ '')'') @ '')'')
     (parse_teal K fs (Some p))"

definition add_teal :: "ktools \<Rightarrow> files \<Rightarrow> string \<Rightarrow> string \<Rightarrow> string res" where
  "add_teal K fs p current =
     map_res (\<lambda>item. map_union_op @ ''('' @ current @ '','' @ item @ '')'') (teal_map_item K fs p)"

definition parse_teals :: "ktools \<Rightarrow> files \<Rightarrow> string list \<Rightarrow> kore res" where
  "parse_teals K fs teal_paths =
     bind_res (foldM_res (add_teal K fs) teal_paths empty_map_label) (\<lambda>text.
     map_res fst (parse_kore K text))"

section \<open>Running a scenario\<close>

text \<open>The final state: a pattern, or text with the output \<open>pretty\<close>.\<close>

datatype final_state = FinalKore kore | FinalText string

text \<open>The arguments an exception was raised with, as far as they are kept.\<close>

definition exn_args :: "exn \<Rightarrow> string list" where
  "exn_args e = (case e of RuntimeError as \<Rightarrow> as | _ \<Rightarrow> [])"

definition nonzero_exit :: exn where
  "nonzero_exit = RuntimeError [''Non-zero exit-code from krun.'']"

definition checked_krun :: "ktools \<Rightarrow> krun_args \<Rightarrow> krun_result res" where
  "checked_krun K a = bind_res (krun K a) (\<lambda>r. if returncode r \<noteq> 0 then Inl nonzero_exit else Inr r)"

text \<open>The body of the \<open>try\<close>: the local variables are bound only in the two branches.\<close>

definition krun_body :: "ktools \<Rightarrow> krun_args \<Rightarrow> (final_state \<times> string) res" where
  "krun_body K a =
     (if run_output a = ''kore'' then
        bind_res (checked_krun K a) (\<lambda>r.
        bind_res (parse_kore K (stdout r)) (\<lambda>(p, eof).
        if eof then Inr (FinalKore p, stderr r) else Inl AssertionError))
      else if run_output a = ''pretty'' then
        map_res (\<lambda>r. (FinalText (stdout r), stderr r)) (checked_krun K a)
      else Inl UnboundLocalError)"

text \<open>The handler: run again for the final state, or read the reason from the output.\<close>

definition krun_failed :: "ktools \<Rightarrow> krun_args \<Rightarrow> bool \<Rightarrow> exn \<Rightarrow> (final_state \<times> string) res" where
  "krun_failed K a rerun_on_error e =
     (if rerun_on_error then
        bind_res (krun K (a\<lparr>run_output := ''pretty'', run_check := False\<rparr>)) (\<lambda>r.
          Inl (RuntimeError [''Final configuration was: '' @ stdout r]))
      else case exn_args e of
          _ # out # _ \<Rightarrow>
            bind_res (parse_kore K out) (\<lambda>(p, _).
            bind_res (kore_to_kast K p) (\<lambda>t.
            bind_res (bind_res (get_cell K t ''RETURNSTATUS_CELL'') token_of) (\<lambda>status.
            Inl (RuntimeError [status]))))
        | _ \<Rightarrow> Inl IndexError)"

definition run_avm_json ::
    "ktools \<Rightarrow> files \<Rightarrow> scenario \<Rightarrow> int option \<Rightarrow> bool \<Rightarrow> bool \<Rightarrow> string \<Rightarrow> (final_state \<times> string) res" where
  "run_avm_json K fs sc depth check rerun_on_error output =
     (let fs' = foldl (\<lambda>d (f, src). dict_set d f src) fs (teal_programs sc) in
      bind_res (parse_teals K fs' (dict_keys (teal_programs sc))) (\<lambda>teals.
      bind_res (to_json sc 0) (\<lambda>text.
      let a = \<lparr>run_scenario = text, run_teals = kore_text K teals, run_output = output,
               run_depth = depth, run_check = check\<rparr>
      in catch_res (krun_body K a) is_runtime_error (krun_failed K a rerun_on_error))))"

section \<open>The kast command\<close>

definition kast_command :: "string \<Rightarrow> string list \<Rightarrow> string \<Rightarrow> string \<Rightarrow> string \<Rightarrow> string \<Rightarrow> string list" where
  "kast_command definition_dir rest input output module srt =
     [''kast'', ''--definition'', definition_dir] @ [''--input'', input, ''--output'', output] @
     [''--module'', module] @ [''--sort'', srt] @ rest"

definition kast :: "string \<Rightarrow> string \<Rightarrow> string \<Rightarrow> string \<Rightarrow> string \<Rightarrow> string \<Rightarrow> string list" where
  "kast definition_dir input_file = kast_command definition_dir [input_file]"

definition kast_expr :: "string \<Rightarrow> string \<Rightarrow> string \<Rightarrow> string \<Rightarrow> string \<Rightarrow> string \<Rightarrow> string list" where
  "kast_expr definition_dir expr = kast_command definition_dir [''--expression'', expr]"

section \<open>Properties\<close>

lemma krun_body_ok:
  assumes "krun_body K a = Inr (fp, err)"
  shows "run_output a \<in> {''kore'', ''pretty''} \<and>
    (\<exists>r. krun K a = Inr r \<and> returncode r = 0 \<and> err = stderr r \<and>
      (case fp of FinalText t \<Rightarrow> run_output a = ''pretty'' \<and> t = stdout r
       | FinalKore p \<Rightarrow> run_output a = ''kore'' \<and> parse_kore K (stdout r) = Inr (p, True)))"
  using assms by (auto simp: krun_body_def checked_krun_def res_iff split: if_splits)

lemma krun_failed_raises [simp]: "krun_failed K a rerun e \<noteq> Inr x"
  by (auto simp: krun_failed_def res_iff split: list.splits)

text \<open>What a run hands to \<open>krun\<close>.\<close>

definition avm_run_args ::
    "ktools \<Rightarrow> files \<Rightarrow> scenario \<Rightarrow> int option \<Rightarrow> bool \<Rightarrow> string \<Rightarrow> krun_args res" where
  "avm_run_args K fs sc depth check output =
     bind_res (parse_teals K (foldl (\<lambda>d (f, src). dict_set d f src) fs (teal_programs sc))
       (dict_keys (teal_programs sc))) (\<lambda>teals.
     map_res (\<lambda>text. \<lparr>run_scenario = text, run_teals = kore_text K teals, run_output = output,
               run_depth = depth, run_check = check\<rparr>) (to_json sc 0))"

lemma run_avm_json_args:
  "run_avm_json K fs sc depth check rerun output = bind_res (avm_run_args K fs sc depth check output)
     (\<lambda>a. catch_res (krun_body K a) is_runtime_error (krun_failed K a rerun))"
  by (simp add: run_avm_json_def avm_run_args_def Let_def bind_map_res bind_bind_res)

text \<open>
  C17: \<open>run_avm_json\<close> returns only what a run of \<open>krun\<close> with exit code 0 produced: the text of its
  output, or the pattern its output parses to completely, and its standard error. Every other
  run raises; a failure is never returned as a state.
\<close>

theorem run_avm_json_sound:
  assumes "run_avm_json K fs sc depth check rerun output = Inr (fp, err)"
  shows "\<exists>a r. avm_run_args K fs sc depth check output = Inr a \<and> krun K a = Inr r \<and> returncode r = 0 \<and>
    err = stderr r \<and>
    (case fp of FinalText t \<Rightarrow> output = ''pretty'' \<and> t = stdout r
     | FinalKore p \<Rightarrow> output = ''kore'' \<and> parse_kore K (stdout r) = Inr (p, True))"
proof -
  from assms obtain a where a: "avm_run_args K fs sc depth check output = Inr a"
    and c: "catch_res (krun_body K a) is_runtime_error (krun_failed K a rerun) = Inr (fp, err)"
    by (auto simp: run_avm_json_args res_iff)
  have "run_output a = output" using a by (auto simp: avm_run_args_def res_iff)
  moreover have "krun_body K a = Inr (fp, err)"
    using c by (simp add: catch_res_Inr)
  ultimately show ?thesis using a krun_body_ok [of K a fp err] by auto
qed

text \<open>A set of tools on which one scenario runs: the parser accepts everything as one symbol.\<close>

definition sample_tools :: "int \<Rightarrow> ktools" where
  "sample_tools code = \<lparr>
     parse_kore = (\<lambda>s. Inr (KoreApp s [], True)),
     kore_text = (\<lambda>p. case p of KoreApp s ps \<Rightarrow> s | _ \<Rightarrow> []),
     run_bison = (\<lambda>fs f. of_option FileNotFoundError (dict_get fs f)),
     krun = (\<lambda>a. if run_check a \<and> code \<noteq> 0 then Inl (RuntimeError [''failed'', ''state'', []])
       else Inr \<lparr>returncode = code, stdout = ''state'', stderr = ''dump''\<rparr>),
     kore_to_kast = (\<lambda>p. case p of KoreApp s ps \<Rightarrow> Inr (KToken s ''String'') | _ \<Rightarrow> Inl ValueError),
     get_cell = (\<lambda>t c. Inr t)\<rparr>"

definition sample_run_scenario :: scenario where
  "sample_run_scenario = \<lparr>stages = [], teal_programs = [(''a.teal'', ''int 1'')]\<rparr>"

lemma sample_avm_args: "\<exists>a. avm_run_args (sample_tools c) [] sample_run_scenario None check output = Inr a \<and>
    run_output a = output \<and> run_check a = check"
  by (simp add: avm_run_args_def sample_tools_def sample_run_scenario_def parse_teals_def add_teal_def
      teal_map_item_def parse_teal_def to_json_def scenario_dictify_def json_dumps_def)

theorem run_avm_json_sound_witness:
  "\<exists>a r. run_avm_json (sample_tools 0) [] sample_run_scenario None True False ''pretty'' = Inr (FinalText ''state'', ''dump'') \<and>
     krun (sample_tools 0) a = Inr r \<and> returncode r = 0 \<and> stderr r = ''dump''"
proof -
  obtain a where a: "avm_run_args (sample_tools 0) [] sample_run_scenario None True ''pretty'' = Inr a"
      "run_output a = ''pretty''" "run_check a"
    using sample_avm_args [of 0 True "''pretty''"] by auto
  have "run_avm_json (sample_tools 0) [] sample_run_scenario None True False ''pretty'' = Inr (FinalText ''state'', ''dump'')"
    by (simp add: run_avm_json_args a krun_body_def checked_krun_def) (simp add: sample_tools_def)
  moreover from run_avm_json_sound [OF this] obtain a r where "krun (sample_tools 0) a = Inr r"
    "returncode r = 0" "''dump'' = stderr r" by blast
  ultimately show ?thesis by metis
qed

text \<open>
  How a failing run is reported. With \<open>check\<close>, the reason is read from the final state
  \<open>krun\<close> printed, and raised as a \<open>RuntimeError\<close>; without it, \<open>run_avm_json\<close> raises its own
  \<open>RuntimeError\<close> of one argument and then fails with an \<open>IndexError\<close> as it looks for a second;
  with \<open>rerun_on_error\<close> the \<open>RuntimeError\<close> has one argument, the final configuration.
\<close>

theorem run_avm_json_failure:
  assumes "krun_law K" and "avm_run_args K fs sc depth check output = Inr a" and "output \<in> {''kore'', ''pretty''}"
  shows "(\<forall>msg out err p eof t status srt. check \<and> krun K a = Inl (RuntimeError [msg, out, err]) \<and>
      parse_kore K out = Inr (p, eof) \<and> kore_to_kast K p = Inr t \<and>
      get_cell K t ''RETURNSTATUS_CELL'' = Inr (KToken status srt) \<longrightarrow>
      run_avm_json K fs sc depth check False output = Inl (RuntimeError [status])) \<and>
    (\<forall>r. \<not> check \<and> krun K a = Inr r \<and> returncode r \<noteq> 0 \<longrightarrow>
      run_avm_json K fs sc depth check False output = Inl IndexError \<and>
      (\<exists>msg. run_avm_json K fs sc depth check True output = Inl (RuntimeError [msg])))"
proof -
  have o: "run_output a = output" "run_check a = check"
    using assms(2) by (auto simp: avm_run_args_def res_iff)
  have body: "krun_body K a = Inl e" if "checked_krun K a = Inl e" for e
    using that assms(3) o by (auto simp: krun_body_def)
  have run: "run_avm_json K fs sc depth check rerun output =
      catch_res (krun_body K a) is_runtime_error (krun_failed K a rerun)" for rerun
    by (simp add: run_avm_json_args assms(2))
  have rr: "\<exists>r. krun K (a\<lparr>run_output := ''pretty'', run_check := False\<rparr>) = Inr r"
  proof -
    let ?a = "a\<lparr>run_output := ''pretty'', run_check := False\<rparr>"
    have "\<not> run_check ?a" by simp
    then have "\<not> isl (krun K ?a)" using assms(1) unfolding krun_law_def by blast
    then show ?thesis by (cases "krun K ?a") simp_all
  qed
  show ?thesis
  proof (intro conjI allI impI)
    fix msg out err p eof t status srt
    assume h: "check \<and> krun K a = Inl (RuntimeError [msg, out, err]) \<and> parse_kore K out = Inr (p, eof) \<and>
      kore_to_kast K p = Inr t \<and> get_cell K t ''RETURNSTATUS_CELL'' = Inr (KToken status srt)"
    then have c: "checked_krun K a = Inl (RuntimeError [msg, out, err])" by (simp add: checked_krun_def)
    show "run_avm_json K fs sc depth check False output = Inl (RuntimeError [status])"
      unfolding run body [OF c] using h by (simp add: krun_failed_def exn_args_def)
  next
    fix r
    assume "\<not> check \<and> krun K a = Inr r \<and> returncode r \<noteq> 0"
    then have c: "checked_krun K a = Inl nonzero_exit" by (simp add: checked_krun_def)
    show "run_avm_json K fs sc depth check False output = Inl IndexError"
      by (simp add: run body [OF c] krun_failed_def exn_args_def nonzero_exit_def)
    show "\<exists>msg. run_avm_json K fs sc depth check True output = Inl (RuntimeError [msg])"
      using rr by (auto simp: run body [OF c] krun_failed_def nonzero_exit_def)
  qed
qed

theorem run_avm_json_failure_witness:
  "run_avm_json (sample_tools 3) [] sample_run_scenario None True False ''kore'' = Inl (RuntimeError [''state'']) \<and>
   run_avm_json (sample_tools 3) [] sample_run_scenario None False False ''kore'' = Inl IndexError"
proof -
  have law: "krun_law (sample_tools 3)" by (simp add: krun_law_def sample_tools_def)
  obtain a where a: "avm_run_args (sample_tools 3) [] sample_run_scenario None True ''kore'' = Inr a" "run_check a"
    using sample_avm_args [of 3 True "''kore''"] by auto
  obtain b where b: "avm_run_args (sample_tools 3) [] sample_run_scenario None False ''kore'' = Inr b" "\<not> run_check b"
    using sample_avm_args [of 3 False "''kore''"] by auto
  have out: "''kore'' \<in> {''kore'', ''pretty''}" by simp
  note 1 = run_avm_json_failure [OF law a(1) out, THEN conjunct1, rule_format,
      of "''failed''" "''state''" "[]" "KoreApp ''state'' []" True "KToken ''state'' ''String''" "''state''" "''String''"]
    and 2 = run_avm_json_failure [OF law b(1) out, THEN conjunct2, rule_format,
      of "\<lparr>returncode = 3, stdout = ''state'', stderr = ''dump''\<rparr>"]
  show ?thesis
    using 1 2 a(2) b(2) by (simp add: sample_tools_def)
qed

section \<open>The directory of programs\<close>

text \<open>The generated parser reads the file it is given and no other.\<close>

definition bison_law :: "ktools \<Rightarrow> bool" where
  "bison_law K \<longleftrightarrow> (\<forall>fs fs' f. dict_get fs f = dict_get fs' f \<longrightarrow> run_bison K fs f = run_bison K fs' f)"

lemma written_get:
  "f \<in> set (dict_keys progs) \<Longrightarrow>
     dict_get (foldl (\<lambda>d (f, src). dict_set d f src) fs progs) f = dict_get (foldl (\<lambda>d (f, src). dict_set d f src) fs' progs) f"
proof (induction progs rule: rev_induct)
  case Nil
  then show ?case by simp
next
  case (snoc p progs)
  obtain g src where "p = (g, src)" by (cases p)
  with snoc show ?case by (auto simp: dict_get_set)
qed

lemma parse_teals_files:
  assumes "bison_law K" and "\<And>f. f \<in> set names \<Longrightarrow> dict_get fs f = dict_get fs' f"
  shows "parse_teals K fs names = parse_teals K fs' names"
proof -
  have "add_teal K fs f = add_teal K fs' f" if "f \<in> set names" for f
  proof -
    have "run_bison K fs f = run_bison K fs' f" using assms(1) assms(2) [OF that] unfolding bison_law_def by blast
    then show ?thesis by (intro ext) (simp only: add_teal_def teal_map_item_def parse_teal_def option.case)
  qed
  then have "foldM_res (add_teal K fs) names = foldM_res (add_teal K fs') names"
  proof (induction names)
    case (Cons f names)
    then show ?case by (intro ext) simp
  qed (simp add: fun_eq_iff)
  then show ?thesis by (simp add: parse_teals_def)
qed

text \<open>
  C37: a run depends on the programs of its scenario alone. The client keeps one directory of
  programs for all its runs; what earlier runs left there, under other names or under the same
  names, has no influence on what \<open>run_avm_json\<close> returns or raises.
\<close>

theorem run_ignores_old_files:
  assumes "bison_law K"
  shows "run_avm_json K fs sc depth check rerun_on_error output = run_avm_json K fs' sc depth check rerun_on_error output"
proof -
  let ?w = "\<lambda>fs. foldl (\<lambda>d (f, src). dict_set d f src) fs (teal_programs sc)"
  have "parse_teals K (?w fs) (dict_keys (teal_programs sc)) = parse_teals K (?w fs') (dict_keys (teal_programs sc))"
    by (rule parse_teals_files [OF assms]) (rule written_get)
  then show ?thesis by (simp add: run_avm_json_def Let_def)
qed

lemma sample_bison_law: "bison_law (sample_tools code)"
  by (auto simp: bison_law_def sample_tools_def)

theorem run_ignores_old_files_witness:
  "run_avm_json (sample_tools 0) [(''a.teal'', ''old''), (''b.teal'', ''old'')] sample_run_scenario None True False ''kore'' =
     run_avm_json (sample_tools 0) [] sample_run_scenario None True False ''kore''"
  by (rule run_ignores_old_files [OF sample_bison_law])

end
