(* ===== verification/Completion.thy ===== *)
theory Completion
  imports Scenario
begin

text \<open>
  What \<open>sanitize_accounts\<close> of \<open>kavm/scenario.py\<close> returns: accounts that are left alone by a
  second pass, and that the SDK's model objects made of them give back, as the client needs
  when it keeps the accounts of one run for the next.
\<close>

section \<open>Completed accounts\<close>

text \<open>The JSON names of the attributes of the SDK's models.\<close>

definition sdk_names_law :: "sdk \<Rightarrow> bool" where
  "sdk_names_law S \<longleftrightarrow> attribute_map S ''KAVMAccount'' = account_attributes \<and>
     attribute_map S ''KAVMApplicationParams'' = params_attributes \<and>
     attribute_map S ''KAVMApplication'' = [(''id'', ''id''), (''params'', ''params'')]"

lemma ref_names_law: "sdk_names_law ref_sdk"
  by (simp add: sdk_names_law_def ref_sdk_def ref_attributes_def)

lemma json_good_simps [simp]:
  "json_good PNone" "json_good (PBool b)" "json_good (PInt i)" "json_good (PStr s)"
  "json_good (PList xs) \<longleftrightarrow> list_all json_good xs"
  by (auto simp: json_good_def list_all_iff)

lemma json_good_dict_iff: "json_good (PDict d) \<longleftrightarrow> wf_dict d \<and> (\<forall>k v. (k, v) \<in> set d \<longrightarrow> json_good v)"
  by (auto simp: json_good_def list_all_iff)

lemma json_good_app [simp]:
  "json_good (PDict [(''id'', i), (''params'', v)]) \<longleftrightarrow> json_good i \<and> json_good v"
  by (auto simp: json_good_dict_iff wf_dict_def)

lemma update_json_good: "json_good (PDict d) \<Longrightarrow> json_good v \<Longrightarrow> json_good (PDict (dict_set d k v))"
  unfolding json_good_dict_iff by (auto dest!: update_values)

lemma field_json_good: "json_good (PDict d) \<Longrightarrow> dict_get d k = Some v \<Longrightarrow> json_good v"
  unfolding json_good_dict_iff by (blast dest: map_of_SomeD)

lemma get_json_good: "json_good (PDict d) \<Longrightarrow> json_good (value_or_None (dict_get d k))"
  by (auto simp: value_or_None_def field_json_good split: option.splits)

lemma dictify_good: "json_good v \<Longrightarrow> dictify_value S v = v"
  by (simp add: json_good_def dictify_plain)

lemma dict_of_gets: "wf_dict d \<Longrightarrow> map (\<lambda>k. (k, the (dict_get d k))) (dict_keys d) = d"
  by (auto simp: wf_dict_def comp_def intro!: map_idI)

text \<open>A dictionary with all the names of a model, in order, is what the model made of it gives back.\<close>

lemma model_of_dict:
  assumes "sdk_model_law S" and "attribute_map S c \<noteq> []" and "dict_keys d = map snd (attribute_map S c)"
    and "json_good (PDict d)"
  shows "\<exists>t. translate_keys S c d = Inr t \<and> dictify S (new_model S c t) = d \<and>
    (\<forall>(a, j) \<in> set (attribute_map S c). dict_get t a = dict_get d j)"
proof -
  have wf: "wf_dict d" using assms(1,3) by (simp add: wf_dict_def sdk_model_law_def)
  from translate_known_keys [OF assms(1) wf, of c] assms(3) obtain t where t: "translate_keys S c d = Inr t"
    and g: "\<forall>(a, j) \<in> set (attribute_map S c). dict_get t a = dict_get d j" by auto
  have v: "dictify_value S (value_or_None (dict_get t a)) = the (dict_get d j)" if aj: "(a, j) \<in> set (attribute_map S c)" for a j
  proof -
    have "j \<in> set (dict_keys d)" unfolding assms(3) using aj by force
    then obtain x where "dict_get d j = Some x" by (cases "dict_get d j") (auto simp: dict_get_None_iff)
    then show ?thesis
      using get_json_good [OF assms(4), of j] g aj by (auto simp: value_or_None_def dictify_good)
  qed
  have "dictify S (new_model S c t) =
      map (\<lambda>(a, j). (j, dictify_value S (value_or_None (dict_get t a)))) (attribute_map S c)"
    using assms(1,2) by (simp add: sdk_model_law_def)
  also have "\<dots> = map (\<lambda>(a, j). (j, the (dict_get d j))) (attribute_map S c)"
    using v by (intro map_cong) auto
  also have "\<dots> = map (\<lambda>k. (k, the (dict_get d k))) (dict_keys d)"
    by (simp add: assms(3) comp_def case_prod_beta)
  also have "\<dots> = d" using wf by (rule dict_of_gets)
  finally show ?thesis using t g by blast
qed

text \<open>The dictionary of a model that was made from a JSON dictionary.\<close>

lemma model_dict:
  assumes "sdk_model_law S" and "attribute_map S c \<noteq> []" and "json_good (PDict d)"
    and "translate_keys S c d = Inr t"
  shows "dict_keys (dictify S (new_model S c t)) = map snd (attribute_map S c) \<and>
    json_good (PDict (dictify S (new_model S c t))) \<and>
    (\<forall>j \<in> snd ` set (attribute_map S c). dict_get (dictify S (new_model S c t)) j = Some (value_or_None (dict_get d j)))"
proof -
  have "set (dict_keys d) \<subseteq> snd ` set (attribute_map S c)"
    using translate_unknown_key [OF assms(1)] assms(4) by (metis Inl_Inr_False subsetI)
  moreover have "wf_dict d" using assms(3) by (simp add: json_good_dict_iff)
  ultimately obtain t' where "translate_keys S c d = Inr t'" "\<forall>(a, j) \<in> set (attribute_map S c). dict_get t' a = dict_get d j"
    using translate_known_keys [OF assms(1)] by blast
  with assms(4)
  have g: "\<forall>(a, j) \<in> set (attribute_map S c). dict_get t a = dict_get d j" by auto
  have v: "dictify_value S (value_or_None (dict_get t a)) = value_or_None (dict_get d j)"
    if "(a, j) \<in> set (attribute_map S c)" for a j
    using get_json_good [OF assms(3), of j] g that by (auto simp: dictify_good)
  have "dictify S (new_model S c t) =
      map (\<lambda>(a, j). (j, dictify_value S (value_or_None (dict_get t a)))) (attribute_map S c)"
    using assms(1,2) by (simp add: sdk_model_law_def)
  also have "\<dots> = map (\<lambda>(a, j). (j, value_or_None (dict_get d j))) (attribute_map S c)"
    using v by (intro map_cong) auto
  finally have e: "dictify S (new_model S c t) = map (\<lambda>(a, j). (j, value_or_None (dict_get d j))) (attribute_map S c)" .
  have "wf_dict (dictify S (new_model S c t))"
    using assms(1) by (simp add: e wf_dict_def sdk_model_law_def comp_def case_prod_beta)
  then have "\<forall>j \<in> snd ` set (attribute_map S c). dict_get (dictify S (new_model S c t)) j = Some (value_or_None (dict_get d j))"
    by (force simp: e wf_dict_def intro!: map_of_is_SomeI)
  with get_json_good [OF assms(3)] \<open>wf_dict (dictify S (new_model S c t))\<close> show ?thesis
    unfolding json_good_dict_iff by (auto simp: e comp_def case_prod_beta)
qed


definition completed_app :: "sdk \<Rightarrow> pyval \<Rightarrow> bool" where
  "completed_app S app \<longleftrightarrow> (\<exists>i p gs. app = PDict [(''id'', i), (''params'', PDict p)] \<and> json_good app \<and>
     dict_keys p = map snd params_attributes \<and> dict_get p ''global-state'' = Some gs \<and> (py_true gs \<or> gs = PList []))"

lemma params_names: "attribute_map S c = params_attributes \<Longrightarrow> attribute_map S c \<noteq> []"
  by (auto simp: params_attributes_def)

text \<open>The model of an application with the model of its parameters inside.\<close>

lemma app_dict:
  assumes "sdk_model_law S" and "sdk_names_law S" and "json_good i"
  shows "dictify S (new_model S ''KAVMApplication'' [(''id'', i), (''params'', new_model S c t)]) =
    [(''id'', i), (''params'', PDict (dictify S (new_model S c t)))]"
proof -
  have "is_model (new_model S c t)" using assms(1) by (simp add: sdk_model_law_def)
  then have "dictify_value S (new_model S c t) = PDict (dictify S (new_model S c t))"
    by (cases "new_model S c t") (simp_all add: is_model_def dictify_value_def dictify_elem_def)
  then show ?thesis using assms by (simp add: sdk_model_law_def sdk_names_law_def value_or_None_def dictify_good)
qed

lemma sanitize_app_completed:
  assumes "sdk_model_law S" and "sdk_names_law S" and "json_good app" and "sanitize_app S app = Inr app'"
  shows "completed_app S app'"
proof -
  let ?c = "''KAVMApplicationParams''"
  have names: "attribute_map S ?c = params_attributes" "attribute_map S ?c \<noteq> []"
    using assms(2) by (auto simp: sdk_names_law_def params_attributes_def)
  from assms(4) obtain a p t i where a: "app = PDict a" "dict_get a ''params'' = Some (PDict p)"
    and t: "translate_keys S ?c p = Inr t" and i: "dict_get a ''id'' = Some i"
    by (cases app) (auto simp: sanitize_app_def res_iff elim!: as_items.elims)
  have ok: "json_good i" "json_good (PDict p)"
    using field_json_good [OF assms(3) [unfolded a(1)]] i a(2) by auto
  let ?p = "dictify S (new_model S ?c t)"
  from model_dict [OF assms(1) names(2) ok(2) t] names(1)
  have p: "dict_keys ?p = map snd params_attributes" "json_good (PDict ?p)" by simp_all
  have "''global-state'' \<in> set (dict_keys ?p)" unfolding p(1) by (simp add: params_attributes_def)
  then obtain gs where gs: "dict_get ?p ''global-state'' = Some gs"
    by (cases "dict_get ?p ''global-state''") (auto simp: dict_get_None_iff)
  let ?p' = "if py_true gs then ?p else dict_set ?p ''global-state'' (PList [])"
  have "app' = PDict [(''id'', i), (''params'', PDict ?p')]"
    using assms(4) a t i app_dict [OF assms(1,2) ok(1)] gs
    by (simp add: sanitize_app_def dict_lookup_def Let_def split: if_splits)
  moreover have "json_good (PDict ?p')" using p(2) update_json_good [OF p(2), of "PList []"] by simp
  moreover have "dict_keys ?p' = map snd params_attributes" using p(1) by (simp add: dict_keys_set params_attributes_def)
  ultimately show ?thesis
    unfolding completed_app_def using ok(1) gs
    by - (rule exI [of _ i], rule exI [of _ ?p'], rule exI [of _ "if py_true gs then gs else PList []"],
      auto simp: dict_get_set)
qed

lemma sanitize_completed_app:
  assumes "sdk_model_law S" and "sdk_names_law S" and "completed_app S app"
  shows "sanitize_app S app = Inr app"
proof -
  let ?c = "''KAVMApplicationParams''"
  have names: "attribute_map S ?c = params_attributes" "attribute_map S ?c \<noteq> []"
    using assms(2) by (auto simp: sdk_names_law_def params_attributes_def)
  from assms(3) obtain i p gs where app: "app = PDict [(''id'', i), (''params'', PDict p)]"
    and ok: "json_good i" "json_good (PDict p)" and p: "dict_keys p = map snd params_attributes"
    and gs: "dict_get p ''global-state'' = Some gs" "py_true gs \<or> gs = PList []"
    by (auto simp: completed_app_def)
  from model_of_dict [OF assms(1) names(2), of p] p names(1) ok(2)
  obtain t where t: "translate_keys S ?c p = Inr t" "dictify S (new_model S ?c t) = p" by auto
  show ?thesis
    using app_dict [OF assms(1,2) ok(1), of ?c t] t gs dict_set_same [of p "''global-state''" "PList []"]
    by (auto simp: sanitize_app_def app dict_lookup_def Let_def)
qed


lemma sanitize_apps_completed:
  assumes "sdk_model_law S" and "sdk_names_law S" and "json_good apps" and "sanitize_apps S apps = Inr apps'"
  shows "list_all (completed_app S) apps'"
proof -
  from assms(4) obtain xs where xs: "py_iter apps = Inr xs" and m: "mapM_res (sanitize_app S) xs = Inr apps'"
    by (auto simp: sanitize_apps_def res_iff)
  have ok: "json_good x" if "x \<in> set xs" for x
    using xs assms(3) that by (cases apps) (auto simp: list_all_iff json_good_def)
  from m have "list_all2 (\<lambda>x y. sanitize_app S x = Inr y) xs apps'" by (simp add: mapM_res_Inr_iff)
  then have "\<exists>x \<in> set xs. sanitize_app S x = Inr y" if "y \<in> set apps'" for y
    using that by (auto simp: list_all2_conv_all_nth in_set_conv_nth) (metis nth_mem)
  then show ?thesis using ok sanitize_app_completed [OF assms(1,2)] by (metis Ball_set)
qed

lemma sanitize_completed_apps:
  assumes "sdk_model_law S" and "sdk_names_law S" and "list_all (completed_app S) apps"
  shows "sanitize_apps S (PList apps) = Inr apps"
  using assms(3) sanitize_completed_app [OF assms(1,2)] mapM_res_all [of apps "sanitize_app S" id]
  by (simp add: sanitize_apps_def list_all_iff)

text \<open>A completed account: all names in order, nothing false where the code has a default.\<close>

definition completed_account :: "sdk \<Rightarrow> pydict \<Rightarrow> bool" where
  "completed_account S acc \<longleftrightarrow> dict_keys acc = map snd account_attributes \<and> json_good (PDict acc) \<and>
     (\<exists>a. dict_get acc ''auth-addr'' = Some a \<and> py_true a) \<and>
     (\<exists>apps. dict_get acc ''created-apps'' = Some (PList apps) \<and> list_all (completed_app S) apps) \<and>
     (\<forall>k \<in> {''created-assets'', ''apps-local-state'', ''assets''}. \<exists>v. dict_get acc k = Some v \<and> (py_true v \<or> v = PList []))"

lemma default_if_false_result:
  assumes "default_if_false k v d = Inr d'" and "json_good v" and "json_good (PDict d)"
  shows "dict_keys d' = dict_keys d \<and> json_good (PDict d') \<and>
    (\<exists>x. dict_get d' k = Some x \<and> (py_true x \<or> x = v)) \<and> (\<forall>k'. k' \<noteq> k \<longrightarrow> dict_get d' k' = dict_get d k')"
proof -
  from assms(1) obtain x where x: "dict_get d k = Some x" and d': "d' = (if py_true x then d else dict_set d k v)"
    by (auto simp: default_if_false_def res_iff)
  then have "k \<in> set (dict_keys d)" by (metis dict_get_None_iff option.distinct(1))
  then show ?thesis
    using x update_json_good [OF assms(3,2)] assms(3) by (auto simp: d' dict_keys_set dict_get_set )
qed

lemma default_if_false_id:
  "dict_get d k = Some x \<Longrightarrow> py_true x \<or> x = v \<Longrightarrow> default_if_false k v d = Inr d"
  by (auto simp: default_if_false_def dict_set_same)

lemma sanitize_account_completed:
  assumes "sdk_model_law S" and "sdk_names_law S" and "json_good v" and "sanitize_account S v = Inr acc"
  shows "completed_account S acc"
proof -
  have names: "attribute_map S ''KAVMAccount'' = account_attributes" "attribute_map S ''KAVMAccount'' \<noteq> []"
    using assms(2) by (auto simp: sdk_names_law_def account_attributes_def)
  from assms(4) obtain d t acc1 apps apps' acc2 acc3 where v: "v = PDict d"
    and t: "translate_keys S ''KAVMAccount'' d = Inr t"
    and 1: "default_if_false ''auth-addr'' (PStr ZERO_ADDRESS) (dictify S (new_model S ''KAVMAccount'' t)) = Inr acc1"
    and a: "dict_get acc1 ''created-apps'' = Some apps"
    and a': "(if py_true apps then map_res PList (sanitize_apps S apps) else Inr (PList [])) = Inr apps'"
    and 2: "default_if_false ''created-assets'' (PList []) (dict_set acc1 ''created-apps'' apps') = Inr acc2"
    and 3: "default_if_false ''apps-local-state'' (PList []) acc2 = Inr acc3"
    and 4: "default_if_false ''assets'' (PList []) acc3 = Inr acc"
    by (cases v) (auto simp: sanitize_account_def res_iff Let_def)
  have d: "json_good (PDict d)" using assms(3) v by simp
  from model_dict [OF assms(1) names(2) d t] names(1)
  have m: "dict_keys (dictify S (new_model S ''KAVMAccount'' t)) = map snd account_attributes"
    "json_good (PDict (dictify S (new_model S ''KAVMAccount'' t)))"
    "dict_get (dictify S (new_model S ''KAVMAccount'' t)) ''created-apps'' = Some (value_or_None (dict_get d ''created-apps''))"
    by (simp_all add: account_attributes_def)
  have nil: "json_good (PList [])" by simp
  from default_if_false_result [OF 1 _ m(2)] m(1)
  have acc1: "dict_keys acc1 = map snd account_attributes" "json_good (PDict acc1)"
    "\<exists>x. dict_get acc1 ''auth-addr'' = Some x \<and> (py_true x \<or> x = PStr ZERO_ADDRESS)" by simp_all
  have "apps = value_or_None (dict_get d ''created-apps'')"
    using default_if_false_result [OF 1 _ m(2)] m(3) a by simp
  then have "json_good apps" using get_json_good [OF d] by simp
  then obtain as where as: "apps' = PList as" "list_all (completed_app S) as"
    using a' sanitize_apps_completed [OF assms(1,2)] by (auto simp: res_iff split: if_splits)
  then have "json_good apps'" by (auto simp: completed_app_def list_all_iff)
  then have s: "json_good (PDict (dict_set acc1 ''created-apps'' apps'))" using acc1(2) by (intro update_json_good)
  note r2 = default_if_false_result [OF 2 nil s]
  note r3 = default_if_false_result [OF 3 nil r2 [THEN conjunct2, THEN conjunct1]]
  note r4 = default_if_false_result [OF 4 nil r3 [THEN conjunct2, THEN conjunct1]]
  have "dict_keys acc = map snd account_attributes"
    using r2 r3 r4 acc1(1) by (simp add: dict_keys_set account_attributes_def)
  then show ?thesis
    using r2 r3 r4 acc1(3) as by (auto simp: completed_account_def dict_get_set ZERO_ADDRESS_def )
qed

text \<open>A completed account is left alone, and the model made of it gives it back.\<close>

lemma sanitize_completed_account:
  assumes "sdk_model_law S" and "sdk_names_law S" and "completed_account S acc"
  shows "sanitize_account S (PDict acc) = Inr acc \<and>
    (\<exists>t. translate_keys S ''KAVMAccount'' acc = Inr t \<and> dictify S (new_model S ''KAVMAccount'' t) = acc \<and>
      dict_get t ''address'' = dict_get acc ''address'')"
proof -
  have names: "attribute_map S ''KAVMAccount'' = account_attributes" "attribute_map S ''KAVMAccount'' \<noteq> []"
    using assms(2) by (auto simp: sdk_names_law_def account_attributes_def)
  obtain a apps where acc: "dict_keys acc = map snd account_attributes" "json_good (PDict acc)"
    "dict_get acc ''auth-addr'' = Some a" "py_true a"
    "dict_get acc ''created-apps'' = Some (PList apps)" "list_all (completed_app S) apps"
    and rest: "\<And>k. k \<in> {''created-assets'', ''apps-local-state'', ''assets''} \<Longrightarrow>
      \<exists>v. dict_get acc k = Some v \<and> (py_true v \<or> v = PList [])"
    using assms(3) unfolding completed_account_def by blast
  from model_of_dict [OF assms(1) names(2), of acc] acc(1,2) names(1)
  obtain t where t: "translate_keys S ''KAVMAccount'' acc = Inr t" "dictify S (new_model S ''KAVMAccount'' t) = acc"
    "\<forall>(a, j) \<in> set account_attributes. dict_get t a = dict_get acc j" by auto
  then have addr: "dict_get t ''address'' = dict_get acc ''address''" by (simp add: account_attributes_def)
  have d: "default_if_false k (PList []) acc = Inr acc" if "k \<in> {''created-assets'', ''apps-local-state'', ''assets''}" for k
    using rest [OF that] default_if_false_id by blast
  have "default_if_false ''auth-addr'' (PStr ZERO_ADDRESS) acc = Inr acc"
    using acc(3,4) default_if_false_id by blast
  moreover have "(if py_true (PList apps) then map_res PList (sanitize_apps S (PList apps)) else Inr (PList [])) = Inr (PList apps)"
    using sanitize_completed_apps [OF assms(1,2) acc(6)] by simp
  ultimately have "sanitize_account S (PDict acc) = Inr acc"
    using d acc(5) t(1,2) by (simp add: sanitize_account_def dict_set_same del: py_true.simps)
  with t(1,2) addr show ?thesis by blast
qed

end
