(* ===== verification/AlgodClient.thy ===== *)
theory AlgodClient
  imports KavmRunner Completion
begin

text \<open>
  \<open>kavm/algod.py\<close>, the client that stands in for an Algorand node: its state (accounts,
  creators of applications, committed transactions), the requests it answers from the state,
  and the evaluation of a transaction group, which builds a scenario, runs it and replaces
  the accounts by the ones of the final state.
\<close>

section \<open>Decoding a transaction group\<close>

text \<open>
  The unpacker of the \<open>msgpack\<close> package: the object that starts at a position of its input and
  the position behind it; \<open>decode_txn\<close> is the SDK's \<open>future_msgpack_decode\<close>.
\<close>

record msgpack =
  unpack :: "bytes \<Rightarrow> nat \<Rightarrow> (pyval \<times> nat) res"
  decode_txn :: "pyval \<Rightarrow> pyval res"

text \<open>The loop runs while input is left; \<open>None\<close> is a loop that does not end.\<close>

partial_function (option) msgpack_loop ::
    "msgpack \<Rightarrow> bytes \<Rightarrow> nat \<Rightarrow> pyval list \<Rightarrow> pyval list res option" where
  "msgpack_loop M enc pos acc =
     (if pos < length enc then
        (case unpack M enc pos of
           Inl e \<Rightarrow> Some (Inl e)
         | Inr (obj, pos') \<Rightarrow>
             (case decode_txn M obj of
                Inl e \<Rightarrow> Some (Inl e)
              | Inr t \<Rightarrow> msgpack_loop M enc pos' (acc @ [t])))
      else Some (Inr acc))"

definition msgpack_decode_txn_list :: "msgpack \<Rightarrow> bytes \<Rightarrow> pyval list res option" where
  "msgpack_decode_txn_list M enc = msgpack_loop M enc 0 []"

section \<open>The client's state\<close>

record client =
  committed_txns :: "(string, pyval) dict"
  accounts :: "(string, pyval) dict"
  app_creators :: "(int, string) dict"
  last_scenario :: "scenario option"

text \<open>
  The world of a client: the SDK (with the dictionary of a transaction), the K tools, the
  TEAL directory and the unpacker.
\<close>

record algod_env =
  a_sdk :: sdk
  txn_dictify :: "pyval \<Rightarrow> pydict res"
  a_tools :: ktools
  a_teal :: teal_env
  a_files :: files
  a_msgpack :: msgpack

text \<open>An action on a state, here the client; the state is kept when it raises.\<close>

type_synonym ('s, 'a) action = "'s \<Rightarrow> 'a res \<times> 's"

type_synonym 'a act = "(client, 'a) action"

definition lift_act :: "'a res \<Rightarrow> ('s, 'a) action" where
  "lift_act r = (\<lambda>c. (r, c))"

definition bind_act :: "('s, 'a) action \<Rightarrow> ('a \<Rightarrow> ('s, 'b) action) \<Rightarrow> ('s, 'b) action" where
  "bind_act m f = (\<lambda>c. case m c of (Inl e, c') \<Rightarrow> (Inl e, c') | (Inr x, c') \<Rightarrow> f x c')"

definition modify_act :: "('s \<Rightarrow> 's) \<Rightarrow> ('s, unit) action" where
  "modify_act g = (\<lambda>c. (Inr (), g c))"

fun for_each :: "('a \<Rightarrow> ('s, unit) action) \<Rightarrow> 'a list \<Rightarrow> ('s, unit) action" where
  "for_each f [] s = (Inr (), s)"
| "for_each f (x # xs) s = (case f x s of (Inl e, s') \<Rightarrow> (Inl e, s') | (Inr u, s') \<Rightarrow> for_each f xs s')"

definition new_account :: "sdk \<Rightarrow> string \<Rightarrow> int \<Rightarrow> pyval" where
  "new_account S address amount =
     new_model S ''KAVMAccount'' [(''address'', PStr address), (''amount'', PInt amount)]"

definition init_client :: "sdk \<Rightarrow> string \<Rightarrow> client" where
  "init_client S faucet = \<lparr>committed_txns = [],
     accounts = [(faucet, new_account S faucet FAUCET_ALGO_SUPPLY)], app_creators = [], last_scenario = None\<rparr>"

text \<open>\<open>KAVMClient\<close>: without a definition directory in the environment the program ends.\<close>

definition start_client :: "sdk \<Rightarrow> (string \<Rightarrow> string res) \<Rightarrow> string option \<Rightarrow> string \<Rightarrow> (client \<times> kavm_object) res" where
  "start_client S read_text env_definition_dir faucet =
     (case env_definition_dir of
        None \<Rightarrow> Inl (SystemExit 1)
      | Some definition_dir \<Rightarrow> map_res (Pair (init_client S faucet)) (kavm_init read_text definition_dir None None))"

section \<open>Requests answered from the state\<close>

definition transaction_params :: pydict where
  "transaction_params =
     [(''consensus-version'', PInt 31), (''fee'', PInt 1000), (''genesis-id'', PStr ''pyteal-eval''),
      (''genesis-hash'', PStr ''pyteal-evalpyteal-evalpyteal-evalpyteal-eval''),
      (''last-round'', PInt 1), (''min-fee'', PInt 1000)]"

definition status_response :: pydict where
  "status_response =
     [(''catchup-time'', PInt 0), (''last-round'', PInt 1000000000000000), (''last-version'', PStr ''kavm''),
      (''next-version'', PStr ''kavm''), (''next-version-round'', PInt 0),
      (''next-version-supported'', PBool True), (''stopped-at-unsupported-round'', PBool True),
      (''time-since-last-round'', PInt 0), (''last-catchpoint'', PStr ''kavm''),
      (''catchpoint'', PStr ''kavm''), (''catchpoint-total-accounts'', PInt 0),
      (''catchpoint-processed-accounts'', PInt 0), (''catchpoint-verified-accounts'', PInt 0),
      (''catchpoint-total-blocks'', PInt 0), (''catchpoint-acquired-blocks'', PInt 0)]"

text \<open>An unknown transaction id is answered with the last entry in the order of the ids.\<close>

definition get_pending :: "client \<Rightarrow> string list \<Rightarrow> pyval res" where
  "get_pending c params =
     (if 2 \<le> length params then
        (case dict_get (committed_txns c) (params ! 1) of
           Some txn \<Rightarrow> Inr txn
         | None \<Rightarrow>
             (let items = sorted_items (committed_txns c)
              in if items = [] then Inl IndexError else Inr (snd (last items))))
      else Inl NotImplementedError)"

definition get_account :: "sdk \<Rightarrow> client \<Rightarrow> string list \<Rightarrow> pyval res" where
  "get_account S c params =
     (case params of
        [address] \<Rightarrow> Inr (PDict (dictify S (case dict_get (accounts c) address of
            Some acc \<Rightarrow> acc | None \<Rightarrow> new_account S address 0)))
      | _ \<Rightarrow> Inl NotImplementedError)"

definition app_has_id :: "int \<Rightarrow> pyval \<Rightarrow> bool res" where
  "app_has_id app_id app = map_res (\<lambda>i. eq_int i app_id) (py_get app ''id'')"

fun filterM_res :: "('a \<Rightarrow> bool res) \<Rightarrow> 'a list \<Rightarrow> 'a list res" where
  "filterM_res f [] = Inr []"
| "filterM_res f (x # xs) =
     bind_res (f x) (\<lambda>b. map_res (\<lambda>ys. if b then x # ys else ys) (filterM_res f xs))"

text \<open>
  The handler of the inner \<open>try\<close> looks the account up again for its message, so a creator that
  is no account any more is a \<open>KeyError\<close>.
\<close>

definition find_app :: "client \<Rightarrow> string \<Rightarrow> int \<Rightarrow> pyval res" where
  "find_app c creator app_id =
     catch_res
       (bind_res (of_option KeyError (dict_get (accounts c) creator)) (\<lambda>acc.
        bind_res (py_attr acc ''created_apps'') (\<lambda>apps.
        bind_res (py_iter apps) (\<lambda>xs.
        bind_res (filterM_res (app_has_id app_id) xs) (\<lambda>ys.
        case ys of [] \<Rightarrow> Inl IndexError | y # _ \<Rightarrow> Inr y)))))
       (\<lambda>e. e = KeyError \<or> e = IndexError)
       (\<lambda>_. if dict_get (accounts c) creator = None then Inl KeyError else Inl ValueError)"

definition get_application :: "client \<Rightarrow> string list \<Rightarrow> pyval res" where
  "get_application c params =
     (case params of
        [] \<Rightarrow> Inl IndexError
      | p # _ \<Rightarrow>
          bind_res (int_of_str p) (\<lambda>app_id.
          case dict_get (app_creators c) app_id of
            None \<Rightarrow> Inl ValueError
          | Some creator \<Rightarrow> find_app c creator app_id))"

definition handle_get :: "sdk \<Rightarrow> client \<Rightarrow> string \<Rightarrow> pyval res" where
  "handle_get S c requrl =
     (case split_on (CHR ''/'') requrl of
        _ # endpoint # params \<Rightarrow>
          if endpoint = ''transactions'' then
            (case params of
               [] \<Rightarrow> Inl IndexError
             | p # _ \<Rightarrow>
                 if p = ''params'' then Inr (PDict transaction_params)
                 else if p = ''pending'' then get_pending c params
                 else Inl NotImplementedError)
          else if endpoint = ''accounts'' then get_account S c params
          else if endpoint = ''applications'' then get_application c params
          else if endpoint = ''status'' then Inr (PDict status_response)
          else Inl NotImplementedError
      | _ \<Rightarrow> Inl ValueError)"

section \<open>Evaluating a transaction group\<close>

definition register_address :: "sdk \<Rightarrow> string \<Rightarrow> client \<Rightarrow> client" where
  "register_address S a c =
     (if dict_get (accounts c) a = None
      then c\<lparr>accounts := dict_set (accounts c) a (new_account S a 0)\<rparr> else c)"

text \<open>The sender, and the receiver if the transaction has the attribute. Addresses are texts.\<close>

definition register_txn :: "sdk \<Rightarrow> pyval \<Rightarrow> unit act" where
  "register_txn S txn =
     bind_act (lift_act (bind_res (py_attr txn ''sender'') as_str)) (\<lambda>sender.
     bind_act (modify_act (register_address S sender)) (\<lambda>_.
     case py_attr txn ''receiver'' of
       Inl _ \<Rightarrow> lift_act (Inr ())
     | Inr v \<Rightarrow> bind_act (lift_act (as_str v)) (\<lambda>receiver. modify_act (register_address S receiver))))"

definition transaction_json :: "algod_env \<Rightarrow> pyval \<Rightarrow> pyval res" where
  "transaction_json A txn =
     bind_res (txn_dictify A txn) (\<lambda>d. map_res PDict (sanitize_byte_fields (a_sdk A) (sort_dict d)))"

definition scenario_json :: "pyval list \<Rightarrow> pyval list \<Rightarrow> pyval" where
  "scenario_json accs txns = PDict [(''stages'', PList
     [PDict [(''stage-type'', PStr ''setup-network''), (''data'', PDict [(''accounts'', PList accs)])],
      PDict [(''stage-type'', PStr ''submit-transactions''), (''data'', PDict [(''transactions'', PList txns)]),
        (''expected-returncode'', PInt 0)]])]"

definition construct_scenario :: "algod_env \<Rightarrow> pyval list \<Rightarrow> pyval list \<Rightarrow> scenario res" where
  "construct_scenario A accs txns =
     bind_res (mapM_res (transaction_json A) txns) (\<lambda>ts.
     bind_res (json_dumps default_layout
         (scenario_json (map (\<lambda>acc. PDict (dictify (a_sdk A) acc)) accs) ts)) (\<lambda>text.
     from_json (a_sdk A) (a_teal A) text))"

definition run_group :: "algod_env \<Rightarrow> scenario \<Rightarrow> string res" where
  "run_group A sc = catch_res
     (map_res snd (run_avm_json (a_tools A) (a_files A) sc None True False ''kore''))
     is_runtime_error (\<lambda>_. Inl AlgodHTTPError)"

definition parse_state_dump :: "string \<Rightarrow> pydict res" where
  "parse_state_dump kavm_stderr = catch_res
     (bind_res (json_loads kavm_stderr) (\<lambda>v. case v of PDict d \<Rightarrow> Inr d | _ \<Rightarrow> Inl AssertionError))
     (\<lambda>e. e = JSONDecodeError) (\<lambda>_. Inl AlgodHTTPError)"

text \<open>The inner loops of the update: the applications of every account known so far.\<close>

definition creator_step :: "string \<Rightarrow> pyval \<Rightarrow> unit act" where
  "creator_step addr app =
     bind_act (lift_act (bind_res (py_get app ''id'') as_int)) (\<lambda>i.
     modify_act (\<lambda>c. c\<lparr>app_creators := dict_set (app_creators c) i addr\<rparr>))"

definition account_creators :: "string \<times> pyval \<Rightarrow> unit act" where
  "account_creators = (\<lambda>(addr, acc).
     bind_act (lift_act (bind_res (py_attr acc ''created_apps'') py_iter)) (for_each (creator_step addr)))"

definition store_account :: "sdk \<Rightarrow> pydict \<Rightarrow> unit act" where
  "store_account S acc_dict =
     bind_act (lift_act (translate_keys S ''KAVMAccount'' acc_dict)) (\<lambda>translated.
     bind_act (lift_act (bind_res (dict_lookup translated ''address'') as_str)) (\<lambda>address.
     bind_act (modify_act (\<lambda>c. c\<lparr>accounts := dict_set (accounts c) address
         (new_model S ''KAVMAccount'' translated)\<rparr>)) (\<lambda>_ c.
     for_each account_creators (accounts c) c)))"

definition store_txn :: "pyval \<Rightarrow> unit act" where
  "store_txn txn =
     bind_act (lift_act (bind_res (py_get txn ''id'') as_str)) (\<lambda>i.
     bind_act (lift_act (py_get txn ''params'')) (\<lambda>p.
     modify_act (\<lambda>c. c\<lparr>committed_txns := dict_set (committed_txns c) i p\<rparr>)))"

definition first_txn_id :: "pydict \<Rightarrow> pyval res" where
  "first_txn_id state_dump =
     bind_res (dict_lookup state_dump ''transactions'') (\<lambda>ts.
     bind_res (py_index ts 0) (\<lambda>t. map_res (\<lambda>i. PDict [(''txId'', i)]) (py_get t ''id'')))"

text \<open>The tracked accounts are dropped before the ones of the dump are read.\<close>

definition update_state :: "sdk \<Rightarrow> pydict \<Rightarrow> pyval act" where
  "update_state S state_dump =
     bind_act (modify_act (\<lambda>c. c\<lparr>accounts := []\<rparr>)) (\<lambda>_.
     bind_act (lift_act (bind_res (dict_lookup state_dump ''accounts'') (sanitize_accounts S))) (\<lambda>accs.
     bind_act (for_each (store_account S) accs) (\<lambda>_.
     bind_act (lift_act (bind_res (dict_lookup state_dump ''transactions'') py_iter)) (\<lambda>txns.
     bind_act (for_each store_txn txns) (\<lambda>_.
     lift_act (first_txn_id state_dump))))))"

definition eval_transactions :: "algod_env \<Rightarrow> pyval list \<Rightarrow> pyval act" where
  "eval_transactions A txns =
     bind_act (for_each (register_txn (a_sdk A)) txns) (\<lambda>_ c.
     bind_act (lift_act (construct_scenario A (map snd (accounts c)) txns)) (\<lambda>sc.
     bind_act (modify_act (\<lambda>c. c\<lparr>last_scenario := Some sc\<rparr>)) (\<lambda>_.
     bind_act (lift_act (bind_res (run_group A sc) parse_state_dump)) (\<lambda>state_dump.
     update_state (a_sdk A) state_dump))) c)"

section \<open>Requests\<close>

text \<open>\<open>None\<close>: decoding the group does not end.\<close>

definition handle_post :: "algod_env \<Rightarrow> string \<Rightarrow> bytes option \<Rightarrow> client \<Rightarrow> (pyval res \<times> client) option" where
  "handle_post A requrl data c =
     (if requrl = ''/transactions'' then
        (case data of
           None \<Rightarrow> Some (Inl AssertionError, c)
         | Some enc \<Rightarrow>
             (case msgpack_decode_txn_list (a_msgpack A) enc of
                None \<Rightarrow> None
              | Some (Inl e) \<Rightarrow> Some (Inl e, c)
              | Some (Inr stxns) \<Rightarrow>
                  (case mapM_res (\<lambda>t. py_attr t ''transaction'') stxns of
                     Inl e \<Rightarrow> Some (Inl e, c)
                   | Inr txns \<Rightarrow> Some (eval_transactions A txns c))))
      else if requrl = ''/teal/compile'' then
        (case data of
           None \<Rightarrow> Some (Inl AssertionError, c)
         | Some pgm \<Rightarrow> Some (Inr (PDict [(''result'', PBytes (encode_utf8 (b64encode pgm)))]), c))
      else Some (Inl NotImplementedError, c))"

definition algod_request ::
    "algod_env \<Rightarrow> string \<Rightarrow> string \<Rightarrow> bytes option \<Rightarrow> client \<Rightarrow> (pyval res \<times> client) option" where
  "algod_request A meth requrl data c =
     (if meth = ''GET'' then Some (handle_get (a_sdk A) c requrl, c)
      else if meth = ''POST'' then handle_post A requrl data c
      else Some (Inl NotImplementedError, c))"

text \<open>The clients that a sequence of requests leads to.\<close>

inductive reachable :: "algod_env \<Rightarrow> string \<Rightarrow> client \<Rightarrow> bool" for A faucet where
  reachable_init: "reachable A faucet (init_client (a_sdk A) faucet)"
| reachable_step: "reachable A faucet c \<Longrightarrow> algod_request A meth requrl data c = Some (r, c') \<Longrightarrow>
    reachable A faucet c'"

definition intermediate_k_state :: "algod_env \<Rightarrow> client \<Rightarrow> final_state res" where
  "intermediate_k_state A c =
     bind_res (construct_scenario A (map snd (accounts c)) []) (\<lambda>sc.
     map_res fst (run_avm_json (a_tools A) (a_files A) sc None False False ''pretty''))"

section \<open>Loops over actions\<close>

text \<open>The interface of a loop body that keeps an invariant, and what loops over it keep.\<close>

locale keeping =
  fixes ok :: "'s \<Rightarrow> bool"
    and body :: "'a \<Rightarrow> 's \<Rightarrow> unit res \<times> 's"
  assumes body_keeps: "ok s \<Longrightarrow> ok (snd (body x s))"
begin

lemma loop_keeps: "ok s \<Longrightarrow> ok (snd (for_each body xs s))"
  by (induction xs arbitrary: s) (auto dest: body_keeps split: prod.splits sum.splits, (metis body_keeps snd_conv)+)

end

lemma act_simps [simp]:
  "lift_act r c = (r, c)"
  "modify_act g c = (Inr (), g c)"
  by (simp_all add: lift_act_def modify_act_def)

lemma bind_act_result [res_iff]:
  "bind_act m f c = (Inr y, c') \<longleftrightarrow> (\<exists>x c1. m c = (Inr x, c1) \<and> f x c1 = (Inr y, c'))"
  by (auto simp: bind_act_def split: prod.splits sum.splits)

lemma bind_act_lift [simp]:
  "bind_act (lift_act (Inr x)) f c = f x c"
  "bind_act (lift_act (Inl e)) f c = (Inl e, c)"
  "bind_act (modify_act g) h c = h () (g c)"
  by (simp_all add: bind_act_def)

lemma bind_act_state:
  "snd (bind_act (lift_act r) f c) = (case r of Inl e \<Rightarrow> c | Inr x \<Rightarrow> snd (f x c))"
  by (cases r) simp_all

lemma bind_act_keeps:
  "ok (snd (m c)) \<Longrightarrow> (\<And>x c1. ok c1 \<Longrightarrow> ok (snd (f x c1))) \<Longrightarrow> ok (snd (bind_act m f c))"
  by (cases "m c") (auto simp: bind_act_def split: sum.splits)

text \<open>Dictionaries without duplicate keys, and every account filed under its own address.\<close>

definition client_ok :: "sdk \<Rightarrow> client \<Rightarrow> bool" where
  "client_ok S c \<longleftrightarrow> wf_dict (accounts c) \<and> wf_dict (committed_txns c) \<and> wf_dict (app_creators c) \<and>
     (sdk_attr_law S \<longrightarrow> (\<forall>a acc. dict_get (accounts c) a = Some acc \<longrightarrow> py_attr acc ''address'' = Inr (PStr a)))"

lemma new_account_address: "sdk_attr_law S \<Longrightarrow> py_attr (new_account S a n) ''address'' = Inr (PStr a)"
  by (simp add: sdk_attr_law_def new_account_def)

lemma register_address_ok: "client_ok S c \<Longrightarrow> client_ok S (register_address S a c)"
  by (auto simp: client_ok_def register_address_def new_account_address dict_get_set)

lemma register_txn_ok: "client_ok S c \<Longrightarrow> client_ok S (snd (register_txn S t c))"
  by (auto simp: register_txn_def bind_act_state register_address_ok split: sum.splits)

lemma creator_step_ok: "client_ok S c \<Longrightarrow> client_ok S (snd (creator_step addr app c))"
  by (auto simp: creator_step_def bind_act_state client_ok_def split: sum.splits)

lemma store_txn_ok: "client_ok S c \<Longrightarrow> client_ok S (snd (store_txn t c))"
  by (auto simp: store_txn_def bind_act_state client_ok_def split: sum.splits)

interpretation registering: keeping "client_ok S" "register_txn S" for S
  by unfold_locales (rule register_txn_ok)

interpretation creating: keeping "client_ok S" "creator_step addr" for S addr
  by unfold_locales (rule creator_step_ok)

interpretation committing: keeping "client_ok S" store_txn for S
  by unfold_locales (rule store_txn_ok)

lemma account_creators_ok: "client_ok S c \<Longrightarrow> client_ok S (snd (account_creators x c))"
  by (auto simp: account_creators_def bind_act_state creating.loop_keeps split: prod.splits sum.splits)

interpretation all_creators: keeping "client_ok S" account_creators for S
  by unfold_locales (rule account_creators_ok)

lemma as_str_Inr [simp]: "as_str v = Inr s \<longleftrightarrow> v = PStr s"
  by (cases v) auto

lemma store_account_ok:
  assumes "client_ok S c"
  shows "client_ok S (snd (store_account S d c))"
proof (cases "translate_keys S ''KAVMAccount'' d")
  case (Inl e)
  then show ?thesis using assms by (simp add: store_account_def)
next
  case (Inr t)
  show ?thesis
  proof (cases "bind_res (dict_lookup t ''address'') as_str")
    case (Inl e)
    then show ?thesis using assms Inr by (simp add: store_account_def)
  next
    case (Inr a)
    then have a: "dict_get t ''address'' = Some (PStr a)" by (auto simp: res_iff)
    then have "sdk_attr_law S \<Longrightarrow> py_attr (new_model S ''KAVMAccount'' t) ''address'' = Inr (PStr a)"
      by (simp add: sdk_attr_law_def)
    then have "client_ok S (c\<lparr>accounts := dict_set (accounts c) a (new_model S ''KAVMAccount'' t)\<rparr>)"
      using assms by (auto simp: client_ok_def dict_get_set)
    then show ?thesis
      using \<open>translate_keys S ''KAVMAccount'' d = Inr t\<close> Inr by (simp add: store_account_def all_creators.loop_keeps)
  qed
qed

interpretation storing: keeping "client_ok S" "store_account S" for S
  by unfold_locales (rule store_account_ok)

lemmas bind_act_ok = bind_act_keeps [where ok = "client_ok S" for S]

lemma update_state_ok: "client_ok S c \<Longrightarrow> client_ok S (snd (update_state S d c))"
  unfolding update_state_def
  by (intro bind_act_ok storing.loop_keeps committing.loop_keeps) (auto simp: client_ok_def)

lemma client_ok_scenario [simp]: "client_ok S (c\<lparr>last_scenario := x\<rparr>) = client_ok S c"
  by (simp add: client_ok_def)

lemma eval_transactions_ok: "client_ok (a_sdk A) c \<Longrightarrow> client_ok (a_sdk A) (snd (eval_transactions A txns c))"
  unfolding eval_transactions_def
  by (intro bind_act_ok registering.loop_keeps update_state_ok) auto

text \<open>Only a group changes the client; every other request leaves it as it is.\<close>

lemma request_changes:
  assumes "algod_request A meth requrl data c = Some (r, c')"
  shows "c' = c \<or> (\<exists>txns. c' = snd (eval_transactions A txns c))"
proof -
  have "c' = c \<or> (\<exists>txns. eval_transactions A txns c = (r, c'))"
    using assms by (auto simp: algod_request_def handle_post_def
        split: if_splits option.splits sum.splits)
  then show ?thesis by (metis snd_conv)
qed

lemma request_ok:
  assumes "client_ok (a_sdk A) c" and "algod_request A meth requrl data c = Some (r, c')"
  shows "client_ok (a_sdk A) c'"
  using request_changes [OF assms(2)] assms(1) eval_transactions_ok by auto

section \<open>Properties\<close>

subsection \<open>The state\<close>

inductive_cases reachable_cases: "reachable A faucet c"

text \<open>
  C1: in every state a client can reach by requests, answered or failed, no address, transaction
  id or application id is filed twice, and every account is filed under its own address.
\<close>

theorem reachable_client_ok:
  assumes "reachable A faucet c" and "sdk_attr_law (a_sdk A)"
  shows "wf_dict (accounts c) \<and> wf_dict (committed_txns c) \<and> wf_dict (app_creators c) \<and>
    (\<forall>a acc. dict_get (accounts c) a = Some acc \<longrightarrow> py_attr acc ''address'' = Inr (PStr a))"
proof -
  from assms(1) have "client_ok (a_sdk A) c"
  proof (induction rule: reachable.induct)
    case reachable_init
    then show ?case by (simp add: client_ok_def init_client_def wf_dict_def new_account_address)
  next
    case (reachable_step c meth requrl data r c')
    from reachable_step.IH reachable_step.hyps(2) show ?case by (rule request_ok)
  qed
  with assms(2) show ?thesis by (simp add: client_ok_def)
qed

definition sample_msgpack :: msgpack where
  "sample_msgpack = \<lparr>unpack = (\<lambda>enc pos. Inr (PInt (uint (enc ! pos)), Suc pos)),
     decode_txn = (\<lambda>v. Inr (PObj ''SignedTransaction'' [(''transaction'', v)]))\<rparr>"

definition sample_algod :: algod_env where
  "sample_algod = \<lparr>a_sdk = ref_sdk, txn_dictify = as_items, a_tools = sample_tools 0,
     a_teal = \<lparr>read_teal = (\<lambda>f. Inl FileNotFoundError), sha512_hexdigest = (\<lambda>b. []), teal_decompiler = None\<rparr>,
     a_files = [], a_msgpack = sample_msgpack\<rparr>"

theorem reachable_client_ok_witness:
  "\<exists>c. reachable sample_algod ''FAUCET'' c \<and> wf_dict (accounts c) \<and>
     py_attr (the (dict_get (accounts c) ''FAUCET'')) ''address'' = Inr (PStr ''FAUCET'')"
proof -
  let ?c = "init_client ref_sdk ''FAUCET''"
  have s: "a_sdk sample_algod = ref_sdk" by (simp add: sample_algod_def)
  have r: "reachable sample_algod ''FAUCET'' ?c" using reachable_init [of sample_algod] by (simp add: s)
  have "sdk_attr_law (a_sdk sample_algod)" by (simp add: s ref_attr_law)
  from reachable_client_ok [OF r this] r show ?thesis by (auto simp: init_client_def intro!: exI [of _ ?c])
qed

subsection \<open>Decoding a group\<close>

text \<open>The unpacker moves forward.\<close>

definition msgpack_law :: "msgpack \<Rightarrow> bool" where
  "msgpack_law M \<longleftrightarrow> (\<forall>enc pos obj pos'. unpack M enc pos = Inr (obj, pos') \<longrightarrow> pos < pos')"

text \<open>\<open>pack\<close> is the encoder: the unpacker finds an object where its encoding stands.\<close>

definition packs :: "msgpack \<Rightarrow> (pyval \<Rightarrow> bytes) \<Rightarrow> pyval \<Rightarrow> bool" where
  "packs M pack obj \<longleftrightarrow> (\<forall>pre post. pack obj \<noteq> [] \<and>
     unpack M (pre @ pack obj @ post) (length pre) = Inr (obj, length pre + length (pack obj)))"

lemma msgpack_loop_ends:
  assumes "msgpack_law M"
  shows "\<exists>r. msgpack_loop M enc pos acc = Some r"
proof (induction "length enc - pos" arbitrary: pos acc rule: less_induct)
  case less
  have "\<exists>r. msgpack_loop M enc pos' acc' = Some r" if "pos < length enc" "unpack M enc pos = Inr (obj, pos')"
    for obj pos' acc'
  proof -
    have "pos < pos'" using assms that unfolding msgpack_law_def by blast
    with that show ?thesis by (intro less) simp
  qed
  then show ?case
    by (subst msgpack_loop.simps) (auto split: sum.splits)
qed

lemma msgpack_loop_packed:
  assumes "list_all (packs M pack) objs"
  shows "msgpack_loop M (pre @ concat (map pack objs)) (length pre) acc =
    Some (map_res (\<lambda>ts. acc @ ts) (mapM_res (decode_txn M) objs))"
  using assms
proof (induction objs arbitrary: pre acc)
  case Nil
  show ?case by (subst msgpack_loop.simps) simp
next
  case (Cons obj objs)
  have u: "unpack M (pre @ pack obj @ concat (map pack objs)) (length pre) =
      Inr (obj, length (pre @ pack obj))" and ne: "pack obj \<noteq> []"
    using Cons.prems by (simp_all add: packs_def)
  have IH: "msgpack_loop M (pre @ pack obj @ concat (map pack objs)) (length (pre @ pack obj)) acc' =
      Some (map_res (\<lambda>ts. acc' @ ts) (mapM_res (decode_txn M) objs))" for acc'
    using Cons.IH [of "pre @ pack obj" acc'] Cons.prems by simp
  have len: "length pre < length (pre @ pack obj @ concat (map pack objs))" using ne by simp
  show ?case
    by (subst msgpack_loop.simps)
      (cases "mapM_res (decode_txn M) objs"; auto simp: u len IH simp del: length_append split: sum.splits)
qed

text \<open>
  C40: the decoder of transaction groups terminates on every input, as the unpacker always moves
  forward, and it inverts the concatenation of encodings: it returns the decoded objects, all
  of them and in order, or the first error.
\<close>

theorem msgpack_decode_total:
  assumes "msgpack_law M" and "list_all (packs M pack) objs"
  shows "(\<exists>r. msgpack_decode_txn_list M enc = Some r) \<and>
    msgpack_decode_txn_list M (concat (map pack objs)) = Some (mapM_res (decode_txn M) objs)"
proof -
  have "map_res (\<lambda>ts. ts) m = m" for m :: "pyval list res" by (cases m) simp_all
  then show ?thesis
    using msgpack_loop_ends [OF assms(1)] msgpack_loop_packed [OF assms(2), of "[]" "[]"]
    by (simp add: msgpack_decode_txn_list_def)
qed

text \<open>An unpacker of single objects, coded in one byte each.\<close>

definition byte_msgpack :: msgpack where
  "byte_msgpack = \<lparr>unpack = (\<lambda>enc pos. Inr (PBytes [enc ! pos], Suc pos)), decode_txn = Inr\<rparr>"

theorem msgpack_decode_total_witness:
  "(\<exists>r. msgpack_decode_txn_list byte_msgpack [1, 2, 3] = Some r) \<and>
   msgpack_decode_txn_list byte_msgpack [7, 9] = Some (Inr [PBytes [7], PBytes [9]])"
proof -
  have law: "msgpack_law byte_msgpack" by (simp add: msgpack_law_def byte_msgpack_def)
  let ?pack = "\<lambda>v. case v of PBytes b \<Rightarrow> b | _ \<Rightarrow> []"
  have "list_all (packs byte_msgpack ?pack) [PBytes [7], PBytes [9]]"
    by (simp add: packs_def byte_msgpack_def)
  from msgpack_decode_total [OF law this] show ?thesis by (simp add: byte_msgpack_def)
qed

subsection \<open>Answers from the state\<close>

text \<open>
  A request for a transaction is answered with what was committed under its id; for an id
  that is unknown, with the transaction whose id is the greatest text, which need not be the
  one committed last, and with an \<open>IndexError\<close> if nothing was committed.
\<close>

theorem pending_transaction:
  assumes "CHR ''/'' \<notin> set i"
  shows "case dict_get (committed_txns c) i of
      Some t \<Rightarrow> handle_get S c (''/transactions/pending/'' @ i) = Inr t
    | None \<Rightarrow>
        if committed_txns c = [] then handle_get S c (''/transactions/pending/'' @ i) = Inl IndexError
        else \<exists>k t. (k, t) \<in> set (committed_txns c) \<and> (\<forall>k' \<in> set (dict_keys (committed_txns c)). k' \<le> k) \<and>
          handle_get S c (''/transactions/pending/'' @ i) = Inr t"
proof -
  let ?r = "handle_get S c (''/transactions/pending/'' @ i)"
  have r: "?r = get_pending c [''pending'', i]"
    by (simp add: handle_get_def split_on_plain [OF assms])
  show ?thesis
  proof (cases "dict_get (committed_txns c) i")
    case (Some t)
    then show ?thesis unfolding r by (simp add: get_pending_def)
  next
    case None
    let ?items = "sorted_items (committed_txns c)"
    have e: "?items = [] \<longleftrightarrow> committed_txns c = []" by (metis set_empty sorted_items_set)
    show ?thesis
    proof (cases "committed_txns c = []")
      case True
      with None e show ?thesis unfolding r by (simp add: get_pending_def Let_def)
    next
      case False
      obtain k t where l: "last ?items = (k, t)" by (cases "last ?items")
      then have "(k, t) \<in> set ?items" using False e by (metis last_in_set)
      moreover have "k' \<le> k" if "k' \<in> set (dict_keys ?items)" for k'
      proof -
        have "sorted (dict_keys ?items)" by (rule sorted_items_sorted)
        moreover have "last (dict_keys ?items) = k" using l False e by (simp add: last_map)
        ultimately show ?thesis using that False e
          by (metis append_butlast_last_id empty_iff in_set_butlastD list.set(1) map_is_Nil_conv
              set_ConsD sorted_append le_less rotate1.simps(2) set_rotate1 list.set_intros(1))
      qed
      ultimately show ?thesis unfolding r using None False l e by (auto simp: get_pending_def Let_def)
    qed
  qed
qed

theorem pending_transaction_witness:
  "handle_get ref_sdk \<lparr>committed_txns = [(''9'', PInt 1), (''10'', PInt 2)], accounts = [], app_creators = [], last_scenario = None\<rparr>
     (''/transactions/pending/'' @ ''11'') = Inr (PInt 1)"
proof -
  let ?c = "\<lparr>committed_txns = [(''9'', PInt 1), (''10'', PInt 2)], accounts = [], app_creators = [], last_scenario = None\<rparr> :: client"
  have "CHR ''/'' \<notin> set ''11''" by simp
  from pending_transaction [OF this, of ?c ref_sdk]
  show ?thesis by auto
qed

text \<open>
  A request for an account that is not known is answered with an empty account of that
  address, and for one that is known with its dictionary; no \<open>GET\<close> request changes the state.
\<close>

theorem get_requests:
  assumes "CHR ''/'' \<notin> set a"
  shows "handle_get S c (''/accounts/'' @ a) = Inr (PDict (dictify S (case dict_get (accounts c) a of
      Some acc \<Rightarrow> acc | None \<Rightarrow> new_account S a 0))) \<and>
    (\<forall>url data. \<exists>r. algod_request A ''GET'' url data c = Some (r, c))"
  by (simp add: handle_get_def split_on_plain [OF assms] get_account_def algod_request_def)

theorem get_requests_witness:
  "handle_get ref_sdk (init_client ref_sdk ''F'') (''/accounts/'' @ ''X'') =
     Inr (PDict (dictify ref_sdk (new_account ref_sdk ''X'' 0)))"
  using get_requests [of "''X''" ref_sdk "init_client ref_sdk ''F''"] by (simp add: init_client_def)

text \<open>
  A request for an application looks for it among the applications of the account recorded
  as its creator. It fails with a \<open>ValueError\<close> if no creator is recorded or the account does
  not list it; if the creator is not among the accounts any more, the handler that should
  report this fails itself with a \<open>KeyError\<close>.
\<close>

theorem get_application_result:
  "(dict_get (app_creators c) n = None \<longrightarrow>
      handle_get S c (''/applications/'' @ str_of_int n) = Inl ValueError) \<and>
   (dict_get (app_creators c) n = Some creator \<and> dict_get (accounts c) creator = None \<longrightarrow>
      handle_get S c (''/applications/'' @ str_of_int n) = Inl KeyError) \<and>
   (dict_get (app_creators c) n = Some creator \<and> dict_get (accounts c) creator = Some acc \<and>
      py_attr acc ''created_apps'' = Inr (PList (map PDict apps)) \<and>
      list_all (\<lambda>d. dict_get d ''id'' \<noteq> None) apps \<longrightarrow>
      handle_get S c (''/applications/'' @ str_of_int n) =
        (case filter (\<lambda>d. eq_int (the (dict_get d ''id'')) n) apps of
           [] \<Rightarrow> Inl ValueError | d # _ \<Rightarrow> Inr (PDict d)))"
proof -
  have "CHR ''/'' \<notin> set (str_of_int n)"
  proof
    assume "CHR ''/'' \<in> set (str_of_int n)"
    then show False
      using nat_digits_all [of "nat n"] nat_digits_all [of "nat (- n)"]
      by (auto simp: str_of_int_def list_all_iff is_digit_def code_point_def split: if_splits)
  qed
  then have r: "handle_get S c (''/applications/'' @ str_of_int n) = get_application c [str_of_int n]"
    by (simp add: handle_get_def split_on_plain)
  have f: "list_all (\<lambda>d. dict_get d ''id'' \<noteq> None) ds \<Longrightarrow>
      filterM_res (app_has_id n) (map PDict ds) = Inr (map PDict (filter (\<lambda>d. eq_int (the (dict_get d ''id'')) n) ds))" for ds
    by (induction ds) (auto simp: app_has_id_def)
  show ?thesis unfolding r
    by (auto simp: get_application_def find_app_def f split: list.splits option.splits)
qed

theorem get_application_result_witness:
  "handle_get ref_sdk \<lparr>committed_txns = [], accounts = [], app_creators = [(7, ''gone'')], last_scenario = None\<rparr>
     (''/applications/'' @ str_of_int 7) = Inl KeyError"
  using get_application_result [of "\<lparr>committed_txns = [], accounts = [], app_creators = [(7, ''gone'')], last_scenario = None\<rparr>" 7
      ref_sdk "''gone''"] by simp

subsection \<open>Groups\<close>

text \<open>A state in which only addresses without balance were added.\<close>

definition grown :: "sdk \<Rightarrow> client \<Rightarrow> client \<Rightarrow> bool" where
  "grown S c0 c \<longleftrightarrow> committed_txns c = committed_txns c0 \<and> app_creators c = app_creators c0 \<and>
     (\<forall>a. dict_get (accounts c) a = dict_get (accounts c0) a \<or>
        dict_get (accounts c0) a = None \<and> dict_get (accounts c) a = Some (new_account S a 0))"

lemma register_address_grown: "grown S c0 c \<Longrightarrow> grown S c0 (register_address S a c)"
  by (auto simp: grown_def register_address_def dict_get_set) (metis option.distinct(1))+

lemma register_txn_grown: "grown S c0 c \<Longrightarrow> grown S c0 (snd (register_txn S t c))"
  by (auto simp: register_txn_def bind_act_state register_address_grown split: sum.splits)

interpretation growing: keeping "grown S c0" "register_txn S" for S c0
  by unfold_locales (rule register_txn_grown)

text \<open>
  C6: a group that fails to run is a failure for the caller and otherwise has no effect: the
  \<open>RuntimeError\<close> of the run becomes an \<open>AlgodHTTPError\<close>, committed transactions, creators and
  accounts stay as they were, and only the senders and receivers the client had not heard of
  are added, with balance 0; the scenario is kept as the last one.
\<close>

theorem failed_group_has_no_effect:
  assumes "for_each (register_txn (a_sdk A)) txns c = (Inr u, c1)"
    and "construct_scenario A (map snd (accounts c1)) txns = Inr sc"
    and "run_avm_json (a_tools A) (a_files A) sc None True False ''kore'' = Inl e" and "is_runtime_error e"
  shows "eval_transactions A txns c = (Inl AlgodHTTPError, c1\<lparr>last_scenario := Some sc\<rparr>) \<and> grown (a_sdk A) c c1"
proof -
  have "run_group A sc = Inl AlgodHTTPError" by (simp add: run_group_def assms(3,4))
  then have "eval_transactions A txns c = (Inl AlgodHTTPError, c1\<lparr>last_scenario := Some sc\<rparr>)"
    using assms(1,2) by (simp add: eval_transactions_def bind_act_def)
  moreover have "grown (a_sdk A) c c1"
    using growing.loop_keeps [of "a_sdk A" c c txns] assms(1) by (simp add: grown_def)
  ultimately show ?thesis by simp
qed

text \<open>A client whose K tools end with an exit code and print a dump.\<close>

definition algod_with :: "int \<Rightarrow> pyval \<Rightarrow> algod_env" where
  "algod_with code dump = sample_algod\<lparr>a_tools := (sample_tools code)\<lparr>krun := (\<lambda>a.
     if run_check a \<and> code \<noteq> 0 then Inl (RuntimeError [''failed'', ''state'', []])
     else Inr \<lparr>returncode = code, stdout = ''state'', stderr = json_text default_layout 0 dump\<rparr>)\<rparr>\<rparr>"

definition faucet_client :: client where
  "faucet_client = init_client ref_sdk ''F''"

text \<open>What the client writes as JSON it reads back, so the text can be left out.\<close>

lemma construct_scenario_codec:
  assumes "mapM_res (transaction_json A) txns = Inr ts"
    and "json_ok (scenario_json accs' ts)" and "wf_val (scenario_json accs' ts)"
    and "accs' = map (\<lambda>acc. PDict (dictify (a_sdk A) acc)) accs"
  shows "construct_scenario A accs txns = scenario_of_value (a_sdk A) (a_teal A) (scenario_json accs' ts)"
  using json_loads_text [of "scenario_json accs' ts" default_layout] assms
  by (simp add: construct_scenario_def from_json_def json_dumps_def normal_form_def default_layout_def)

lemma parse_state_dump_codec:
  "json_ok (PDict d) \<Longrightarrow> wf_val (PDict d) \<Longrightarrow> parse_state_dump (json_text default_layout 0 (PDict d)) = Inr d"
  using json_loads_text [of "PDict d" default_layout]
  by (simp add: parse_state_dump_def normal_form_def default_layout_def del: json_text.simps)

lemma algod_with_fields [simp]:
  "a_sdk (algod_with code dump) = ref_sdk"
  "a_teal (algod_with code dump) = a_teal sample_algod"
  "a_files (algod_with code dump) = []"
  by (simp_all add: algod_with_def sample_algod_def)

abbreviation faucet_json :: pyval where
  "faucet_json \<equiv> scenario_json (map (\<lambda>acc. PDict (dictify ref_sdk acc)) (map snd (accounts faucet_client))) []"

lemma faucet_json_ok:
  "case scenario_of_value ref_sdk (a_teal sample_algod) faucet_json of
     Inl e \<Rightarrow> False | Inr sc \<Rightarrow> teal_programs sc = [] \<and> json_ok (PDict (scenario_dictify sc))"
  "json_ok faucet_json" "wf_val faucet_json"
  by code_simp+

lemma faucet_scenario:
  "\<exists>sc js. construct_scenario (algod_with code dump) (map snd (accounts faucet_client)) [] = Inr sc \<and>
     teal_programs sc = [] \<and> to_json sc 0 = Inr js"
proof -
  have "construct_scenario (algod_with code dump) (map snd (accounts faucet_client)) [] =
      scenario_of_value ref_sdk (a_teal sample_algod) faucet_json"
    using construct_scenario_codec [of "algod_with code dump" "[]" "[]", OF _ faucet_json_ok(2,3)] by simp
  then show ?thesis
    using faucet_json_ok(1) by (auto simp: to_json_def json_dumps_def split: sum.splits)
qed

lemma faucet_run:
  assumes "teal_programs sc = []" and "to_json sc 0 = Inr js"
  shows "\<exists>a. avm_run_args (a_tools (algod_with code dump)) [] sc None True ''kore'' = Inr a \<and>
    run_check a \<and> run_output a = ''kore''"
  using assms by (simp add: avm_run_args_def parse_teals_def algod_with_def sample_algod_def sample_tools_def)

lemma faucet_registered: "for_each (register_txn S) [] c = (Inr (), c)"
  by simp

lemma faucet_fails:
  "\<exists>sc. construct_scenario (algod_with 3 PNone) (map snd (accounts faucet_client)) [] = Inr sc \<and>
     run_avm_json (a_tools (algod_with 3 PNone)) (a_files (algod_with 3 PNone)) sc None True False ''kore'' =
       Inl (RuntimeError [''state''])"
proof -
  obtain sc js where sc: "construct_scenario (algod_with 3 PNone) (map snd (accounts faucet_client)) [] = Inr sc"
    and p: "teal_programs sc = []" "to_json sc 0 = Inr js" using faucet_scenario by blast
  obtain a where a: "avm_run_args (a_tools (algod_with 3 PNone)) [] sc None True ''kore'' = Inr a"
    and r: "run_check a" "run_output a = ''kore''" using faucet_run [OF p] by blast
  have "run_avm_json (a_tools (algod_with 3 PNone)) (a_files (algod_with 3 PNone)) sc None True False ''kore'' =
      Inl (RuntimeError [''state''])"
    by (simp add: run_avm_json_args a) (simp add: krun_body_def checked_krun_def r krun_failed_def exn_args_def
        algod_with_def sample_algod_def sample_tools_def)
  with sc show ?thesis by blast
qed

theorem failed_group_has_no_effect_witness:
  "\<exists>sc. eval_transactions (algod_with 3 PNone) [] faucet_client =
     (Inl AlgodHTTPError, faucet_client\<lparr>last_scenario := Some sc\<rparr>)"
proof -
  from faucet_fails obtain sc where
    sc: "construct_scenario (algod_with 3 PNone) (map snd (accounts faucet_client)) [] = Inr sc"
    and run: "run_avm_json (a_tools (algod_with 3 PNone)) (a_files (algod_with 3 PNone)) sc None True False ''kore'' =
      Inl (RuntimeError [''state''])" by blast
  show ?thesis
    using failed_group_has_no_effect [OF faucet_registered sc run] by auto
qed

subsection \<open>The scenario sent last\<close>

text \<open>What the client has handed to the K tools, if anything, is a scenario they can run.\<close>

definition sent_ok :: "client \<Rightarrow> bool" where
  "sent_ok c \<longleftrightarrow> (case last_scenario c of None \<Rightarrow> True | Some sc \<Rightarrow> scenario_ok sc)"

lemma construct_scenario_ok: "construct_scenario A accs txns = Inr sc \<Longrightarrow> scenario_ok sc"
  using scenario_of_value_ok by (auto simp: construct_scenario_def from_json_def res_iff)

lemma sent_ok_fields [simp]:
  "sent_ok (c\<lparr>accounts := x\<rparr>) = sent_ok c"
  "sent_ok (c\<lparr>committed_txns := y\<rparr>) = sent_ok c"
  "sent_ok (c\<lparr>app_creators := z\<rparr>) = sent_ok c"
  "sent_ok (c\<lparr>last_scenario := Some sc\<rparr>) = scenario_ok sc"
  by (simp_all add: sent_ok_def)

lemma register_address_sent [simp]: "sent_ok (register_address S a c) = sent_ok c"
  by (simp add: register_address_def)

lemmas bind_act_sent = bind_act_keeps [where ok = sent_ok]

interpretation sent_registering: keeping sent_ok "register_txn S" for S
  by unfold_locales (auto simp: register_txn_def bind_act_state split: sum.splits)

interpretation sent_creating: keeping sent_ok "creator_step addr" for addr
  by unfold_locales (auto simp: creator_step_def bind_act_state split: sum.splits)

interpretation sent_creators: keeping sent_ok account_creators
  by unfold_locales (auto simp: account_creators_def bind_act_state sent_creating.loop_keeps split: prod.splits sum.splits)

interpretation sent_storing: keeping sent_ok "store_account S" for S
  by unfold_locales (auto simp: store_account_def bind_act_state sent_creators.loop_keeps split: sum.splits)

interpretation sent_committing: keeping sent_ok store_txn
  by unfold_locales (auto simp: store_txn_def bind_act_state split: sum.splits)

lemma update_state_sent: "sent_ok c \<Longrightarrow> sent_ok (snd (update_state S d c))"
  unfolding update_state_def
  by (intro bind_act_sent sent_storing.loop_keeps sent_committing.loop_keeps) auto

lemma eval_transactions_sent: "sent_ok c \<Longrightarrow> sent_ok (snd (eval_transactions A txns c))"
  unfolding eval_transactions_def
  by (rule bind_act_sent, erule sent_registering.loop_keeps)
    (auto simp: bind_act_state update_state_sent construct_scenario_ok split: sum.splits)

text \<open>
  C7: in every state a client can reach by requests, answered or failed, the scenario it handed
  to the K tools last, if there is one, has exactly its two stages in order, with lists of
  accounts and of transactions in them, and carries every TEAL program they name: neither what
  earlier groups left in the accounts nor a failed group can make the client send a scenario
  with a program that is missing.
\<close>

theorem sent_scenario_closed:
  assumes "reachable A faucet c" and "last_scenario c = Some sc"
  shows "scenario_ok sc"
proof -
  from assms(1) have "sent_ok c"
  proof (induction rule: reachable.induct)
    case reachable_init
    then show ?case by (simp add: sent_ok_def init_client_def)
  next
    case (reachable_step c meth requrl data r c')
    then show ?case using request_changes eval_transactions_sent by blast
  qed
  with assms(2) show ?thesis by (simp add: sent_ok_def)
qed

lemma empty_group:
  "algod_request A ''POST'' ''/transactions'' (Some []) c = Some (eval_transactions A [] c)"
  by (simp add: algod_request_def handle_post_def msgpack_decode_txn_list_def msgpack_loop.simps)

theorem sent_scenario_closed_witness:
  "\<exists>c sc. reachable (algod_with 3 PNone) ''F'' c \<and> last_scenario c = Some sc \<and> scenario_ok sc"
proof -
  let ?A = "algod_with 3 PNone"
  from faucet_fails obtain sc where e: "eval_transactions ?A [] faucet_client =
      (Inl AlgodHTTPError, faucet_client\<lparr>last_scenario := Some sc\<rparr>)"
    by (auto simp: eval_transactions_def run_group_def bind_act_def)
  have "reachable ?A ''F'' faucet_client" using reachable_init [of ?A] by (simp add: faucet_client_def)
  moreover have "algod_request ?A ''POST'' ''/transactions'' (Some []) faucet_client =
      Some (Inl AlgodHTTPError, faucet_client\<lparr>last_scenario := Some sc\<rparr>)" by (simp only: empty_group e)
  ultimately have r: "reachable ?A ''F'' (faucet_client\<lparr>last_scenario := Some sc\<rparr>)" by (rule reachable_step)
  from sent_scenario_closed [OF r] r show ?thesis by auto
qed

text \<open>
  The client forgets its accounts before it reads the new ones: when the dump of the final
  state has no accounts, the \<open>KeyError\<close> leaves it without any account, the faucet included.
\<close>

theorem accounts_lost:
  assumes "dict_get state_dump ''accounts'' = None"
  shows "\<exists>c'. update_state S state_dump c = (Inl KeyError, c') \<and> accounts c' = []"
  using assms by (simp add: update_state_def bind_act_def)

theorem accounts_lost_witness:
  "\<exists>c'. update_state ref_sdk [(''transactions'', PList [])] (init_client ref_sdk ''F'') = (Inl KeyError, c') \<and>
     accounts c' = []"
  by (rule accounts_lost) simp

text \<open>The committed transactions after the loop over the dump's.\<close>

definition txn_entry :: "pyval \<Rightarrow> string \<times> pyval \<Rightarrow> bool" where
  "txn_entry t = (\<lambda>(i, p). py_get t ''id'' = Inr (PStr i) \<and> py_get t ''params'' = Inr p)"

lemma store_txn_result:
  "store_txn t c = (Inr u, c') \<Longrightarrow>
     \<exists>e. txn_entry t e \<and> c' = c\<lparr>committed_txns := dict_set (committed_txns c) (fst e) (snd e)\<rparr>"
  by (auto simp: store_txn_def txn_entry_def res_iff bind_act_def split: sum.splits)

lemma store_txns_result:
  "for_each store_txn ts c = (Inr u, c') \<Longrightarrow>
     \<exists>es. list_all2 txn_entry ts es \<and>
       (\<forall>i. dict_get (committed_txns c') i = (case map_of (rev es) i of Some p \<Rightarrow> Some p
          | None \<Rightarrow> dict_get (committed_txns c) i))"
proof (induction ts arbitrary: c)
  case Nil
  then show ?case by (auto intro: exI [of _ "[]"])
next
  case (Cons t ts)
  from Cons.prems obtain u1 c1 where 1: "store_txn t c = (Inr u1, c1)" and 2: "for_each store_txn ts c1 = (Inr u, c')"
    by (auto split: prod.splits sum.splits)
  from store_txn_result [OF 1] obtain e where e: "txn_entry t e"
    and c1: "c1 = c\<lparr>committed_txns := dict_set (committed_txns c) (fst e) (snd e)\<rparr>" by blast
  from Cons.IH [OF 2] obtain es where es: "list_all2 txn_entry ts es"
    and g: "\<forall>i. dict_get (committed_txns c') i = (case map_of (rev es) i of Some p \<Rightarrow> Some p
          | None \<Rightarrow> dict_get (committed_txns c1) i)" by blast
  have "list_all2 txn_entry (t # ts) (e # es)" using e es by simp
  moreover have "\<forall>i. dict_get (committed_txns c') i = (case map_of (rev (e # es)) i of Some p \<Rightarrow> Some p
          | None \<Rightarrow> dict_get (committed_txns c) i)"
    using g by (cases e) (auto simp: c1 dict_get_set map_add_def split: option.splits)
  ultimately show ?case by blast
qed

lemma first_txn_list: "first_txn_id d = Inr r \<Longrightarrow> dict_lookup d ''transactions'' = Inr v \<Longrightarrow> py_iter v = Inr ts \<Longrightarrow>
    \<exists>i t rest. ts = t # rest \<and> py_get t ''id'' = Inr i \<and> r = PDict [(''txId'', i)]"
  by (cases v) (auto simp: first_txn_id_def res_iff neq_Nil_conv split: if_splits)

lemma accepted_entries:
  assumes "eval_transactions A txns c = (Inr r, c')"
  shows "\<exists>sc out d v t ts es. run_group A sc = Inr out \<and> parse_state_dump out = Inr d \<and>
    dict_lookup d ''transactions'' = Inr v \<and> py_iter v = Inr (t # ts) \<and> list_all2 txn_entry (t # ts) es \<and>
    r = PDict [(''txId'', PStr (fst (hd es)))] \<and>
    (\<forall>i p. map_of (rev es) i = Some p \<longrightarrow> dict_get (committed_txns c') i = Some p)"
proof -
  from assms obtain sc out d c2 where run: "run_group A sc = Inr out" "parse_state_dump out = Inr d"
    and "update_state (a_sdk A) d c2 = (Inr r, c')"
    by (auto simp: eval_transactions_def res_iff lift_act_def)
  then obtain v ts0 c3 u c4 where v: "dict_lookup d ''transactions'' = Inr v" "py_iter v = Inr ts0"
    and loop: "for_each store_txn ts0 c3 = (Inr u, c4)" and f: "first_txn_id d = Inr r" and c': "c' = c4"
    by (auto simp: update_state_def res_iff)
  from first_txn_list [OF f v] obtain j t ts where ts: "ts0 = t # ts" and j: "py_get t ''id'' = Inr j"
    and r: "r = PDict [(''txId'', j)]" by blast
  from store_txns_result [OF loop] obtain es where es: "list_all2 txn_entry (t # ts) es"
    and g: "\<forall>i. dict_get (committed_txns c') i = (case map_of (rev es) i of Some p \<Rightarrow> Some p
      | None \<Rightarrow> dict_get (committed_txns c3) i)" unfolding c' ts by blast
  from es j have "j = PStr (fst (hd es))" by (auto simp: list_all2_Cons1 txn_entry_def)
  moreover have "\<forall>i p. map_of (rev es) i = Some p \<longrightarrow> dict_get (committed_txns c') i = Some p"
    using g by simp
  ultimately show ?thesis using run v es unfolding r ts by blast
qed

lemma pending_committed:
  "dict_get (committed_txns c) i = Some p \<Longrightarrow> CHR ''/'' \<notin> set i \<Longrightarrow>
     handle_get S c (''/transactions/pending/'' @ i) = Inr p"
  by (simp add: handle_get_def split_on_plain get_pending_def)

text \<open>
  C3: when a group is accepted, the run of its scenario succeeded and printed a state dump whose
  transactions are not empty; the answer names the first of them, every one of them is
  committed, and the next request for an id is answered with the data the last of the dump's
  entries with that id holds.
\<close>

theorem accepted_group_is_pending:
  assumes "eval_transactions A txns c = (Inr r, c')"
  shows "\<exists>sc out d v t ts es. run_group A sc = Inr out \<and> parse_state_dump out = Inr d \<and>
    dict_lookup d ''transactions'' = Inr v \<and> py_iter v = Inr (t # ts) \<and> list_all2 txn_entry (t # ts) es \<and>
    r = PDict [(''txId'', PStr (fst (hd es)))] \<and>
    (\<forall>i p. map_of (rev es) i = Some p \<and> CHR ''/'' \<notin> set i \<longrightarrow>
       handle_get S c' (''/transactions/pending/'' @ i) = Inr p)"
proof -
  from accepted_entries [OF assms] obtain sc out d v t ts es where
    run: "run_group A sc = Inr out" "parse_state_dump out = Inr d" "dict_lookup d ''transactions'' = Inr v"
      "py_iter v = Inr (t # ts)" "list_all2 txn_entry (t # ts) es" "r = PDict [(''txId'', PStr (fst (hd es)))]"
    and g: "\<forall>i p. map_of (rev es) i = Some p \<longrightarrow> dict_get (committed_txns c') i = Some p" by blast
  have "\<forall>i p. map_of (rev es) i = Some p \<and> CHR ''/'' \<notin> set i \<longrightarrow>
      handle_get S c' (''/transactions/pending/'' @ i) = Inr p"
    using g pending_committed by blast
  with run show ?thesis by blast
qed

definition sample_dump :: pydict where
  "sample_dump = [(''accounts'', PList []),
     (''transactions'', PList [PDict [(''id'', PStr ''0''), (''params'', PInt 5)]])]"

lemma sample_dump_ok:
  "json_ok (PDict sample_dump)" "wf_val (PDict sample_dump)"
  "\<not> isl (fst (update_state ref_sdk sample_dump (faucet_client\<lparr>last_scenario := x\<rparr>)))"
  by code_simp+

lemma accepted_by_faucet:
  assumes "json_ok (PDict d)" and "wf_val (PDict d)"
    and "\<And>x. \<not> isl (fst (update_state ref_sdk d (faucet_client\<lparr>last_scenario := x\<rparr>)))"
  shows "\<exists>sc r c'. eval_transactions (algod_with 0 (PDict d)) [] faucet_client = (Inr r, c') \<and>
    update_state ref_sdk d (faucet_client\<lparr>last_scenario := Some sc\<rparr>) = (Inr r, c')"
proof -
  let ?A = "algod_with 0 (PDict d)"
  obtain sc js where sc: "construct_scenario ?A (map snd (accounts faucet_client)) [] = Inr sc"
    and p: "teal_programs sc = []" "to_json sc 0 = Inr js" using faucet_scenario by blast
  obtain a where a: "avm_run_args (a_tools ?A) [] sc None True ''kore'' = Inr a"
    and r: "run_check a" "run_output a = ''kore''" using faucet_run [OF p] by blast
  let ?c = "faucet_client\<lparr>last_scenario := Some sc\<rparr>"
  have "run_group ?A sc = Inr (json_text default_layout 0 (PDict d))"
    by (simp add: run_group_def run_avm_json_args a) (simp add: krun_body_def checked_krun_def r
        algod_with_def sample_algod_def sample_tools_def)
  then have "eval_transactions ?A [] faucet_client = update_state ref_sdk d ?c"
    by (simp add: eval_transactions_def bind_act_def sc parse_state_dump_codec [OF assms(1,2)] del: json_text.simps)
  moreover obtain x c' where "update_state ref_sdk d ?c = (Inr x, c')"
    using assms(3) [of "Some sc"]
    by (cases "update_state ref_sdk d ?c"; cases "fst (update_state ref_sdk d ?c)") auto
  ultimately show ?thesis by auto
qed

theorem accepted_group_is_pending_witness:
  "\<exists>r c' es. eval_transactions (algod_with 0 (PDict sample_dump)) [] faucet_client = (Inr r, c') \<and>
     es \<noteq> [] \<and> r = PDict [(''txId'', PStr (fst (hd es)))] \<and>
     (\<forall>i p. map_of (rev es) i = Some p \<and> CHR ''/'' \<notin> set i \<longrightarrow>
        handle_get ref_sdk c' (''/transactions/pending/'' @ i) = Inr p)"
proof -
  obtain r c' where e: "eval_transactions (algod_with 0 (PDict sample_dump)) [] faucet_client = (Inr r, c')"
    using accepted_by_faucet sample_dump_ok by blast
  from accepted_group_is_pending [OF e, of ref_sdk] e show ?thesis by (auto simp: list_all2_Cons1)
qed

section \<open>The accounts of an accepted group\<close>

lemma creator_step_accounts: "accounts c = X \<Longrightarrow> accounts (snd (creator_step addr app c)) = X"
  by (auto simp: creator_step_def bind_act_state split: sum.splits)

interpretation app_filing: keeping "\<lambda>c. accounts c = X" "creator_step addr" for X addr
  by unfold_locales (rule creator_step_accounts)

lemma account_creators_accounts: "accounts c = X \<Longrightarrow> accounts (snd (account_creators x c)) = X"
  by (auto simp: account_creators_def bind_act_state app_filing.loop_keeps split: prod.splits sum.splits)

interpretation creator_filing: keeping "\<lambda>c. accounts c = X" account_creators for X
  by unfold_locales (rule account_creators_accounts)

lemma store_txn_accounts: "accounts c = X \<Longrightarrow> accounts (snd (store_txn t c)) = X"
  by (auto simp: store_txn_def bind_act_state split: sum.splits)

interpretation txn_filing: keeping "\<lambda>c. accounts c = X" store_txn for X
  by unfold_locales (rule store_txn_accounts)

text \<open>An entry of the client for an account of the dump: its address, and an object that gives the account back.\<close>

definition account_entry :: "sdk \<Rightarrow> pydict \<Rightarrow> string \<times> pyval \<Rightarrow> bool" where
  "account_entry S acc = (\<lambda>(a, m). dict_get acc ''address'' = Some (PStr a) \<and> dictify S m = acc)"

lemma store_account_result:
  assumes "sdk_model_law S" and "sdk_names_law S" and "completed_account S acc" and "store_account S acc c = (Inr u, c')"
  shows "\<exists>e. account_entry S acc e \<and> accounts c' = dict_set (accounts c) (fst e) (snd e)"
proof -
  from sanitize_completed_account [OF assms(1-3)] obtain t
    where t: "translate_keys S ''KAVMAccount'' acc = Inr t" "dictify S (new_model S ''KAVMAccount'' t) = acc"
    "dict_get t ''address'' = dict_get acc ''address''" by blast
  with assms(4) obtain a c1 where a: "dict_get t ''address'' = Some (PStr a)"
    and c1: "c1 = c\<lparr>accounts := dict_set (accounts c) a (new_model S ''KAVMAccount'' t)\<rparr>"
    and c': "for_each account_creators (accounts c1) c1 = (Inr u, c')"
    by (auto simp: store_account_def res_iff)
  have "dict_get acc ''address'' = Some (PStr a)" using t(3) a by simp
  moreover have "accounts c' = accounts c1"
    using creator_filing.loop_keeps [of c1 "accounts c1" "accounts c1"] c' by simp
  ultimately show ?thesis
    using t(2) by (intro exI [of _ "(a, new_model S ''KAVMAccount'' t)"]) (simp add: account_entry_def c1)
qed


lemma store_accounts_result:
  assumes "sdk_model_law S" and "sdk_names_law S" and "list_all (completed_account S) accs"
    and "for_each (store_account S) accs c = (Inr u, c')"
  shows "\<exists>es. list_all2 (account_entry S) accs es \<and> accounts c' = foldl (\<lambda>d (a, m). dict_set d a m) (accounts c) es"
  using assms(3,4)
proof (induction accs arbitrary: c)
  case Nil
  then show ?case by (auto intro: exI [of _ "[]"])
next
  case (Cons acc accs)
  from Cons.prems(2) obtain u1 c1 where 1: "store_account S acc c = (Inr u1, c1)"
    and 2: "for_each (store_account S) accs c1 = (Inr u, c')" by (auto split: prod.splits sum.splits)
  from store_account_result [OF assms(1,2) _ 1] Cons.prems(1) obtain e where e: "account_entry S acc e"
    "accounts c1 = dict_set (accounts c) (fst e) (snd e)" by auto
  from Cons.IH [OF _ 2] Cons.prems(1) obtain es where "list_all2 (account_entry S) accs es"
    "accounts c' = foldl (\<lambda>d (a, m). dict_set d a m) (accounts c1) es" by auto
  with e show ?case by (cases e) (auto intro!: exI [of _ "e # es"])
qed

lemma sanitize_accounts_completed:
  assumes "sdk_model_law S" and "sdk_names_law S" and "json_good v" and "sanitize_accounts S v = Inr accs"
  shows "list_all (completed_account S) accs"
proof -
  from assms(4) obtain xs where xs: "py_iter v = Inr xs" and m: "mapM_res (sanitize_account S) xs = Inr accs"
    by (auto simp: sanitize_accounts_def res_iff)
  have "json_good x" if "x \<in> set xs" for x
    using xs assms(3) that by (cases v) (auto simp: list_all_iff json_good_def)
  moreover have "\<exists>x \<in> set xs. sanitize_account S x = Inr y" if "y \<in> set accs" for y
    using m that by (auto simp: mapM_res_Inr_iff list_all2_conv_all_nth in_set_conv_nth) (metis nth_mem)
  ultimately show ?thesis using sanitize_account_completed [OF assms(1,2)] by (metis Ball_set)
qed

lemma sanitize_completed_accounts:
  assumes "sdk_model_law S" and "sdk_names_law S" and "list_all (completed_account S) accs"
  shows "sanitize_accounts S (PList (map PDict accs)) = Inr accs"
  using assms(3) sanitize_completed_account [OF assms(1,2)] mapM_res_all [of accs "\<lambda>a. sanitize_account S (PDict a)" id]
  by (simp add: sanitize_accounts_def list_all_iff mapM_res_map comp_def)

text \<open>The client's accounts after an update are made of the dump's.\<close>

lemma update_state_accounts:
  assumes "sdk_model_law S" and "sdk_names_law S" and "json_good (PDict d)" and "update_state S d c = (Inr r, c')"
  shows "\<exists>v accs es. dict_lookup d ''accounts'' = Inr v \<and> sanitize_accounts S v = Inr accs \<and>
    list_all (completed_account S) accs \<and> list_all2 (account_entry S) accs es \<and> accounts c' = dict_of_items es"
proof -
  from assms(4) obtain v accs u c1 txns u2 where v: "dict_lookup d ''accounts'' = Inr v" "sanitize_accounts S v = Inr accs"
    and 1: "for_each (store_account S) accs (c\<lparr>accounts := []\<rparr>) = (Inr u, c1)"
    and 2: "for_each store_txn txns c1 = (Inr u2, c')"
    by (auto simp: update_state_def res_iff)
  have "json_good v" using v(1) field_json_good [OF assms(3)] by (simp add: res_iff)
  then have "list_all (completed_account S) accs" using v(2) by (rule sanitize_accounts_completed [OF assms(1,2)])
  moreover from store_accounts_result [OF assms(1,2) this 1] obtain es where "list_all2 (account_entry S) accs es"
    "accounts c1 = dict_of_items es" by (auto simp: dict_of_items_def)
  moreover have "accounts c' = accounts c1" using txn_filing.loop_keeps [of c1 "accounts c1" txns] 2 by simp
  ultimately show ?thesis using v by auto
qed

lemma account_entries_dictify:
  assumes "list_all2 (account_entry S) accs es" and "distinct (map (\<lambda>acc. dict_get acc ''address'') accs)"
  shows "map (\<lambda>m. PDict (dictify S m)) (map snd (dict_of_items es)) = map PDict accs"
proof -
  have k: "map (Some \<circ> PStr) (dict_keys es) = map (\<lambda>acc. dict_get acc ''address'') accs"
    "map (\<lambda>m. PDict (dictify S m)) (map snd es) = map PDict accs"
    using assms(1) by (induction rule: list_all2_induct) (auto simp: account_entry_def)
  then have "distinct (dict_keys es)" using assms(2) unfolding k(1) [symmetric] by (simp only: distinct_map)
  then show ?thesis using k(2) by (simp add: wf_dict_def dict_of_items_distinct)
qed

end
