(* ===== verification/Composer.thy ===== *)
theory Composer
  imports AlgodClient
begin

text \<open>
  \<open>KAVMAtomicTransactionComposer.execute\<close> of \<open>kavm/algod.py\<close>: submit a group, wait until it is
  confirmed, and read the return values of its method calls from the logs. The base class of
  the SDK and the client's other methods are the fields of the record \<open>composer_sdk\<close>; the state
  is the composer with the client it talks to.
\<close>

section \<open>The composer's state\<close>

text \<open>A method of the ABI, as far as \<open>execute\<close> looks at it: does it return nothing, and how its result is decoded.\<close>

record abi_method =
  returns_void :: bool
  decode_return :: "bytes \<Rightarrow> pyval res"

record 's composer =
  comp_status :: 's
  comp_tx_ids :: "string list"
  txn_list :: "pyval list"
  method_dict :: "(nat, abi_method) dict"

text \<open>
  What comes from the SDK: the two statuses \<open>execute\<close> names, the prefix of a logged return
  value, \<open>submit\<close> of the base class (which works on the composer and the client),
  \<open>wait_for_confirmation\<close> and the client's \<open>pending_transaction_info\<close>.
\<close>

record ('s, 'c) composer_sdk =
  is_kavm_client :: bool
  SUBMITTED :: 's
  COMMITTED :: 's
  ABI_RETURN_HASH :: bytes
  base_submit :: "('s composer \<times> 'c, unit) action"
  wait_for_confirmation :: "string \<Rightarrow> int \<Rightarrow> ('c, pyval) action"
  pending_transaction_info :: "string \<Rightarrow> ('c, pyval) action"

definition statuses_ordered :: "('s::linorder, 'c) composer_sdk \<Rightarrow> bool" where
  "statuses_ordered L \<longleftrightarrow> SUBMITTED L < COMMITTED L"

record abi_result =
  res_tx_id :: string
  res_raw_value :: "bytes option"
  res_return_value :: pyval
  res_tx_info :: pyval
  res_method :: abi_method

record composer_response =
  confirmed_round :: pyval
  resp_tx_ids :: "string list"
  method_results :: "abi_result list"

section \<open>Executing a group\<close>

definition set_status :: "'s \<Rightarrow> ('s composer \<times> 'c, unit) action" where
  "set_status st = modify_act (\<lambda>(c, k). (c\<lparr>comp_status := st\<rparr>, k))"

text \<open>An action on the client.\<close>

definition on_client :: "('c, 'a) action \<Rightarrow> ('s composer \<times> 'c, 'a) action" where
  "on_client m = (\<lambda>(c, k). case m k of (r, k') \<Rightarrow> (r, (c, k')))"

text \<open>The ids \<open>0\<close>, \<open>1\<close>, \<dots> in the place of the transactions' hashes.\<close>

definition sequential_ids :: "'a list \<Rightarrow> string list" where
  "sequential_ids txns = map (\<lambda>i. str_of_int (int i)) [0..<length txns]"

definition override_ids :: "'s composer \<Rightarrow> 's composer" where
  "override_ids c = c\<lparr>comp_tx_ids := sequential_ids (txn_list c)\<rparr>"

text \<open>\<open>v[-1]\<close> of a value that is not empty.\<close>

fun py_last :: "pyval \<Rightarrow> pyval res" where
  "py_last (PList xs) = Inr (last xs)"
| "py_last (PStr s) = Inr (PStr [last s])"
| "py_last (PBytes b) = Inr (PInt (uint (last b)))"
| "py_last (PDict d) = Inl KeyError"
| "py_last _ = Inl TypeError"

text \<open>The value a method logged: the last entry, which must start with the prefix.\<close>

definition logged_value :: "bytes \<Rightarrow> pyval \<Rightarrow> bytes res" where
  "logged_value prefix tx_info =
     bind_res (py_in ''logs'' tx_info) (\<lambda>b.
     bind_res (if b then py_get tx_info ''logs'' else Inr (PList [])) (\<lambda>logs.
     if \<not> py_true logs then Inl AtomicTransactionComposerError
     else
       bind_res (bind_res (py_last logs) b64decode_val) (\<lambda>result_bytes.
       if length result_bytes < 4 \<or> take 4 result_bytes \<noteq> prefix then Inl AtomicTransactionComposerError
       else Inr (drop 4 result_bytes))))"

definition method_result :: "bytes \<Rightarrow> string \<Rightarrow> abi_method \<Rightarrow> pyval \<Rightarrow> abi_result res" where
  "method_result prefix tx_id m tx_info =
     (if returns_void m then
        Inr \<lparr>res_tx_id = tx_id, res_raw_value = None, res_return_value = PNone, res_tx_info = tx_info, res_method = m\<rparr>
      else
        bind_res (logged_value prefix tx_info) (\<lambda>raw.
        map_res (\<lambda>v. \<lparr>res_tx_id = tx_id, res_raw_value = Some raw, res_return_value = v, res_tx_info = tx_info,
            res_method = m\<rparr>)
          (decode_return m raw)))"

text \<open>The loop over the transaction ids from number \<open>i\<close> on; transactions that call no method are skipped.\<close>

fun collect_results ::
    "('s, 'c) composer_sdk \<Rightarrow> (nat, abi_method) dict \<Rightarrow> nat \<Rightarrow> string list \<Rightarrow> ('s composer \<times> 'c, abi_result list) action" where
  "collect_results L ms i [] = lift_act (Inr [])"
| "collect_results L ms i (tx_id # ids) =
     (case dict_get ms i of
        None \<Rightarrow> collect_results L ms (Suc i) ids
      | Some m \<Rightarrow>
          bind_act (on_client (pending_transaction_info L tx_id)) (\<lambda>tx_info.
          bind_act (lift_act (method_result (ABI_RETURN_HASH L) tx_id m tx_info)) (\<lambda>r.
          bind_act (collect_results L ms (Suc i) ids) (\<lambda>rs.
          lift_act (Inr (r # rs))))))"

text \<open>What follows the confirmation \<open>resp\<close>: the group is committed before its logs are read.\<close>

definition read_results ::
    "('s, 'c) composer_sdk \<Rightarrow> (nat, abi_method) dict \<Rightarrow> string list \<Rightarrow> pyval \<Rightarrow>
     ('s composer \<times> 'c, composer_response) action" where
  "read_results L ms ids resp =
     bind_act (set_status (COMMITTED L)) (\<lambda>_.
     bind_act (lift_act (py_get resp ''confirmed-round'')) (\<lambda>rnd.
     bind_act (collect_results L ms 0 ids) (\<lambda>results.
     lift_act (Inr \<lparr>confirmed_round = rnd, resp_tx_ids = ids, method_results = results\<rparr>))))"

definition await_group ::
    "('s, 'c) composer_sdk \<Rightarrow> int \<Rightarrow> ('s composer \<times> 'c, composer_response) action" where
  "await_group L wait_rounds s =
     (let ids = comp_tx_ids (fst s) in
      bind_act (lift_act (case ids of [] \<Rightarrow> Inl IndexError | i # _ \<Rightarrow> Inr i)) (\<lambda>first_id.
      bind_act (on_client (wait_for_confirmation L first_id wait_rounds))
        (read_results L (method_dict (fst s)) ids)) s)"

definition execute ::
    "('s::linorder, 'c) composer_sdk \<Rightarrow> int \<Rightarrow> ('s composer \<times> 'c, composer_response) action" where
  "execute L wait_rounds s =
     (if SUBMITTED L < comp_status (fst s) then (Inl AtomicTransactionComposerError, s)
      else bind_act (base_submit L) (\<lambda>_.
        bind_act (set_status (SUBMITTED L)) (\<lambda>_.
        bind_act (modify_act (\<lambda>(c, k). (if is_kavm_client L then override_ids c else c, k))) (\<lambda>_.
        await_group L wait_rounds))) s)"

section \<open>How the loop treats its state\<close>

lemma on_client_composer [simp]: "fst (snd (on_client m s)) = fst s"
  by (auto simp: on_client_def split: prod.splits)

lemma collect_results_composer: "fst s = c \<Longrightarrow> fst (snd (collect_results L ms i ids s)) = c"
proof (induction ids arbitrary: i s)
  case Nil
  then show ?case by simp
next
  case (Cons tx_id ids)
  show ?case
  proof (cases "dict_get ms i")
    case None
    then show ?thesis using Cons by simp
  next
    case (Some m)
    have "fst (snd (bind_act (on_client (pending_transaction_info L tx_id)) (\<lambda>tx_info.
          bind_act (lift_act (method_result (ABI_RETURN_HASH L) tx_id m tx_info)) (\<lambda>r.
          bind_act (collect_results L ms (Suc i) ids) (\<lambda>rs.
          lift_act (Inr (r # rs))))) s)) = c"
      by (intro bind_act_keeps [where ok = "\<lambda>s. fst s = c"]) (simp_all add: Cons)
    with Some show ?thesis by simp
  qed
qed

text \<open>The results are those of the transactions that call a method, in their order.\<close>

definition result_of ::
    "('s, 'c) composer_sdk \<Rightarrow> (nat, abi_method) dict \<Rightarrow> nat \<times> string \<Rightarrow> abi_result \<Rightarrow> bool" where
  "result_of L ms = (\<lambda>(i, tx_id) r. \<exists>m. dict_get ms i = Some m \<and>
     method_result (ABI_RETURN_HASH L) tx_id m (res_tx_info r) = Inr r)"

definition calls :: "(nat, abi_method) dict \<Rightarrow> nat \<Rightarrow> string list \<Rightarrow> (nat \<times> string) list" where
  "calls ms n ids = filter (\<lambda>(i, tx_id). dict_get ms i \<noteq> None) (zip [n..<n + length ids] ids)"

lemma calls_simps [simp]:
  "calls ms n [] = []"
  "calls ms n (tx_id # ids) =
     (if dict_get ms n = None then calls ms (Suc n) ids else (n, tx_id) # calls ms (Suc n) ids)"
  by (simp_all add: calls_def upt_conv_Cons del: upt_Suc)

lemma method_result_info: "method_result p tx_id m info = Inr r \<Longrightarrow> res_tx_info r = info"
  by (auto simp: method_result_def res_iff split: if_splits)

lemma collect_results_calls:
  "collect_results L ms n ids s = (Inr rs, s') \<Longrightarrow> list_all2 (result_of L ms) (calls ms n ids) rs"
proof (induction ids arbitrary: n s rs)
  case Nil
  then show ?case by simp
next
  case (Cons tx_id ids)
  show ?case
  proof (cases "dict_get ms n")
    case None
    then show ?thesis using Cons by simp
  next
    case (Some m)
    with Cons.prems obtain info r s2 rs' where
      r: "method_result (ABI_RETURN_HASH L) tx_id m info = Inr r"
      and rest: "collect_results L ms (Suc n) ids s2 = (Inr rs', s')" and rs: "rs = r # rs'"
      by (auto simp: res_iff)
    then show ?thesis
      using Some Cons.IH [OF rest] method_result_info [OF r] by (auto simp: result_of_def)
  qed
qed

section \<open>Return values\<close>

lemma logged_value_iff:
  assumes "length prefix = 4"
  shows "logged_value prefix info = Inr raw \<longleftrightarrow>
    (\<exists>logs x. py_in ''logs'' info = Inr True \<and> py_get info ''logs'' = Inr logs \<and> py_true logs \<and>
      py_last logs = Inr x \<and> b64decode_val x = Inr (prefix @ raw))"
proof -
  have bytes: "(if length bs < 4 \<or> take 4 bs \<noteq> prefix then Inl AtomicTransactionComposerError
      else Inr (drop 4 bs)) = Inr raw \<longleftrightarrow> bs = prefix @ raw" for bs :: bytes
    using assms by (auto simp: append_eq_conv_conj eq_commute [of bs])
  show ?thesis
  proof (cases "py_in ''logs'' info")
    case (Inl e)
    then show ?thesis by (simp add: logged_value_def)
  next
    case (Inr b)
    then show ?thesis
    proof (cases b)
      case False
      then show ?thesis using Inr by (simp add: logged_value_def)
    next
      case True
      then have "logged_value prefix info = bind_res (py_get info ''logs'') (\<lambda>logs.
          if \<not> py_true logs then Inl AtomicTransactionComposerError
          else bind_res (bind_res (py_last logs) b64decode_val) (\<lambda>bs.
            if length bs < 4 \<or> take 4 bs \<noteq> prefix then Inl AtomicTransactionComposerError
            else Inr (drop 4 bs)))"
        using Inr by (simp add: logged_value_def)
      moreover have "(if \<not> py_true logs then Inl AtomicTransactionComposerError
          else bind_res (bind_res (py_last logs) b64decode_val) (\<lambda>bs.
            if length bs < 4 \<or> take 4 bs \<noteq> prefix then Inl AtomicTransactionComposerError
            else Inr (drop 4 bs))) = Inr raw \<longleftrightarrow>
          (py_true logs \<and> (\<exists>x. py_last logs = Inr x \<and> b64decode_val x = Inr (prefix @ raw)))" for logs
        by (cases "py_true logs") (simp_all only: not_True_eq_False not_False_eq_True if_True if_False bind_res_Inr_iff bytes
            simp_thms sum.distinct, auto)
      ultimately show ?thesis using Inr True by (simp add: bind_res_Inr_iff)
    qed
  qed
qed

section \<open>Properties\<close>

lemma read_results_composer:
  "fst (snd (read_results L ms ids resp (c, k))) = c\<lparr>comp_status := COMMITTED L\<rparr>"
proof -
  have "fst (snd (read_results L ms ids resp s)) = (fst s)\<lparr>comp_status := COMMITTED L\<rparr>" for s
    unfolding read_results_def set_status_def bind_act_lift
    by (intro bind_act_keeps [where ok = "\<lambda>t. fst t = (fst s)\<lparr>comp_status := COMMITTED L\<rparr>"])
      (auto simp: collect_results_composer split: prod.splits)
  from this [of "(c, k)"] show ?thesis by simp
qed

text \<open>Waiting for a group: nothing but the status of the composer changes, and only when the group is confirmed.\<close>

lemma await_group_result:
  "await_group L w (c, k) = (case comp_tx_ids c of
     [] \<Rightarrow> (Inl IndexError, (c, k))
   | i # _ \<Rightarrow> (case wait_for_confirmation L i w k of
       (Inl e, k') \<Rightarrow> (Inl e, (c, k'))
     | (Inr resp, k') \<Rightarrow> read_results L (method_dict c) (comp_tx_ids c) resp (c, k')))"
  by (auto simp: await_group_def Let_def bind_act_def on_client_def split: list.splits prod.splits sum.splits)

definition submitted :: "('s, 'c) composer_sdk \<Rightarrow> 's composer \<Rightarrow> 's composer" where
  "submitted L c = (if is_kavm_client L then override_ids else id) (c\<lparr>comp_status := SUBMITTED L\<rparr>)"

lemma execute_result:
  "execute L w (c, k) =
     (if SUBMITTED L < comp_status c then (Inl AtomicTransactionComposerError, (c, k))
      else case base_submit L (c, k) of
        (Inl e, s1) \<Rightarrow> (Inl e, s1)
      | (Inr u, (c1, k1)) \<Rightarrow> await_group L w (submitted L c1, k1))"
  by (auto simp: execute_def bind_act_def submitted_def set_status_def split: prod.splits sum.splits)

lemma read_results_state: "\<exists>k'. snd (read_results L ms ids resp (c, k)) = (c\<lparr>comp_status := COMMITTED L\<rparr>, k')"
  using read_results_composer by (metis prod.collapse)

lemma await_group_status:
  assumes "await_group L w (c, k) = (r, s')"
  shows "fst s' = c \<and> isl r \<or> fst s' = c\<lparr>comp_status := COMMITTED L\<rparr>"
proof (cases "comp_tx_ids c")
  case Nil
  then show ?thesis using assms by (auto simp: await_group_result)
next
  case (Cons i ids)
  obtain x k1 where w: "wait_for_confirmation L i w k = (x, k1)" by fastforce
  show ?thesis
  proof (cases x)
    case (Inl e)
    then show ?thesis using assms Cons w by (auto simp: await_group_result)
  next
    case (Inr resp)
    then have "(r, s') = read_results L (method_dict c) (comp_tx_ids c) resp (c, k1)"
      using assms Cons w by (simp add: await_group_result)
    then show ?thesis using read_results_composer by (metis snd_conv)
  qed
qed

lemma submitted_status: "comp_status (submitted L c) = SUBMITTED L"
  by (simp add: submitted_def override_ids_def)



text \<open>A method's result against the log entry it comes from.\<close>

definition reads_return :: "bytes \<Rightarrow> abi_method \<Rightarrow> abi_result \<Rightarrow> bool" where
  "reads_return prefix m r = (if returns_void m then res_raw_value r = None
     else \<exists>raw logs x. res_raw_value r = Some raw \<and> py_get (res_tx_info r) ''logs'' = Inr logs \<and>
       py_last logs = Inr x \<and> b64decode_val x = Inr (prefix @ raw) \<and> decode_return m raw = Inr (res_return_value r))"

lemma method_result_value:
  assumes "length prefix = 4" and "method_result prefix tx_id m info = Inr r"
  shows "res_tx_id r = tx_id \<and> reads_return prefix m r"
proof (cases "returns_void m")
  case True
  then show ?thesis using assms(2) by (auto simp: method_result_def reads_return_def)
next
  case False
  then obtain raw v where "logged_value prefix info = Inr raw" and "decode_return m raw = Inr v"
    and "r = \<lparr>res_tx_id = tx_id, res_raw_value = Some raw, res_return_value = v, res_tx_info = info, res_method = m\<rparr>"
    using assms(2) by (auto simp: method_result_def bind_res_Inr_iff map_res_Inr_iff)
  with False logged_value_iff [OF assms(1), of info raw] show ?thesis by (auto simp: reads_return_def)
qed

lemma result_of_value:
  "length (ABI_RETURN_HASH L) = 4 \<Longrightarrow> result_of L ms (i, tx_id) r \<Longrightarrow>
     \<exists>m. dict_get ms i = Some m \<and> res_tx_id r = tx_id \<and> reads_return (ABI_RETURN_HASH L) m r"
  using method_result_value by (fastforce simp: result_of_def)

text \<open>
  C38: what a successful execution returns. The ids are the composer's, and with a KAVM client
  they are the numbers of the transactions in the group. There is one result for every
  transaction that calls a method, in the order of the group: nothing for a method without a
  return value, and otherwise what the method's type decodes from the last log entry, which is
  the prefix followed by the raw value.
\<close>

theorem abi_return_values:
  assumes "length (ABI_RETURN_HASH L) = 4" and "execute L w s = (Inr resp, s')"
  shows "resp_tx_ids resp = comp_tx_ids (fst s') \<and>
    (is_kavm_client L \<longrightarrow> resp_tx_ids resp = sequential_ids (txn_list (fst s'))) \<and>
    list_all2 (\<lambda>(i, tx_id) r. \<exists>m. dict_get (method_dict (fst s')) i = Some m \<and> res_tx_id r = tx_id \<and>
        reads_return (ABI_RETURN_HASH L) m r)
      (calls (method_dict (fst s')) 0 (resp_tx_ids resp)) (method_results resp)"
proof -
  obtain c k where s: "s = (c, k)" by (cases s)
  obtain u c1 k1 where "await_group L w (submitted L c1, k1) = (Inr resp, s')"
    using assms(2) by (auto simp: s execute_result split: if_splits prod.splits sum.splits)
  then obtain x k2 where r: "read_results L (method_dict (submitted L c1)) (comp_tx_ids (submitted L c1)) x
      (submitted L c1, k2) = (Inr resp, s')"
    by (auto simp: await_group_result split: list.splits prod.splits sum.splits)
  then have c': "fst s' = (submitted L c1)\<lparr>comp_status := COMMITTED L\<rparr>"
    using read_results_composer by (metis snd_conv)
  let ?ms = "method_dict (submitted L c1)"
  from r obtain s2 s3 where ids: "resp_tx_ids resp = comp_tx_ids (submitted L c1)"
    and "collect_results L ?ms 0 (resp_tx_ids resp) s2 = (Inr (method_results resp), s3)"
    by (auto simp: read_results_def set_status_def res_iff)
  then have "list_all2 (result_of L ?ms) (calls ?ms 0 (resp_tx_ids resp)) (method_results resp)"
    by (simp add: collect_results_calls)
  then have "list_all2 (\<lambda>(i, tx_id) r. \<exists>m. dict_get ?ms i = Some m \<and> res_tx_id r = tx_id \<and>
        reads_return (ABI_RETURN_HASH L) m r) (calls ?ms 0 (resp_tx_ids resp)) (method_results resp)"
    by (rule list_all2_mono) (use result_of_value [OF assms(1)] in auto)
  moreover have "is_kavm_client L \<longrightarrow> comp_tx_ids (submitted L c1) = sequential_ids (txn_list (submitted L c1))"
    by (simp add: submitted_def override_ids_def)
  ultimately show ?thesis using ids by (simp add: c')
qed

section \<open>A composer to run\<close>

text \<open>The SDK's statuses in their order, and a client that knows one confirmed transaction.\<close>

datatype group_status = Building | Built | Signed | Submitted | Committed

instantiation group_status :: linorder
begin

definition less_eq_group_status :: "group_status \<Rightarrow> group_status \<Rightarrow> bool" where
  "less_eq_group_status a b = (case (a, b) of
     (Building, _) \<Rightarrow> True
   | (Built, Building) \<Rightarrow> False | (Built, _) \<Rightarrow> True
   | (Signed, Building) \<Rightarrow> False | (Signed, Built) \<Rightarrow> False | (Signed, _) \<Rightarrow> True
   | (Submitted, Submitted) \<Rightarrow> True | (Submitted, Committed) \<Rightarrow> True | (Submitted, _) \<Rightarrow> False
   | (Committed, b) \<Rightarrow> b = Committed)"

definition less_group_status :: "group_status \<Rightarrow> group_status \<Rightarrow> bool" where
  "less_group_status a b \<longleftrightarrow> a \<le> b \<and> \<not> b \<le> a"

instance
  by intro_classes
    (auto simp: less_eq_group_status_def less_group_status_def split: group_status.splits)

end

definition sample_method :: abi_method where
  "sample_method = \<lparr>returns_void = False, decode_return = (\<lambda>b. Inr (PInt (int (length b))))\<rparr>"

definition sample_info :: pyval where
  "sample_info = PDict [(''confirmed-round'', PInt 1), (''logs'', PList [PStr (b64encode [21, 31, 124, 117, 7])])]"

definition sample_sdk :: "(group_status, pyval) composer_sdk" where
  "sample_sdk = \<lparr>is_kavm_client = True, SUBMITTED = Submitted, COMMITTED = Committed,
     ABI_RETURN_HASH = [21, 31, 124, 117],
     base_submit = modify_act (\<lambda>(c, k). (c\<lparr>comp_tx_ids := [''HASH'']\<rparr>, k)),
     wait_for_confirmation = (\<lambda>i w k. (Inr k, k)),
     pending_transaction_info = (\<lambda>i k. (Inr k, k))\<rparr>"

definition sample_composer :: "group_status composer" where
  "sample_composer = \<lparr>comp_status = Building, comp_tx_ids = [], txn_list = [PNone], method_dict = [(0, sample_method)]\<rparr>"

lemma sample_execution:
  "\<exists>resp s'. execute sample_sdk 4 (sample_composer, sample_info) = (Inr resp, s') \<and>
     resp_tx_ids resp = [''0''] \<and> map res_return_value (method_results resp) = [PInt 1]"
proof -
  have "case fst (execute sample_sdk 4 (sample_composer, sample_info)) of Inl e \<Rightarrow> False
    | Inr resp \<Rightarrow> resp_tx_ids resp = [''0''] \<and> map res_return_value (method_results resp) = [PInt 1]"
    by code_simp
  then show ?thesis
    by (cases "execute sample_sdk 4 (sample_composer, sample_info)") (auto split: sum.splits)
qed


theorem abi_return_values_witness:
  "\<exists>resp s'. execute sample_sdk 4 (sample_composer, sample_info) = (Inr resp, s') \<and>
     resp_tx_ids resp = sequential_ids (txn_list (fst s')) \<and> map res_return_value (method_results resp) = [PInt 1]"
proof -
  obtain resp s' where e: "execute sample_sdk 4 (sample_composer, sample_info) = (Inr resp, s')"
    and v: "map res_return_value (method_results resp) = [PInt 1]"
    using sample_execution by (metis (no_types, lifting))
  have "length (ABI_RETURN_HASH sample_sdk) = 4" and "is_kavm_client sample_sdk" by (simp_all add: sample_sdk_def)
  with abi_return_values [OF this(1) e] e v show ?thesis by auto
qed

section \<open>What the loop asks the client\<close>

lemma collect_results_info:
  assumes "\<And>i k. pending_transaction_info L i k = (q k i, k)" and "collect_results L ms n ids (c, k) = (Inr rs, s')"
  shows "\<forall>r \<in> set rs. res_tx_id r \<in> set ids \<and> q k (res_tx_id r) = Inr (res_tx_info r) \<and>
    method_result (ABI_RETURN_HASH L) (res_tx_id r) (res_method r) (res_tx_info r) = Inr r"
  using assms(2)
proof (induction ids arbitrary: n rs)
  case Nil
  then show ?case by simp
next
  case (Cons tx_id ids)
  show ?case
  proof (cases "dict_get ms n")
    case None
    then show ?thesis using Cons by auto
  next
    case (Some m)
    with Cons.prems obtain info r rs' where i: "q k tx_id = Inr info"
      and r: "method_result (ABI_RETURN_HASH L) tx_id m info = Inr r"
      and rest: "collect_results L ms (Suc n) ids (c, k) = (Inr rs', s')" and rs: "rs = r # rs'"
      by (auto simp: res_iff on_client_def assms(1))
    have "res_tx_id r = tx_id" "res_method r = m" "res_tx_info r = info"
      using r by (auto simp: method_result_def res_iff split: if_splits)
    with i r Cons.IH [OF rest] rs show ?thesis by auto
  qed
qed

section \<open>When an execution returns\<close>

text \<open>The transaction's data lets the method's result be read: it returns nothing, or its last log entry decodes.\<close>

definition readable :: "bytes \<Rightarrow> abi_method \<Rightarrow> pyval \<Rightarrow> bool" where
  "readable prefix m info \<longleftrightarrow> returns_void m \<or>
     (\<exists>logs x raw v. py_in ''logs'' info = Inr True \<and> py_get info ''logs'' = Inr logs \<and> py_true logs \<and>
        py_last logs = Inr x \<and> b64decode_val x = Inr (prefix @ raw) \<and> decode_return m raw = Inr v)"

lemma method_result_returns:
  assumes "length prefix = 4"
  shows "(\<exists>r. method_result prefix tx_id m info = Inr r) \<longleftrightarrow> readable prefix m info"
proof (cases "returns_void m")
  case True
  then show ?thesis by (simp add: method_result_def readable_def)
next
  case False
  then have "(\<exists>r. method_result prefix tx_id m info = Inr r) \<longleftrightarrow>
      (\<exists>raw v. logged_value prefix info = Inr raw \<and> decode_return m raw = Inr v)"
    by (auto simp add: method_result_def bind_res_Inr_iff map_res_Inr_iff)
  then show ?thesis using False by (auto simp: readable_def logged_value_iff [OF assms])
qed

text \<open>The client knows the transaction of a call, and its result can be read.\<close>

definition answered :: "('s, 'c) composer_sdk \<Rightarrow> ('c \<Rightarrow> string \<Rightarrow> pyval res) \<Rightarrow> 'c \<Rightarrow> (nat, abi_method) dict \<Rightarrow> nat \<times> string \<Rightarrow> bool" where
  "answered L q k ms = (\<lambda>(j, tx_id). \<exists>m info. dict_get ms j = Some m \<and> q k tx_id = Inr info \<and>
     readable (ABI_RETURN_HASH L) m info)"

lemma collect_results_returns:
  assumes "length (ABI_RETURN_HASH L) = 4" and "\<And>i k. pending_transaction_info L i k = (q k i, k)"
  shows "if list_all (answered L q k ms) (calls ms n ids)
    then \<exists>rs. collect_results L ms n ids (c, k) = (Inr rs, (c, k)) \<and> length rs = length (calls ms n ids)
    else \<exists>e. collect_results L ms n ids (c, k) = (Inl e, (c, k))"
proof (induction ids arbitrary: n)
  case Nil
  then show ?case by simp
next
  case (Cons tx_id ids)
  show ?case
  proof (cases "dict_get ms n")
    case None
    then show ?thesis using Cons.IH [of "Suc n"] by simp
  next
    case (Some m)
    show ?thesis
    proof (cases "q k tx_id")
      case (Inl e)
      then show ?thesis using Some by (simp add: answered_def bind_act_def on_client_def assms(2))
    next
      case (Inr info)
      have a: "answered L q k ms (n, tx_id) \<longleftrightarrow> (\<exists>r. method_result (ABI_RETURN_HASH L) tx_id m info = Inr r)"
        using Some Inr method_result_returns [OF assms(1)] by (simp add: answered_def)
      show ?thesis
        using Some Inr a Cons.IH [of "Suc n"]
        by (cases "method_result (ABI_RETURN_HASH L) tx_id m info")
          (auto simp: bind_act_def on_client_def assms(2) split: if_splits)
    qed
  qed
qed

text \<open>
  C15: an execution that gets its group confirmed comes to an end, and with an answer exactly when
  the results can be read. If the base class submits the group, there is a transaction to wait
  for, and waiting returns a confirmation with its round, then \<open>execute\<close> returns a response
  with that round and one result for every method call if the client knows the transaction of
  each call and its last log entry decodes (or the method returns nothing); otherwise it
  raises. Either way the group is committed.
\<close>

theorem execution_completes:
  assumes "length (ABI_RETURN_HASH L) = 4" and "\<And>i k. pending_transaction_info L i k = (q k i, k)"
    and "comp_status c \<le> SUBMITTED L" and "base_submit L (c, k) = (Inr u, (c1, k1))"
    and "comp_tx_ids (submitted L c1) = i # ids" and "wait_for_confirmation L i w k1 = (Inr confirmation, k2)"
    and "py_get confirmation ''confirmed-round'' = Inr rnd"
  shows "let calls = calls (method_dict (submitted L c1)) 0 (i # ids); c2 = (submitted L c1)\<lparr>comp_status := COMMITTED L\<rparr> in
    if list_all (answered L q k2 (method_dict (submitted L c1))) calls
    then \<exists>resp. execute L w (c, k) = (Inr resp, (c2, k2)) \<and> confirmed_round resp = rnd \<and>
      length (method_results resp) = length calls
    else \<exists>e. execute L w (c, k) = (Inl e, (c2, k2))"
proof -
  let ?c = "submitted L c1"
  let ?c2 = "?c\<lparr>comp_status := COMMITTED L\<rparr>"
  have "\<not> SUBMITTED L < comp_status c" using assms(3) by simp
  then have "execute L w (c, k) = read_results L (method_dict ?c) (i # ids) confirmation (?c, k2)"
    using assms(4-6) by (simp add: execute_result await_group_result)
  also have "\<dots> = bind_act (collect_results L (method_dict ?c) 0 (i # ids))
      (\<lambda>results. lift_act (Inr \<lparr>confirmed_round = rnd, resp_tx_ids = i # ids, method_results = results\<rparr>)) (?c2, k2)"
    using assms(7) by (simp add: read_results_def set_status_def)
  finally have e: "execute L w (c, k) = bind_act (collect_results L (method_dict ?c) 0 (i # ids))
      (\<lambda>results. lift_act (Inr \<lparr>confirmed_round = rnd, resp_tx_ids = i # ids, method_results = results\<rparr>)) (?c2, k2)" .
  show ?thesis
    using collect_results_returns [where q = q and k = k2 and c = ?c2 and n = 0 and ids = "i # ids" and ms = "method_dict ?c", OF assms(1,2)]
    unfolding e Let_def bind_act_def by (auto simp del: calls_simps collect_results.simps split: if_splits)
qed

theorem execution_completes_witness:
  "\<exists>resp s'. execute sample_sdk 4 (sample_composer, sample_info) = (Inr resp, s') \<and>
     confirmed_round resp = PInt 1 \<and> length (method_results resp) = 1"
proof -
  let ?c1 = "sample_composer\<lparr>comp_tx_ids := [''HASH'']\<rparr>"
  have ids: "comp_tx_ids (submitted sample_sdk ?c1) = ''0'' # []" by code_simp
  have ms: "method_dict (submitted sample_sdk ?c1) = [(0, sample_method)]"
    by (simp add: submitted_def override_ids_def sample_composer_def)
  have "\<exists>r. method_result [21, 31, 124, 117] ''0'' sample_method sample_info = Inr r"
  proof -
    have "\<not> isl (method_result [21, 31, 124, 117] ''0'' sample_method sample_info)" by code_simp
    then show ?thesis by (cases "method_result [21, 31, 124, 117] ''0'' sample_method sample_info") auto
  qed
  then have "readable [21, 31, 124, 117] sample_method sample_info"
    using method_result_returns [of "[21, 31, 124, 117]" "''0''"] by simp
  then have a: "list_all (answered sample_sdk (\<lambda>k i. Inr k) sample_info [(0, sample_method)])
      (calls [(0, sample_method)] 0 [''0''])"
    by (simp add: answered_def sample_sdk_def)
  have "length (ABI_RETURN_HASH sample_sdk) = 4" "comp_status sample_composer \<le> SUBMITTED sample_sdk"
    "base_submit sample_sdk (sample_composer, sample_info) = (Inr (), (?c1, sample_info))"
    "wait_for_confirmation sample_sdk ''0'' 4 sample_info = (Inr sample_info, sample_info)"
    "py_get sample_info ''confirmed-round'' = Inr (PInt 1)"
    "\<And>i k. pending_transaction_info sample_sdk i k = (Inr k, k)"
    by (simp_all add: sample_sdk_def sample_composer_def less_eq_group_status_def sample_info_def)
  from execution_completes [OF this(1,6,2,3) ids this(4,5)] a show ?thesis by (auto simp: ms Let_def)
qed

end
