(* ===== verification/Factory.thy ===== *)
theory Factory
  imports AlgodClient
begin

text \<open>
  \<open>kavm/kast/factory.py\<close>: K cells of accounts, applications and assets from the dictionaries of
  the SDK, with symbolic terms in the place of amounts, and the terms of range conditions.
\<close>

section \<open>Programs\<close>

text \<open>Every two hexadecimal digits become an escape; the index of the second may be out of range.\<close>

fun hex_token_to_k_string :: "string \<Rightarrow> string res" where
  "hex_token_to_k_string [] = Inr []"
| "hex_token_to_k_string [c] = Inl IndexError"
| "hex_token_to_k_string (a # b # ht) =
     map_res (\<lambda>s. CHR 0x5C # CHR ''x'' # a # b # s) (hex_token_to_k_string ht)"

fun preprocess_teal_program :: "pyk \<Rightarrow> kinner \<Rightarrow> kinner res" where
  "preprocess_teal_program P (KApply l as) =
     (if length as = 0 then Inr (KApply l as)
      else map_res (KApply l) (mapM_res (preprocess_teal_program P) as))"
| "preprocess_teal_program P (KToken tok srt) =
     (if srt = ''HexToken''
      then map_res (\<lambda>s. stringToken P (dequote_string P s)) (hex_token_to_k_string (drop 2 tok))
      else Inr (KToken tok srt))"
| "preprocess_teal_program P t = Inr t"

section \<open>Reading the dictionaries\<close>

text \<open>\<open>d[k1][k2]\<dots>\<close>; tokens of numbers, texts and addresses found there.\<close>

definition py_path :: "string list \<Rightarrow> pyval \<Rightarrow> pyval res" where
  "py_path ks v = foldM_res (\<lambda>k w. py_get w k) ks v"

definition int_token :: "pyk \<Rightarrow> pyval \<Rightarrow> kinner res" where
  "int_token P v = map_res (intToken P) (as_int v)"

definition string_token :: "pyk \<Rightarrow> pyval \<Rightarrow> kinner res" where
  "string_token P v = map_res (stringToken P) (as_str v)"

definition int_at :: "pyk \<Rightarrow> string list \<Rightarrow> pyval \<Rightarrow> kinner res" where
  "int_at P ks d = bind_res (py_path ks d) (int_token P)"

definition amount_at :: "pyk \<Rightarrow> string list \<Rightarrow> pyval \<Rightarrow> kinner res" where
  "amount_at P ks d = bind_res (py_path ks d) (token_or_expr (int_token P))"

definition string_at :: "pyk \<Rightarrow> string list \<Rightarrow> pyval \<Rightarrow> kinner res" where
  "string_at P ks d = bind_res (py_path ks d) (string_token P)"

definition address_at :: "pyk \<Rightarrow> sdk \<Rightarrow> string list \<Rightarrow> pyval \<Rightarrow> kinner res" where
  "address_at P S ks d = bind_res (py_path ks d) (algorand_address_to_k_bytes P S)"

text \<open>\<open>intToken(1) if v else intToken(0)\<close>.\<close>

definition flag_at :: "pyk \<Rightarrow> string list \<Rightarrow> pyval \<Rightarrow> kinner res" where
  "flag_at P ks d = map_res (\<lambda>v. intToken P (if py_true v then 1 else 0)) (py_path ks d)"

text \<open>The cell of a sort with its leaves as variables, the caller's fields put in first, then the SDK's.\<close>

definition fill_cell :: "pyk \<Rightarrow> kdefinition \<Rightarrow> string \<Rightarrow> (string \<times> kinner res) list \<Rightarrow> subst \<Rightarrow> kinner res" where
  "fill_cell P D srt entries symbolic_fields_subst =
     map_res (\<lambda>sdk_fields_subst. subst_apply P (subst_compose P sdk_fields_subst symbolic_fields_subst)
         (fst (split_config_from P (init_config D srt))))
       (eval_entries entries)"

section \<open>Assets\<close>

definition asset_entries :: "pyk \<Rightarrow> sdk \<Rightarrow> pyval \<Rightarrow> (string \<times> kinner res) list" where
  "asset_entries P S d =
     [(''ASSETID_CELL'', int_at P [''index''] d),
      (''ASSETNAME_CELL'', string_at P [''params'', ''name''] d),
      (''ASSETUNITNAME_CELL'', string_at P [''params'', ''unit-name''] d),
      (''ASSETTOTAL_CELL'', amount_at P [''params'', ''total''] d),
      (''ASSETDECIMALS_CELL'', int_at P [''params'', ''decimals''] d),
      (''ASSETDEFAULTFROZEN_CELL'', flag_at P [''params'', ''default-frozen''] d),
      (''ASSETURL_CELL'', string_at P [''params'', ''url''] d),
      (''ASSETMETADATAHASH_CELL'', string_at P [''params'', ''metadata-hash''] d),
      (''ASSETMANAGERADDR_CELL'', address_at P S [''params'', ''manager''] d),
      (''ASSETRESERVEADDR_CELL'', address_at P S [''params'', ''reserve''] d),
      (''ASSETFREEZEADDR_CELL'', address_at P S [''params'', ''freeze''] d),
      (''ASSETCLAWBACKADDR_CELL'', address_at P S [''params'', ''clawback''] d)]"

definition asset_cell :: "pyk \<Rightarrow> sdk \<Rightarrow> kdefinition \<Rightarrow> pyval \<Rightarrow> subst \<Rightarrow> kinner res" where
  "asset_cell P S D sdk_asset_dict symbolic_fields_subst =
     fill_cell P D ''AssetCellMap'' (asset_entries P S sdk_asset_dict) symbolic_fields_subst"

definition opt_in_asset_entries :: "pyk \<Rightarrow> pyval \<Rightarrow> (string \<times> kinner res) list" where
  "opt_in_asset_entries P d =
     [(''OPTINASSETID_CELL'', int_at P [''asset-id''] d),
      (''OPTINASSETBALANCE_CELL'', amount_at P [''amount''] d),
      (''OPTINASSETFROZEN_CELL'', flag_at P [''is-frozen''] d)]"

definition opt_in_asset_cell :: "pyk \<Rightarrow> kdefinition \<Rightarrow> pyval \<Rightarrow> subst \<Rightarrow> kinner res" where
  "opt_in_asset_cell P D sdk_asset_holding symbolic_fields_subst =
     fill_cell P D ''OptInAssetCellMap'' (opt_in_asset_entries P sdk_asset_holding) symbolic_fields_subst"

section \<open>Applications\<close>

text \<open>\<open>try: x = d['params']\<dots> except KeyError: x = v\<close>.\<close>

definition or_on_key_error :: "'a \<Rightarrow> 'a res \<Rightarrow> 'a res" where
  "or_on_key_error v m = catch_res m (\<lambda>e. e = KeyError) (\<lambda>_. Inr v)"

definition zero_if_missing :: "string list \<Rightarrow> pyval \<Rightarrow> pyval res" where
  "zero_if_missing ks d = or_on_key_error (PInt 0) (py_path (''params'' # ks) d)"

definition app_state :: "pyval \<Rightarrow> (pydict \<times> pydict) res" where
  "app_state d = or_on_key_error ([], [])
     (bind_res (bind_res (py_path [''params'', ''global-state''] d) py_iter) (\<lambda>global_state.
      bind_res (raw_list_state_to_dict_bytes_bytes global_state) (\<lambda>bs.
      map_res (Pair bs) (raw_list_state_to_dict_bytes_ints global_state))))"

text \<open>
  A program is read from the directory of TEAL sources, parsed and preprocessed; the handler
  of its failure raises the exception again. \<open>None\<close>: there is no directory, and the path
  cannot be formed.
\<close>

definition program_term :: "pyk \<Rightarrow> ktools \<Rightarrow> files option \<Rightarrow> string \<Rightarrow> pyval \<Rightarrow> kinner res" where
  "program_term P K teal_sources_dir k d =
     bind_res (py_path [''params'', k] d) (\<lambda>v. case (teal_sources_dir, v) of
         (Some fs, PStr file) \<Rightarrow>
           bind_res (bind_res (parse_teal K fs (Some file)) (kore_to_kast K)) (preprocess_teal_program P)
       | _ \<Rightarrow> Inl TypeError)"

definition app_entries ::
    "pyk \<Rightarrow> pyval \<Rightarrow> kinner \<Rightarrow> kinner \<Rightarrow> pyval list \<Rightarrow> pydict \<times> pydict \<Rightarrow> (string \<times> kinner res) list" where
  "app_entries P d approval_pgm_term clear_pgm_term numbers state =
     [(''APPID_CELL'', int_at P [''id''] d),
      (''APPROVALPGMSRC_CELL'', Inr approval_pgm_term),
      (''CLEARSTATEPGMSRC_CELL'', Inr clear_pgm_term),
      (''APPROVALPGM_CELL'', string_at P [''params'', ''approval-program''] d),
      (''CLEARSTATEPGM_CELL'', string_at P [''params'', ''clear-state-program''] d),
      (''GLOBALNUMINTS_CELL'', int_token P (numbers ! 0)),
      (''GLOBALNUMBYTES_CELL'', int_token P (numbers ! 1)),
      (''LOCALNUMINTS_CELL'', int_token P (numbers ! 2)),
      (''LOCALNUMBYTES_CELL'', int_token P (numbers ! 3)),
      (''GLOBALBYTES_CELL'', map_bytes_bytes P (fst state)),
      (''GLOBALINTS_CELL'', map_bytes_ints P (snd state)),
      (''EXTRAPAGES_CELL'', int_token P (numbers ! 4))]"

definition app_numbers :: "pyval \<Rightarrow> pyval list res" where
  "app_numbers d = mapM_res (\<lambda>ks. zero_if_missing ks d)
     [[''global-state-schema'', ''num-uint''], [''global-state-schema'', ''num-byte-slice''],
      [''local-state-schema'', ''num-uint''], [''local-state-schema'', ''num-byte-slice''],
      [''extra-pages'']]"

definition app_cell :: "pyk \<Rightarrow> ktools \<Rightarrow> kdefinition \<Rightarrow> pyval \<Rightarrow> files option \<Rightarrow> subst \<Rightarrow> kinner res" where
  "app_cell P K D sdk_app_dict teal_sources_dir symbolic_fields_subst =
     bind_res (app_numbers sdk_app_dict) (\<lambda>numbers.
     bind_res (app_state sdk_app_dict) (\<lambda>state.
     bind_res (program_term P K teal_sources_dir ''approval-program'' sdk_app_dict) (\<lambda>approval.
     bind_res (program_term P K teal_sources_dir ''clear-state-program'' sdk_app_dict) (\<lambda>clear.
     fill_cell P D ''AppCellMap'' (app_entries P sdk_app_dict approval clear numbers state)
       symbolic_fields_subst))))"

definition opt_in_app_cell :: "pyval \<Rightarrow> kinner res" where
  "opt_in_app_cell sdk_app_local_state = Inl NotImplementedError"

section \<open>Accounts\<close>

definition local_states :: "pyval \<Rightarrow> pyval res" where
  "local_states d = catch_res
     (bind_res (py_get d ''apps-local-state'') (\<lambda>v. if py_true v then Inr v else Inl AssertionError))
     (\<lambda>e. e \<in> {KeyError, AssertionError}) (\<lambda>_. Inr (PList []))"

text \<open>A number that is not 0 or \<open>None\<close>, and otherwise what the initial configuration has.\<close>

definition int_or_default :: "pyk \<Rightarrow> subst \<Rightarrow> string \<Rightarrow> string \<Rightarrow> pyval \<Rightarrow> kinner res" where
  "int_or_default P default_fields_subst cell k d = bind_res (py_get d k) (\<lambda>v.
     if py_true v then int_token P v else subst_get default_fields_subst cell)"

text \<open>An associative map of cells, one for each element of the dictionary's list.\<close>

definition cells_at ::
    "pyk \<Rightarrow> string \<Rightarrow> string \<Rightarrow> (pyval \<Rightarrow> kinner res) \<Rightarrow> pyval list res \<Rightarrow> kinner res" where
  "cells_at P unit_sort label mk items =
     map_res (build_assoc P (KToken ''.Bag'' unit_sort) label) (bind_res items (mapM_res mk))"

definition list_at :: "string \<Rightarrow> pyval \<Rightarrow> pyval list res" where
  "list_at k d = bind_res (py_get d k) py_iter"

definition account_entries ::
    "pyk \<Rightarrow> sdk \<Rightarrow> ktools \<Rightarrow> kdefinition \<Rightarrow> subst \<Rightarrow> pyval \<Rightarrow> files option \<Rightarrow> pyval \<Rightarrow> (string \<times> kinner res) list" where
  "account_entries P S K D default_fields_subst apps_local_state teal_sources_dir d =
     [(''ADDRESS_CELL'', address_at P S [''address''] d),
      (''BALANCE_CELL'', amount_at P [''amount''] d),
      (''MINBALANCE_CELL'', bind_res (py_in ''min-balance'' d) (\<lambda>b.
         if b then amount_at P [''min-balance''] d else Inr (intToken P MIN_BALANCE))),
      (''ROUND_CELL'', int_or_default P default_fields_subst ''ROUND_CELL'' ''round'' d),
      (''PREREWARDS_CELL'', int_or_default P default_fields_subst ''PREREWARDS_CELL'' ''pending-rewards'' d),
      (''REWARDS_CELL'', int_or_default P default_fields_subst ''REWARDS_CELL'' ''rewards'' d),
      (''STATUS_CELL'', int_or_default P default_fields_subst ''STATUS_CELL'' ''status'' d),
      (''KEY_CELL'', bind_res (py_get d ''auth-addr'') (\<lambda>v.
         if py_true v then algorand_address_to_k_bytes P S v else address_at P S [''address''] d)),
      (''APPSCREATED_CELL'', cells_at P ''AppMapCell'' ''_AppCellMap_''
         (\<lambda>app. app_cell P K D app teal_sources_dir []) (list_at ''created-apps'' d)),
      (''APPSOPTEDIN_CELL'', cells_at P ''OptInAppMapCell'' ''_OptInAppCellMap_'' opt_in_app_cell
         (py_iter apps_local_state)),
      (''ASSETSCREATED_CELL'', cells_at P ''AssetMapCell'' ''_AssetCellMap_''
         (\<lambda>asset. asset_cell P S D asset []) (list_at ''created-assets'' d)),
      (''ASSETSOPTEDIN_CELL'', cells_at P ''OptInAssetMapCell'' ''_OptInAssetCellMap_''
         (\<lambda>holding. opt_in_asset_cell P D holding []) (list_at ''assets'' d)),
      (''BOXES_CELL'', Inr (build_assoc P (KToken ''.Bag'' ''BoxMapCell'') ''_BoxCellMap_'' []))]"

definition account_cell ::
    "pyk \<Rightarrow> sdk \<Rightarrow> ktools \<Rightarrow> kdefinition \<Rightarrow> pyval \<Rightarrow> files option \<Rightarrow> subst \<Rightarrow> kinner res" where
  "account_cell P S K D sdk_account_dict teal_sources_dir symbolic_fields_subst =
     bind_res (local_states sdk_account_dict) (\<lambda>apps_local_state.
     fill_cell P D ''AccountCellMap''
       (account_entries P S K D (snd (split_config_from P (init_config D ''AccountCellMap''))) apps_local_state
         teal_sources_dir sdk_account_dict)
       symbolic_fields_subst)"

section \<open>Conditions\<close>

definition range_uint :: "pyk \<Rightarrow> int \<Rightarrow> kinner \<Rightarrow> kinner" where
  "range_uint P width t = KApply ''#rangeUInt(_,_)_MACROS_Bool_Int_Int'' [intToken P width, t]"

definition range_term :: "pyk \<Rightarrow> pyval \<Rightarrow> pyval \<Rightarrow> kinner \<Rightarrow> kinner res" where
  "range_term P lower_bound upper_bound t =
     bind_res (token_or_expr (int_token P) lower_bound) (\<lambda>l.
     map_res (\<lambda>u. KApply ''#range(_<=_<=_)_MACROS_Bool_Int_Int_Int'' [l, t, u])
       (token_or_expr (int_token P) upper_bound))"

definition pow64 :: kinner where
  "pow64 = KConst ''pow64_MACROS_Int''"

section \<open>Programs: properties\<close>

text \<open>A hexadecimal token is complete when its digits after \<open>0x\<close> come in pairs.\<close>

primrec hex_complete :: "kinner \<Rightarrow> bool" where
  "hex_complete (KApply l as) = list_all hex_complete as"
| "hex_complete (KToken tok srt) = (srt = ''HexToken'' \<longrightarrow> even (length (drop 2 tok)))"
| "hex_complete (KVariable n srt) = True"
| "hex_complete (KRewrite a b) = True"
| "hex_complete KOther = True"

primrec no_hex :: "kinner \<Rightarrow> bool" where
  "no_hex (KApply l as) = list_all no_hex as"
| "no_hex (KToken tok srt) = (srt \<noteq> ''HexToken'')"
| "no_hex (KVariable n srt) = True"
| "no_hex (KRewrite a b) = True"
| "no_hex KOther = True"

lemma hex_token_result:
  "if even (length ht) then \<exists>s. hex_token_to_k_string ht = Inr s else hex_token_to_k_string ht = Inl IndexError"
  by (induction ht rule: hex_token_to_k_string.induct) (auto split: if_splits)

lemma mapM_res_checked:
  assumes "\<And>x. x \<in> set xs \<Longrightarrow> if p x then \<exists>y. f x = Inr y \<and> q y else f x = Inl e"
  shows "if list_all p xs then \<exists>ys. mapM_res f xs = Inr ys \<and> list_all q ys \<and> length ys = length xs
    else mapM_res f xs = Inl e"
  using assms
proof (induction xs)
  case Nil
  then show ?case by simp
next
  case (Cons x xs)
  then have 1: "if p x then \<exists>y. f x = Inr y \<and> q y else f x = Inl e"
    and 2: "if list_all p xs then \<exists>ys. mapM_res f xs = Inr ys \<and> list_all q ys \<and> length ys = length xs
      else mapM_res f xs = Inl e" by simp_all
  show ?case
  proof (cases "p x")
    case True
    with 1 2 show ?thesis by (auto split: if_splits)
  next
    case False
    with 1 show ?thesis by simp
  qed
qed

lemma preprocess_no_hex: "no_hex t \<Longrightarrow> preprocess_teal_program P t = Inr t"
proof (induction P t rule: preprocess_teal_program.induct)
  case (1 P l as)
  then have "list_all2 (\<lambda>x y. preprocess_teal_program P x = Inr y) as as"
    by (cases "as = []") (auto simp: list.rel_map list_all_iff intro!: list_all2_same [THEN iffD2])
  then have "mapM_res (preprocess_teal_program P) as = Inr as" by (simp add: mapM_res_Inr_iff)
  then show ?case by simp
qed auto

text \<open>
  Preprocessing a program replaces exactly its hexadecimal tokens (rewrites, which no program
  has, are left alone). It returns when every
  such token has an even number of digits; the result has none left and is a fixed point.
  A token with an odd number of digits is an \<open>IndexError\<close>.
\<close>

theorem preprocess_hex_tokens:
  assumes "pyk_token_law P"
  shows "if hex_complete t
    then \<exists>t'. preprocess_teal_program P t = Inr t' \<and> no_hex t' \<and> preprocess_teal_program P t' = Inr t' \<and>
      (no_hex t \<longrightarrow> t' = t)
    else preprocess_teal_program P t = Inl IndexError"
proof -
  have "if hex_complete t then \<exists>t'. preprocess_teal_program P t = Inr t' \<and> no_hex t'
    else preprocess_teal_program P t = Inl IndexError"
    using assms
  proof (induction P t rule: preprocess_teal_program.induct)
    case (1 P l as)
    show ?case
    proof (cases "as = []")
      case False
      then have "if list_all hex_complete as
        then \<exists>ys. mapM_res (preprocess_teal_program P) as = Inr ys \<and> list_all no_hex ys \<and> length ys = length as
        else mapM_res (preprocess_teal_program P) as = Inl IndexError"
        using 1 by (intro mapM_res_checked) simp
      with False show ?thesis by (auto split: if_splits)
    qed simp
  next
    case (2 P tok srt)
    have "no_hex (stringToken P s)" for s
      using "2.prems" by (auto simp: pyk_token_law_def intro: exE [of "\<lambda>q. stringToken P s = KToken q ''String''"])
    then show ?case using hex_token_result [of "drop 2 tok"] by (auto split: if_splits)
  qed auto
  then show ?thesis using preprocess_no_hex by (auto split: if_splits)
qed


theorem preprocess_hex_tokens_witness:
  "\<exists>t'. preprocess_teal_program ref_pyk (KApply ''byte'' [KToken ''0x4142'' ''HexToken'']) = Inr t' \<and> no_hex t' \<and>
     preprocess_teal_program ref_pyk (KToken ''0x414'' ''HexToken'') = Inl IndexError"
  using preprocess_hex_tokens [OF ref_token_law, of "KApply ''byte'' [KToken ''0x4142'' ''HexToken'']"]
    preprocess_hex_tokens [OF ref_token_law, of "KToken ''0x414'' ''HexToken''"] by auto

section \<open>Cells: properties\<close>

lemma eval_entries_keys: "eval_entries es = Inr fs \<Longrightarrow> map fst fs = map fst es"
  unfolding eval_entries_def mapM_res_Inr_iff
  by (induction rule: list_all2_induct) (auto simp: res_iff split: prod.splits)

lemma eval_entries_get:
  "eval_entries es = Inr fs \<Longrightarrow> distinct (map fst es) \<Longrightarrow> (k, r) \<in> set es \<Longrightarrow>
     \<exists>t. r = Inr t \<and> dict_get fs k = Some t"
proof -
  assume f: "eval_entries es = Inr fs" and d: "distinct (map fst es)" and m: "(k, r) \<in> set es"
  have "distinct (map fst fs)" using eval_entries_keys [OF f] d by simp
  moreover have "\<exists>t. r = Inr t \<and> (k, t) \<in> set fs"
    using f m unfolding eval_entries_def mapM_res_Inr_iff
    by (induction rule: list_all2_induct) (auto simp: res_iff split: prod.splits)
  ultimately show ?thesis by auto
qed

text \<open>Filling a cell puts the caller's terms in first: they win over the SDK's.\<close>

lemma fill_cell_result:
  assumes "pyk_subst_law P" and "fill_cell P D srt entries symbolic = Inr t"
  shows "\<exists>fs. eval_entries entries = Inr fs \<and>
    t = apply_of fs (apply_of symbolic (fst (split_config_from P (init_config D srt))))"
  using assms by (auto simp: fill_cell_def map_res_Inr_iff pyk_subst_law_def)

lemma account_entries_distinct: "distinct (map fst (account_entries P S K D df ls dir d))"
  by (simp add: account_entries_def)

lemma account_cell_entries:
  assumes "pyk_subst_law P" and "account_cell P S K D d dir symbolic = Inr t"
  shows "\<exists>ls fs. local_states d = Inr ls \<and>
    t = apply_of fs (apply_of symbolic (fst (split_config_from P (init_config D ''AccountCellMap'')))) \<and>
    (\<forall>k r. (k, r) \<in> set (account_entries P S K D (snd (split_config_from P (init_config D ''AccountCellMap''))) ls dir d)
       \<longrightarrow> (\<exists>t. r = Inr t \<and> dict_get fs k = Some t))"
proof -
  from assms(2) obtain ls where ls: "local_states d = Inr ls" and f: "fill_cell P D ''AccountCellMap''
      (account_entries P S K D (snd (split_config_from P (init_config D ''AccountCellMap''))) ls dir d) symbolic = Inr t"
    by (auto simp: account_cell_def bind_res_Inr_iff)
  from fill_cell_result [OF assms(1) f] ls eval_entries_get [OF _ account_entries_distinct] show ?thesis by blast
qed

lemma cells_at_result:
  "cells_at P u l mk items = Inr t \<longleftrightarrow> (\<exists>xs ts. items = Inr xs \<and> list_all2 (\<lambda>x c. mk x = Inr c) xs ts \<and>
     t = build_assoc P (KToken ''.Bag'' u) l ts)"
  by (auto simp: cells_at_def map_res_Inr_iff bind_res_Inr_iff mapM_res_Inr_iff)

text \<open>No account with the local state of an application has a cell.\<close>

lemma opted_in_cells:
  assumes "cells_at P u l opt_in_app_cell (py_iter ls) = Inr t" and "local_states d = Inr ls"
  shows "\<not> (\<exists>v. py_get d ''apps-local-state'' = Inr v \<and> py_true v)"
proof
  assume "\<exists>v. py_get d ''apps-local-state'' = Inr v \<and> py_true v"
  then have "py_true ls" using assms(2) by (auto simp: local_states_def)
  moreover have "py_iter ls = Inr []"
    using assms(1) by (auto simp: cells_at_result opt_in_app_cell_def list_all2_Cons1 neq_Nil_conv)
      (metis list.exhaust list_all2_Cons1)
  ultimately show False by (cases ls) auto
qed

text \<open>The number or the term in the place of an amount.\<close>

fun amount_term :: "pyk \<Rightarrow> pyval \<Rightarrow> kinner option" where
  "amount_term P (PInt n) = Some (intToken P n)"
| "amount_term P (PTerm t) = Some t"
| "amount_term P _ = None"

lemma amount_at_result:
  assumes "amount_at P [k] d = Inr t"
  shows "\<exists>v. py_get d k = Inr v \<and> amount_term P v = Some t"
proof -
  from assms obtain v where "py_get d k = Inr v" and "token_or_expr (int_token P) v = Inr t"
    by (auto simp: amount_at_def py_path_def bind_res_Inr_iff)
  then show ?thesis by (cases v) (auto simp: token_or_expr_def int_token_def)
qed

text \<open>
  C32: what the cell of an account holds. The caller's symbolic fields are put in first, then the
  account's: its balance is the number of the dictionary or the symbolic term in its place, the
  minimal balance is the constant if the dictionary has none, the key is the authorising
  address, or the account's own if that is empty; every created application and asset and every
  holding is a cell of its own, in order. An account with the local state of an application
  has no cell: that is never translated.
\<close>

theorem account_cell_fields:
  assumes "pyk_subst_law P" and "account_cell P S K D d dir symbolic = Inr t"
  shows "\<exists>fs balance apps assets holdings cells cells' cells''.
    t = apply_of fs (apply_of symbolic (fst (split_config_from P (init_config D ''AccountCellMap'')))) \<and>
    py_get d ''amount'' = Inr balance \<and> dict_get fs ''BALANCE_CELL'' = amount_term P balance \<and>
    (py_in ''min-balance'' d = Inr False \<longrightarrow> dict_get fs ''MINBALANCE_CELL'' = Some (intToken P MIN_BALANCE)) \<and>
    (\<exists>a. py_get d ''auth-addr'' = Inr a \<and>
       (py_true a \<longrightarrow> algorand_address_to_k_bytes P S a = of_option KeyError (dict_get fs ''KEY_CELL'')) \<and>
       (\<not> py_true a \<longrightarrow> dict_get fs ''KEY_CELL'' = dict_get fs ''ADDRESS_CELL'')) \<and>
    list_at ''created-apps'' d = Inr apps \<and> list_all2 (\<lambda>x c. app_cell P K D x dir [] = Inr c) apps cells \<and>
    dict_get fs ''APPSCREATED_CELL'' = Some (build_assoc P (KToken ''.Bag'' ''AppMapCell'') ''_AppCellMap_'' cells) \<and>
    list_at ''created-assets'' d = Inr assets \<and> list_all2 (\<lambda>x c. asset_cell P S D x [] = Inr c) assets cells' \<and>
    dict_get fs ''ASSETSCREATED_CELL'' = Some (build_assoc P (KToken ''.Bag'' ''AssetMapCell'') ''_AssetCellMap_'' cells') \<and>
    list_at ''assets'' d = Inr holdings \<and> list_all2 (\<lambda>x c. opt_in_asset_cell P D x [] = Inr c) holdings cells'' \<and>
    dict_get fs ''ASSETSOPTEDIN_CELL'' = Some (build_assoc P (KToken ''.Bag'' ''OptInAssetMapCell'') ''_OptInAssetCellMap_'' cells'') \<and>
    \<not> (\<exists>v. py_get d ''apps-local-state'' = Inr v \<and> py_true v)"
proof -
  from account_cell_entries [OF assms] obtain ls fs where ls: "local_states d = Inr ls"
    and t: "t = apply_of fs (apply_of symbolic (fst (split_config_from P (init_config D ''AccountCellMap''))))"
    and e: "\<And>k r. (k, r) \<in> set (account_entries P S K D (snd (split_config_from P (init_config D ''AccountCellMap''))) ls dir d)
       \<Longrightarrow> \<exists>t. r = Inr t \<and> dict_get fs k = Some t"
    by blast
  let ?df = "snd (split_config_from P (init_config D ''AccountCellMap''))"
  have "\<exists>t. amount_at P [''amount''] d = Inr t \<and> dict_get fs ''BALANCE_CELL'' = Some t"
    by (rule e) (simp add: account_entries_def)
  then obtain balance where balance: "py_get d ''amount'' = Inr balance" "dict_get fs ''BALANCE_CELL'' = amount_term P balance"
    using amount_at_result by metis
  have "\<exists>t. bind_res (py_in ''min-balance'' d) (\<lambda>b. if b then amount_at P [''min-balance''] d else Inr (intToken P MIN_BALANCE)) =
      Inr t \<and> dict_get fs ''MINBALANCE_CELL'' = Some t"
    by (rule e) (simp add: account_entries_def)
  then have min: "py_in ''min-balance'' d = Inr False \<longrightarrow> dict_get fs ''MINBALANCE_CELL'' = Some (intToken P MIN_BALANCE)"
    by auto
  have "\<exists>t. address_at P S [''address''] d = Inr t \<and> dict_get fs ''ADDRESS_CELL'' = Some t"
    by (rule e) (simp add: account_entries_def)
  moreover have "\<exists>t. bind_res (py_get d ''auth-addr'') (\<lambda>v. if py_true v then algorand_address_to_k_bytes P S v
      else address_at P S [''address''] d) = Inr t \<and> dict_get fs ''KEY_CELL'' = Some t"
    by (rule e) (simp add: account_entries_def)
  ultimately obtain a where auth: "py_get d ''auth-addr'' = Inr a"
      "py_true a \<longrightarrow> algorand_address_to_k_bytes P S a = of_option KeyError (dict_get fs ''KEY_CELL'')"
      "\<not> py_true a \<longrightarrow> dict_get fs ''KEY_CELL'' = dict_get fs ''ADDRESS_CELL''"
    by (auto simp: bind_res_Inr_iff split: if_splits)
  have "\<exists>t. cells_at P ''AppMapCell'' ''_AppCellMap_'' (\<lambda>app. app_cell P K D app dir []) (list_at ''created-apps'' d) = Inr t \<and>
      dict_get fs ''APPSCREATED_CELL'' = Some t"
    by (rule e) (simp add: account_entries_def)
  then obtain apps cells where apps: "list_at ''created-apps'' d = Inr apps"
      "list_all2 (\<lambda>x c. app_cell P K D x dir [] = Inr c) apps cells"
      "dict_get fs ''APPSCREATED_CELL'' = Some (build_assoc P (KToken ''.Bag'' ''AppMapCell'') ''_AppCellMap_'' cells)"
    by (auto simp: cells_at_result)
  have "\<exists>t. cells_at P ''AssetMapCell'' ''_AssetCellMap_'' (\<lambda>asset. asset_cell P S D asset []) (list_at ''created-assets'' d) = Inr t \<and>
      dict_get fs ''ASSETSCREATED_CELL'' = Some t"
    by (rule e) (simp add: account_entries_def)
  then obtain assets cells' where assets: "list_at ''created-assets'' d = Inr assets"
      "list_all2 (\<lambda>x c. asset_cell P S D x [] = Inr c) assets cells'"
      "dict_get fs ''ASSETSCREATED_CELL'' = Some (build_assoc P (KToken ''.Bag'' ''AssetMapCell'') ''_AssetCellMap_'' cells')"
    by (auto simp: cells_at_result)
  have "\<exists>t. cells_at P ''OptInAssetMapCell'' ''_OptInAssetCellMap_'' (\<lambda>holding. opt_in_asset_cell P D holding [])
      (list_at ''assets'' d) = Inr t \<and> dict_get fs ''ASSETSOPTEDIN_CELL'' = Some t"
    by (rule e) (simp add: account_entries_def)
  then obtain holdings cells'' where holdings: "list_at ''assets'' d = Inr holdings"
      "list_all2 (\<lambda>x c. opt_in_asset_cell P D x [] = Inr c) holdings cells''"
      "dict_get fs ''ASSETSOPTEDIN_CELL'' = Some (build_assoc P (KToken ''.Bag'' ''OptInAssetMapCell'') ''_OptInAssetCellMap_'' cells'')"
    by (auto simp: cells_at_result)
  have "\<exists>t. cells_at P ''OptInAppMapCell'' ''_OptInAppCellMap_'' opt_in_app_cell (py_iter ls) = Inr t \<and>
      dict_get fs ''APPSOPTEDIN_CELL'' = Some t"
    by (rule e) (simp add: account_entries_def)
  then have "\<not> (\<exists>v. py_get d ''apps-local-state'' = Inr v \<and> py_true v)"
    using opted_in_cells ls by blast
  with t balance min auth apps assets holdings show ?thesis
    by (intro exI conjI) assumption+
qed


text \<open>An account that created one application, with a symbolic balance.\<close>

definition sample_app_dict :: pyval where
  "sample_app_dict = PDict [(''id'', PInt 7),
     (''params'', PDict [(''approval-program'', PStr ''a.teal''), (''clear-state-program'', PStr ''a.teal'')])]"

definition sample_account_dict :: pyval where
  "sample_account_dict = PDict [(''address'', PStr ZERO_ADDRESS), (''amount'', PTerm (KVariable ''X'' (Some ''Int''))),
     (''round'', PNone), (''pending-rewards'', PInt 0), (''rewards'', PInt 3), (''status'', PInt 1), (''auth-addr'', PNone),
     (''created-apps'', PList [sample_app_dict]), (''created-assets'', PList []), (''assets'', PList [])]"

definition sample_cells :: kdefinition where
  "sample_cells = \<lparr>empty_config = KConst, init_config = (\<lambda>s. KApply ''<account>''
     [cell1 ''<balance>'' (KToken ''0'' ''Int''), cell1 ''<round>'' (KToken ''0'' ''Int''),
      cell1 ''<preRewards>'' (KToken ''0'' ''Int'')])\<rparr>"

definition sample_teal_files :: files where
  "sample_teal_files = [(''a.teal'', ''int 1'')]"

lemma sample_app_cell: "\<exists>t. app_cell ref_pyk (sample_tools 0) sample_cells sample_app_dict (Some sample_teal_files) [] = Inr t"
  by (simp add: app_cell_def app_numbers_def zero_if_missing_def or_on_key_error_def app_state_def program_term_def
      py_path_def sample_app_dict_def sample_tools_def sample_teal_files_def parse_teal_def fill_cell_def eval_entries_def
      app_entries_def int_at_def string_at_def int_token_def string_token_def map_bytes_bytes_def map_bytes_ints_def)

lemma sample_account_cell:
  "\<exists>t. account_cell ref_pyk ref_sdk (sample_tools 0) sample_cells sample_account_dict (Some sample_teal_files) [] = Inr t"
proof -
  have df: "snd (split_config_from ref_pyk (init_config sample_cells ''AccountCellMap'')) =
      [(''BALANCE_CELL'', KToken ''0'' ''Int''), (''ROUND_CELL'', KToken ''0'' ''Int''), (''PREREWARDS_CELL'', KToken ''0'' ''Int'')]"
    by code_simp
  obtain c where c: "app_cell ref_pyk (sample_tools 0) sample_cells sample_app_dict (Some sample_teal_files) [] = Inr c"
    using sample_app_cell by blast
  show ?thesis
    unfolding account_cell_def df
    by (simp add: local_states_def sample_account_dict_def fill_cell_def eval_entries_def account_entries_def address_at_def
        py_path_def ref_zero_address amount_at_def token_or_expr_def int_or_default_def int_token_def subst_get_def
        cells_at_def list_at_def c)
qed

theorem account_cell_fields_witness:
  "\<exists>t fs. account_cell ref_pyk ref_sdk (sample_tools 0) sample_cells sample_account_dict (Some sample_teal_files) [] = Inr t \<and>
     t = apply_of fs (apply_of [] (fst (split_config_from ref_pyk (init_config sample_cells ''AccountCellMap'')))) \<and>
     dict_get fs ''BALANCE_CELL'' = Some (KVariable ''X'' (Some ''Int''))"
proof -
  obtain t where t: "account_cell ref_pyk ref_sdk (sample_tools 0) sample_cells sample_account_dict (Some sample_teal_files) [] = Inr t"
    using sample_account_cell by blast
  have "py_get sample_account_dict ''amount'' = Inr (PTerm (KVariable ''X'' (Some ''Int'')))"
    by (simp add: sample_account_dict_def)
  with account_cell_fields [OF ref_subst_law t] t show ?thesis by fastforce
qed

end
