(* ===== verification/KavmProof.thy ===== *)
theory KavmProof
  imports Factory Composer
begin

text \<open>
  \<open>kavm/proof.py\<close>: a K claim about a group of transactions. \<open>new_proof\<close> is the constructor of
  \<open>KAVMProof\<close>, \<open>build_claim\<close> puts the accounts and transactions into the initial configuration
  and describes the state after the group.
\<close>

section \<open>The environment\<close>

text \<open>
  The libraries, the definition and the tools. \<open>var_occurrences\<close> lists the variables of a term,
  \<open>hash_txn\<close> is the hash of a transaction object, and \<open>set_order\<close> the order in which Python
  iterates over the set of the given elements. \<open>prove_claim\<close> is the prover's answer.
\<close>

record claim =
  claim_body :: kinner
  claim_requires :: kinner
  claim_ensures :: kinner

record proof_env =
  pe_pyk :: pyk
  pe_sdk :: sdk
  pe_tools :: ktools
  pe_definition :: kdefinition
  var_occurrences :: "kinner \<Rightarrow> kinner list"
  hash_txn :: "pyval \<Rightarrow> string"
  set_order :: "kinner list \<Rightarrow> kinner list"
  push_down_rewrites :: "kinner \<Rightarrow> kinner"
  prove_claim :: "claim \<Rightarrow> string \<Rightarrow> kinner res"
  config_of :: "kinner \<Rightarrow> kinner"

definition set_order_law :: "proof_env \<Rightarrow> bool" where
  "set_order_law E \<longleftrightarrow> (\<forall>xs. distinct (set_order E xs) \<and> set (set_order E xs) = set xs)"

section \<open>Symbolic accounts\<close>

text \<open>
  The variables among the values of a dictionary and of the dictionaries and lists in it. The
  items of a list are asked for their values, so each must be a dictionary.
\<close>

function collect_value :: "pyval \<Rightarrow> kinner list res" where
  "collect_value v = (case v of
       PTerm t \<Rightarrow> Inr (case t of KVariable n s \<Rightarrow> [t] | _ \<Rightarrow> [])
     | PDict d \<Rightarrow> map_res concat (mapM_res (\<lambda>kv. collect_value (snd kv)) d)
     | PList xs \<Rightarrow> map_res concat (mapM_res (\<lambda>x. if is_dict x then collect_value x else Inl AttributeError) xs)
     | _ \<Rightarrow> Inr [])"
  by pat_completeness auto
termination
proof (relation "measure size", goal_cases)
  case 1
  show ?case by simp
next
  case (2 v xs x)
  then have "size x < size (PList xs)" by (induction xs arbitrary: v) auto
  with 2 show ?case by (simp del: pyval.size)
next
  case (3 v d kv)
  then show ?case by (cases kv) (auto simp del: pyval.size dest: size_dict_value)
qed

declare collect_value.simps [simp del]

definition collect_vars :: "pyval \<Rightarrow> kinner list res" where
  "collect_vars d = (if is_dict d then map_res remdups (collect_value d) else Inl AttributeError)"

record symbolic_account =
  sa_address :: pyval
  sa_dict :: pyval
  sa_cell :: kinner
  sa_apps :: "(int, kinner) dict"
  sa_assets :: "(int, kinner) dict"
  sa_vars :: "kinner list"

text \<open>The cells of a list of dictionaries by their ids; a missing key anywhere in it empties the list.\<close>

definition cells_by_id ::
    "string \<Rightarrow> string \<Rightarrow> (pyval \<Rightarrow> kinner res) \<Rightarrow> pyval \<Rightarrow> (int, kinner) dict res" where
  "cells_by_id k id_key mk d = or_on_key_error []
     (bind_res (list_at k d) (\<lambda>xs. foldM_res (\<lambda>x cells.
        bind_res (bind_res (py_get x id_key) as_int) (\<lambda>i. map_res (dict_set cells i) (mk x))) xs []))"

definition from_sdk_account :: "proof_env \<Rightarrow> files option \<Rightarrow> pyval \<Rightarrow> symbolic_account res" where
  "from_sdk_account E teal_sources_dir d =
     (let P = pe_pyk E; S = pe_sdk E; K = pe_tools E; D = pe_definition E in
      bind_res (cells_by_id ''created-apps'' ''id'' (\<lambda>x. app_cell P K D x teal_sources_dir []) d) (\<lambda>apps.
      bind_res (cells_by_id ''created-assets'' ''index'' (\<lambda>x. asset_cell P S D x []) d) (\<lambda>assets.
      bind_res (py_get d ''address'') (\<lambda>address.
      bind_res (account_cell P S K D d teal_sources_dir []) (\<lambda>cell.
      map_res (\<lambda>vs. \<lparr>sa_address = address, sa_dict = d, sa_cell = cell, sa_apps = apps, sa_assets = assets,
          sa_vars = vs\<rparr>)
        (collect_vars d))))))"

section \<open>The proof object\<close>

record kavm_proof =
  p_claim_name :: string
  p_accounts :: "symbolic_account list"
  p_txns_pre :: "kinner list"
  p_txns_post :: "kinner list"
  p_preconditions :: "kinner list"
  p_postconditions :: "kinner list"
  p_evar_mapping :: "(kinner, kinner) dict"

definition txns_pre_fields_subst :: "pyk \<Rightarrow> nat \<Rightarrow> subst" where
  "txns_pre_fields_subst P group_idx = [(''GROUPIDX_CELL'', intToken P (int group_idx))]"

definition post_cells :: "string list" where
  "post_cells = [''TXSCRATCH_CELL'', ''TXCONFIGASSET_CELL'', ''TXAPPLICATIONID_CELL'', ''LOGDATA_CELL'',
     ''LOGSIZE_CELL'', ''TXNEXECUTIONCONTEXT_CELL'', ''RESUME_CELL'']"

definition txns_post_fields_subst :: "pyk \<Rightarrow> nat \<Rightarrow> string \<Rightarrow> subst" where
  "txns_post_fields_subst P group_idx var_suffix =
     (''GROUPIDX_CELL'', intToken P (int group_idx)) #
     map (\<lambda>c. (c, KVariable (''?'' @ c @ ''_'' @ var_suffix) None)) post_cells"

definition txn_terms :: "proof_env \<Rightarrow> (nat \<Rightarrow> pyval \<Rightarrow> subst) \<Rightarrow> pyval list \<Rightarrow> kinner list res" where
  "txn_terms E symbolic_fields txns = mapM_res (\<lambda>(i, txn).
     transaction_k_term (pe_pyk E) (pe_sdk E) (pe_definition E) txn (str_of_int (int i)) (symbolic_fields i txn))
     (zip [0..<length txns] txns)"

definition collect_lhs_vars :: "proof_env \<Rightarrow> symbolic_account list \<Rightarrow> kinner list \<Rightarrow> kinner list" where
  "collect_lhs_vars E accts txns =
     set_order E (concat (map sa_vars accts) @ concat (map (var_occurrences E) txns))"

fun evar_of :: "kinner \<Rightarrow> kinner" where
  "evar_of (KVariable n s) = KVariable (''?'' @ n @ ''_POST'') s"
| "evar_of t = t"

definition new_proof ::
    "proof_env \<Rightarrow> string \<Rightarrow> pyval list \<Rightarrow> pyval list \<Rightarrow> files option \<Rightarrow> kinner list \<Rightarrow> kinner list \<Rightarrow> kavm_proof res" where
  "new_proof E name accts sdk_txns teal_sources_dir pre post =
     bind_res (mapM_res (from_sdk_account E teal_sources_dir) accts) (\<lambda>accs.
     bind_res (txn_terms E (\<lambda>i txn. txns_pre_fields_subst (pe_pyk E) i) sdk_txns) (\<lambda>txns_pre.
     bind_res (txn_terms E (\<lambda>i txn. txns_post_fields_subst (pe_pyk E) i (take 8 (hash_txn E txn))) sdk_txns) (\<lambda>txns_post.
     Inr \<lparr>p_claim_name = name, p_accounts = accs, p_txns_pre = txns_pre, p_txns_post = txns_post,
          p_preconditions = pre, p_postconditions = post,
          p_evar_mapping = dict_of_items (map (\<lambda>v. (v, evar_of v)) (collect_lhs_vars E accs txns_pre))\<rparr>)))"

definition require :: "kinner list \<Rightarrow> kavm_proof \<Rightarrow> kavm_proof" where
  "require preconditions p = p\<lparr>p_preconditions := p_preconditions p @ preconditions\<rparr>"

definition ensure :: "kinner list \<Rightarrow> kavm_proof \<Rightarrow> kavm_proof" where
  "ensure postconditions p = p\<lparr>p_postconditions := p_postconditions p @ postconditions\<rparr>"

definition evar_constraints :: "kavm_proof \<Rightarrow> kinner list" where
  "evar_constraints p = map (\<lambda>(v, e). KApply ''_==K_'' [v, e]) (p_evar_mapping p)"

section \<open>Parts of the claim\<close>

definition creator_items ::
    "proof_env \<Rightarrow> (symbolic_account \<Rightarrow> int list) \<Rightarrow> symbolic_account list \<Rightarrow> kinner list res" where
  "creator_items E ids accts = map_res concat (mapM_res (\<lambda>a. mapM_res (\<lambda>i.
     map_res (\<lambda>addr. KApply ''_|->_'' [intToken (pe_pyk E) i, addr])
       (algorand_address_to_k_bytes (pe_pyk E) (pe_sdk E) (sa_address a))) (ids a)) accts)"

definition build_app_creator_map :: "proof_env \<Rightarrow> kavm_proof \<Rightarrow> kinner res" where
  "build_app_creator_map E p = map_res (build_assoc (pe_pyk E) (KConst ''.Map'') ''_Map_'')
     (creator_items E (\<lambda>a. dict_keys (sa_apps a)) (p_accounts p))"

definition build_asset_creator_map :: "proof_env \<Rightarrow> kavm_proof \<Rightarrow> kinner res" where
  "build_asset_creator_map E p = map_res (build_assoc (pe_pyk E) (KConst ''.Map'') ''_Map_'')
     (creator_items E (\<lambda>a. dict_keys (sa_assets a)) (p_accounts p))"

definition build_transactions :: "pyk \<Rightarrow> kinner list \<Rightarrow> kinner" where
  "build_transactions P txns = build_assoc P (KConst ''.TransactionCellMap'') ''_TransactionCellMap_'' txns"

definition build_account_cell_map :: "pyk \<Rightarrow> kinner list \<Rightarrow> kinner" where
  "build_account_cell_map P cells = build_assoc P (KToken ''.Bag'' ''AccountCellMap'') ''_AccountCellMap_'' cells"

definition build_deque :: "pyk \<Rightarrow> string list \<Rightarrow> kinner" where
  "build_deque P txn_ids = build_assoc P (KConst ''.List'') ''_List_''
     (map (\<lambda>i. KApply ''ListItem'' [stringToken P i]) txn_ids)"

definition build_deque_set :: "pyk \<Rightarrow> string list \<Rightarrow> kinner" where
  "build_deque_set P txn_ids = build_assoc P (KConst ''.Set'') ''_Set_''
     (map (\<lambda>i. KApply ''SetItem'' [stringToken P i]) txn_ids)"

section \<open>The claim\<close>

definition lhs_updates :: "pyk \<Rightarrow> kavm_proof \<Rightarrow> kinner \<Rightarrow> kinner \<Rightarrow> (string \<times> kinner) list" where
  "lhs_updates P p app_creator asset_creator =
     (let n = length (p_txns_pre p); txn_ids = sequential_ids (p_txns_pre p) in
      [(''ACCOUNTSMAP_CELL'', build_account_cell_map P (map sa_cell (p_accounts p))),
       (''APPCREATOR_CELL'', app_creator),
       (''ASSETCREATOR_CELL'', asset_creator),
       (''TRANSACTIONS_CELL'', build_transactions P (p_txns_pre p @ [KToken ''.Bag'' ''TransactionCellMap''])),
       (''DEQUE_CELL'', build_deque P txn_ids),
       (''DEQUEINDEXSET_CELL'', build_deque_set P txn_ids),
       (''TXNINDEXMAP_CELL'', KToken ''.Bag'' ''TxnIndexMapGroupCell''),
       (''K_CELL'', KConst ''#evalTxGroup''),
       (''NEXTTXNID_CELL'', intToken P (int n)),
       (''NEXTGROUPID_CELL'', intToken P 2),
       (''NEXTAPPID_CELL'', intToken P 2),
       (''NEXTASSETID_CELL'', intToken P 2)])"

definition range_predicates :: "pyk \<Rightarrow> kinner list \<Rightarrow> kinner list" where
  "range_predicates P vs = map (range_uint P 64)
     (filter (\<lambda>v. case v of KVariable n (Some s) \<Rightarrow> s = ''Int'' | _ \<Rightarrow> False) vs)"

fun var_name :: "kinner \<Rightarrow> string" where
  "var_name (KVariable n s) = n"
| "var_name _ = []"

text \<open>A dictionary by the variables' names: of two variables with one name the later one counts.\<close>

definition evar_subst :: "kavm_proof \<Rightarrow> subst" where
  "evar_subst p = dict_of_items (map (\<lambda>(v, e). (var_name v, e)) (p_evar_mapping p))"

definition rhs_account_cells :: "pyk \<Rightarrow> kavm_proof \<Rightarrow> kinner list" where
  "rhs_account_cells P p = map (\<lambda>a. existentialize_leafs P (subst_apply P (evar_subst p) (sa_cell a))
     (map snd (evar_subst p))) (p_accounts p)"

abbreviation anything :: kinner where
  "anything \<equiv> KVariable ''?_'' None"

text \<open>The cells of the execution whose final content the claim leaves open.\<close>

definition open_cells :: "string list" where
  "open_cells =
     [''CURRENTTX_CELL'', ''DEQUE_CELL'', ''DEQUEINDEXSET_CELL'', ''GROUPSIZE_CELL'', ''GLOBALROUND_CELL'',
      ''LATESTTIMESTAMP_CELL'', ''CURRENTAPPLICATIONID_CELL'', ''CURRENTAPPLICATIONADDRESS_CELL'',
      ''CREATORADDRESS_CELL'', ''PC_CELL'', ''PROGRAM_CELL'', ''MODE_CELL'', ''VERSION_CELL'', ''STACK_CELL'',
      ''STACKSIZE_CELL'', ''JUMPED_CELL'', ''LABELS_CELL'', ''CALLSTACK_CELL'', ''SCRATCH_CELL'',
      ''INTCBLOCK_CELL'', ''BYTECBLOCK_CELL'', ''EFFECTS_CELL'', ''LASTTXNGROUPID_CELL'',
      ''INNERTRANSACTIONS_CELL'', ''ACTIVEAPPS_CELL'', ''TOUCHEDACCOUNTS_CELL'']"

definition rhs_updates :: "pyk \<Rightarrow> kavm_proof \<Rightarrow> subst \<Rightarrow> (string \<times> kinner) list res" where
  "rhs_updates P p lhs_subst =
     bind_res (subst_get lhs_subst ''APPCREATOR_CELL'') (\<lambda>app_creator.
     bind_res (subst_get lhs_subst ''ASSETCREATOR_CELL'') (\<lambda>asset_creator.
     map_res (\<lambda>index_set.
       [(''ACCOUNTSMAP_CELL'', build_account_cell_map P (rhs_account_cells P p)),
        (''TRANSACTIONS_CELL'', build_transactions P (p_txns_post p @ [KVariable ''?FUTURE_TXNS'' None])),
        (''APPCREATOR_CELL'', app_creator),
        (''ASSETCREATOR_CELL'', asset_creator),
        (''DEQUEINDEXSET_CELL'', index_set),
        (''DEQUE_CELL'', KToken ''.List'' ''List''),
        (''TXNINDEXMAP_CELL'', anything)] @
       map (\<lambda>c. (c, anything)) open_cells @
       [(''RETURNSTATUS_CELL'', anything),
        (''RETURNCODE_CELL'', intToken P 0),
        (''K_CELL'', KVariable ''.K'' None),
        (''NEXTTXNID_CELL'', anything), (''NEXTGROUPID_CELL'', anything),
        (''NEXTAPPID_CELL'', anything), (''NEXTASSETID_CELL'', anything)])
       (subst_get lhs_subst ''DEQUEINDEXSET_CELL'')))"

definition build_claim :: "proof_env \<Rightarrow> kavm_proof \<Rightarrow> claim res" where
  "build_claim E p =
     (let P = pe_pyk E; (symbolic_config, subst) = split_config_from P (init_config (pe_definition E) ''KavmCell'') in
      bind_res (build_app_creator_map E p) (\<lambda>app_creator.
      bind_res (build_asset_creator_map E p) (\<lambda>asset_creator.
      let lhs_subst = store_all (lhs_updates P p app_creator asset_creator) subst in
      map_res (\<lambda>updates. \<lparr>
          claim_body = push_down_rewrites E (KRewrite (subst_apply P lhs_subst symbolic_config)
            (subst_apply P (store_all updates subst) symbolic_config)),
          claim_requires = build_assoc P (KToken ''true'' ''Bool'') ''_andBool_''
            (p_preconditions p @ range_predicates P (collect_lhs_vars E (p_accounts p) (p_txns_pre p))),
          claim_ensures = build_assoc P (KToken ''true'' ''Bool'') ''_andBool_'' (p_postconditions p)\<rparr>)
        (rhs_updates P p lhs_subst))))"

section \<open>Proving it\<close>

text \<open>The report of a failure reads two cells of the final configuration and ends the program.\<close>

definition report_failure :: "proof_env \<Rightarrow> kinner \<Rightarrow> unit res" where
  "report_failure E final_term =
     (let subst = snd (split_config_from (pe_pyk E) (config_of E final_term)) in
      bind_res (subst_get subst ''RETURNCODE_CELL'') (\<lambda>_.
      bind_res (subst_get subst ''RETURNSTATUS_CELL'') (\<lambda>_. Inl (SystemExit 1))))"

definition prove :: "proof_env \<Rightarrow> string option \<Rightarrow> kavm_proof \<Rightarrow> unit res" where
  "prove E verification_definition_dir p =
     bind_res (build_claim E p) (\<lambda>c.
     case verification_definition_dir of
       None \<Rightarrow> Inl TypeError
     | Some dir \<Rightarrow>
         bind_res (prove_claim E c (p_claim_name p)) (\<lambda>result.
         if (case result of KApply l as \<Rightarrow> l = ''#Top'' | _ \<Rightarrow> False) then Inr () else report_failure E result))"

section \<open>The variables of a proof\<close>

definition int_var :: "kinner \<Rightarrow> bool" where
  "int_var v = (case v of KVariable n (Some s) \<Rightarrow> s = ''Int'' | _ \<Rightarrow> False)"

definition all_vars :: "proof_env \<Rightarrow> kavm_proof \<Rightarrow> kinner set" where
  "all_vars E p = \<Union> (set ` sa_vars ` set (p_accounts p)) \<union> \<Union> (set ` var_occurrences E ` set (p_txns_pre p))"

lemma collect_lhs_vars_set:
  "set_order_law E \<Longrightarrow> set (collect_lhs_vars E (p_accounts p) (p_txns_pre p)) = all_vars E p"
  by (auto simp: collect_lhs_vars_def set_order_law_def all_vars_def)

lemma collect_lhs_vars_distinct: "set_order_law E \<Longrightarrow> distinct (collect_lhs_vars E accs txns)"
  by (simp add: collect_lhs_vars_def set_order_law_def)

lemma build_claim_parts:
  assumes "build_claim E p = Inr c"
  shows "\<exists>app_creator asset_creator updates config subst.
    build_app_creator_map E p = Inr app_creator \<and> build_asset_creator_map E p = Inr asset_creator \<and>
    split_config_from (pe_pyk E) (init_config (pe_definition E) ''KavmCell'') = (config, subst) \<and>
    rhs_updates (pe_pyk E) p (store_all (lhs_updates (pe_pyk E) p app_creator asset_creator) subst) = Inr updates \<and>
    c = \<lparr>claim_body = push_down_rewrites E (KRewrite
          (subst_apply (pe_pyk E) (store_all (lhs_updates (pe_pyk E) p app_creator asset_creator) subst) config)
          (subst_apply (pe_pyk E) (store_all updates subst) config)),
        claim_requires = build_assoc (pe_pyk E) (KToken ''true'' ''Bool'') ''_andBool_''
          (p_preconditions p @ range_predicates (pe_pyk E) (collect_lhs_vars E (p_accounts p) (p_txns_pre p))),
        claim_ensures = build_assoc (pe_pyk E) (KToken ''true'' ''Bool'') ''_andBool_'' (p_postconditions p)\<rparr>"
proof -
  obtain config subst where s: "split_config_from (pe_pyk E) (init_config (pe_definition E) ''KavmCell'') = (config, subst)"
    by fastforce
  then show ?thesis
    using assms by (auto simp: build_claim_def Let_def bind_res_Inr_iff map_res_Inr_iff)
qed

text \<open>
  C22: the conditions of a claim. What is required is the caller's preconditions and, for every
  variable of sort \<open>Int\<close> in the accounts and the transactions, once, that it is an unsigned
  64-bit number; nothing is required of other variables. What is ensured is the caller's
  postconditions alone: the equations of \<open>evar_constraints\<close> are not among them.
\<close>

theorem claim_conditions:
  assumes "pyk_list_law (pe_pyk E)" and "set_order_law E" and "build_claim E p = Inr c"
    and "KToken ''true'' ''Bool'' \<notin> set (p_preconditions p @ p_postconditions p)"
  shows "\<exists>vs. distinct vs \<and> set vs = {v \<in> all_vars E p. int_var v} \<and>
    claim_requires c = assoc_of (KToken ''true'' ''Bool'') ''_andBool_''
      (p_preconditions p @ map (range_uint (pe_pyk E) 64) vs) \<and>
    claim_ensures c = assoc_of (KToken ''true'' ''Bool'') ''_andBool_'' (p_postconditions p)"
proof -
  let ?vs = "filter int_var (collect_lhs_vars E (p_accounts p) (p_txns_pre p))"
  have b: "build_assoc (pe_pyk E) u l ts = assoc_of u l ts" if "u \<notin> set ts" for u l ts
    using assms(1) that by (simp add: pyk_list_law_def)
  have r: "range_predicates P vs = map (range_uint P 64) (filter int_var vs)" for P vs
    by (simp add: range_predicates_def int_var_def [abs_def])
  have n: "KToken ''true'' ''Bool'' \<notin> set (p_preconditions p @ map (range_uint (pe_pyk E) 64) ?vs)"
    using assms(4) by (auto simp: range_uint_def)
  have "claim_requires c = build_assoc (pe_pyk E) (KToken ''true'' ''Bool'') ''_andBool_''
      (p_preconditions p @ map (range_uint (pe_pyk E) 64) ?vs)"
    using build_claim_parts [OF assms(3)] by (auto simp: r)
  then have "claim_requires c = assoc_of (KToken ''true'' ''Bool'') ''_andBool_''
      (p_preconditions p @ map (range_uint (pe_pyk E) 64) ?vs)"
    by (simp only: b [OF n])
  moreover have "claim_ensures c = assoc_of (KToken ''true'' ''Bool'') ''_andBool_'' (p_postconditions p)"
    using build_claim_parts [OF assms(3)] assms(4) by (auto simp: b)
  moreover have "set ?vs = {v \<in> all_vars E p. int_var v}" using collect_lhs_vars_set [OF assms(2)] by auto
  ultimately show ?thesis
    using collect_lhs_vars_distinct [OF assms(2)] by (intro exI [of _ ?vs]) simp
qed

section \<open>The two configurations\<close>

lemma map_of_rev_distinct: "distinct (map fst xs) \<Longrightarrow> map_of (rev xs) = map_of xs"
  by (simp add: map_of_inject_set rev_map [symmetric])

lemma store_all_get:
  "dict_get (store_all kvs s) k = (case map_of (rev kvs) k of Some v \<Rightarrow> Some v | None \<Rightarrow> dict_get s k)"
proof (induction kvs arbitrary: s)
  case Nil
  then show ?case by simp
next
  case (Cons kv kvs)
  obtain k' v' where kv: "kv = (k', v')" by (cases kv)
  show ?case by (simp add: kv Cons dict_get_set map_add_def split: option.splits)
qed

text \<open>
  C21: the claim is a rewrite between two instances of the initial configuration. On the left
  the accounts and transactions are in place, the queue holds the numbers of all transactions
  in order, the group is about to be evaluated, and every cell that is not named keeps its
  initial content. On the right the creators are the same, the return code is 0, and the
  transactions are followed by those the group may have added.
\<close>

theorem claim_configurations:
  assumes "pyk_subst_law (pe_pyk E)" and "build_claim E p = Inr c"
  shows "\<exists>config subst lhs rhs app_creator asset_creator.
    split_config_from (pe_pyk E) (init_config (pe_definition E) ''KavmCell'') = (config, subst) \<and>
    claim_body c = push_down_rewrites E (KRewrite (apply_of lhs config) (apply_of rhs config)) \<and>
    build_app_creator_map E p = Inr app_creator \<and> build_asset_creator_map E p = Inr asset_creator \<and>
    (\<forall>k. dict_get lhs k = or_else (map_of (lhs_updates (pe_pyk E) p app_creator asset_creator) k) (dict_get subst k)) \<and>
    dict_get lhs ''K_CELL'' = Some (KConst ''#evalTxGroup'') \<and>
    dict_get lhs ''DEQUE_CELL'' = Some (build_deque (pe_pyk E) (sequential_ids (p_txns_pre p))) \<and>
    dict_get lhs ''NEXTTXNID_CELL'' = Some (intToken (pe_pyk E) (int (length (p_txns_pre p)))) \<and>
    dict_get lhs ''ACCOUNTSMAP_CELL'' = Some (build_account_cell_map (pe_pyk E) (map sa_cell (p_accounts p))) \<and>
    dict_get rhs ''APPCREATOR_CELL'' = Some app_creator \<and> dict_get rhs ''ASSETCREATOR_CELL'' = Some asset_creator \<and>
    dict_get rhs ''RETURNCODE_CELL'' = Some (intToken (pe_pyk E) 0) \<and>
    dict_get rhs ''TRANSACTIONS_CELL'' =
      Some (build_transactions (pe_pyk E) (p_txns_post p @ [KVariable ''?FUTURE_TXNS'' None])) \<and>
    (\<forall>k \<in> set open_cells. dict_get rhs k = Some anything)"
proof -
  let ?P = "pe_pyk E"
  from build_claim_parts [OF assms(2)] obtain app_creator asset_creator updates config subst where
    creators: "build_app_creator_map E p = Inr app_creator" "build_asset_creator_map E p = Inr asset_creator"
    and split: "split_config_from ?P (init_config (pe_definition E) ''KavmCell'') = (config, subst)"
    and u: "rhs_updates ?P p (store_all (lhs_updates ?P p app_creator asset_creator) subst) = Inr updates"
    and c: "claim_body c = push_down_rewrites E (KRewrite
      (subst_apply ?P (store_all (lhs_updates ?P p app_creator asset_creator) subst) config)
      (subst_apply ?P (store_all updates subst) config))" by auto
  let ?lhs = "store_all (lhs_updates ?P p app_creator asset_creator) subst" and ?rhs = "store_all updates subst"
  have lhs: "dict_get ?lhs k = or_else (map_of (lhs_updates ?P p app_creator asset_creator) k) (dict_get subst k)" for k
  proof -
    have "map_of (rev (lhs_updates ?P p app_creator asset_creator)) = map_of (lhs_updates ?P p app_creator asset_creator)"
      by (rule map_of_rev_distinct) (simp add: lhs_updates_def Let_def)
    then show ?thesis by (simp add: store_all_get or_else_def)
  qed
  have up: "updates = [(''ACCOUNTSMAP_CELL'', build_account_cell_map ?P (rhs_account_cells ?P p)),
      (''TRANSACTIONS_CELL'', build_transactions ?P (p_txns_post p @ [KVariable ''?FUTURE_TXNS'' None])),
      (''APPCREATOR_CELL'', app_creator), (''ASSETCREATOR_CELL'', asset_creator),
      (''DEQUEINDEXSET_CELL'', build_deque_set ?P (sequential_ids (p_txns_pre p))),
      (''DEQUE_CELL'', KToken ''.List'' ''List''), (''TXNINDEXMAP_CELL'', anything)] @
      map (\<lambda>c. (c, anything)) open_cells @
      [(''RETURNSTATUS_CELL'', anything), (''RETURNCODE_CELL'', intToken ?P 0), (''K_CELL'', KVariable ''.K'' None),
       (''NEXTTXNID_CELL'', anything), (''NEXTGROUPID_CELL'', anything),
       (''NEXTAPPID_CELL'', anything), (''NEXTASSETID_CELL'', anything)]"
    using u unfolding rhs_updates_def subst_get_def lhs by (simp add: lhs_updates_def Let_def)
  have "map_of (rev updates) k = Some anything" if "k \<in> set open_cells" for k
    using that by (auto simp: up open_cells_def)
  moreover have "map_of (rev updates) ''APPCREATOR_CELL'' = Some app_creator"
      "map_of (rev updates) ''ASSETCREATOR_CELL'' = Some asset_creator"
      "map_of (rev updates) ''RETURNCODE_CELL'' = Some (intToken ?P 0)"
      "map_of (rev updates) ''TRANSACTIONS_CELL'' =
        Some (build_transactions ?P (p_txns_post p @ [KVariable ''?FUTURE_TXNS'' None]))"
    by (simp_all add: up open_cells_def)
  ultimately have rhs: "dict_get ?rhs ''APPCREATOR_CELL'' = Some app_creator"
      "dict_get ?rhs ''ASSETCREATOR_CELL'' = Some asset_creator"
      "dict_get ?rhs ''RETURNCODE_CELL'' = Some (intToken ?P 0)"
      "dict_get ?rhs ''TRANSACTIONS_CELL'' =
        Some (build_transactions ?P (p_txns_post p @ [KVariable ''?FUTURE_TXNS'' None]))"
      "\<forall>k \<in> set open_cells. dict_get ?rhs k = Some anything"
    by (simp_all add: store_all_get)
  have named: "dict_get ?lhs ''K_CELL'' = Some (KConst ''#evalTxGroup'')"
      "dict_get ?lhs ''DEQUE_CELL'' = Some (build_deque ?P (sequential_ids (p_txns_pre p)))"
      "dict_get ?lhs ''NEXTTXNID_CELL'' = Some (intToken ?P (int (length (p_txns_pre p))))"
      "dict_get ?lhs ''ACCOUNTSMAP_CELL'' = Some (build_account_cell_map ?P (map sa_cell (p_accounts p)))"
    unfolding lhs by (simp_all add: lhs_updates_def Let_def)
  have body: "claim_body c = push_down_rewrites E (KRewrite (apply_of ?lhs config) (apply_of ?rhs config))"
    using c assms(1) by (simp add: pyk_subst_law_def)
  show ?thesis
    by (intro exI [of _ config] exI [of _ subst] exI [of _ ?lhs] exI [of _ ?rhs] exI [of _ app_creator]
        exI [of _ asset_creator] conjI allI split body creators lhs named rhs)
qed

section \<open>Proving\<close>

text \<open>
  C27: \<open>prove\<close> returns only when the prover answered \<open>#Top\<close> on the claim of the proof, under its
  name. Any other answer ends the program with the exit code 1, or with a \<open>KeyError\<close> when the
  final configuration has no return code or status to report.
\<close>

theorem prove_outcome:
  assumes "build_claim E p = Inr c" and "prove_claim E c (p_claim_name p) = Inr answer"
  shows "(prove E (Some dir) p = Inr () \<longleftrightarrow> (\<exists>as. answer = KApply ''#Top'' as)) \<and>
    prove E (Some dir) p \<in> {Inr (), Inl (SystemExit 1), Inl KeyError}"
proof -
  have r: "report_failure E answer \<in> {Inl (SystemExit 1), Inl KeyError}"
    by (auto simp: report_failure_def Let_def subst_get_def bind_res_def of_option_def split: option.splits)
  have p: "prove E (Some dir) p = (if (case answer of KApply l as \<Rightarrow> l = ''#Top'' | _ \<Rightarrow> False) then Inr ()
      else report_failure E answer)"
    using assms by (simp add: prove_def)
  have t: "(case answer of KApply l as \<Rightarrow> l = ''#Top'' | _ \<Rightarrow> False) \<longleftrightarrow> (\<exists>as. answer = KApply ''#Top'' as)"
    by (cases answer) auto
  show ?thesis using r unfolding p t by auto
qed

section \<open>A proof to build\<close>

definition sample_proof_definition :: kdefinition where
  "sample_proof_definition = \<lparr>empty_config = KConst, init_config = (\<lambda>s. KApply ''<kavm>''
     [cell1 ''<k>'' (KConst ''.K''), cell1 ''<returncode>'' (KToken ''4'' ''Int'')])\<rparr>"

fun term_vars :: "kinner \<Rightarrow> kinner list" where
  "term_vars (KVariable n s) = [KVariable n s]"
| "term_vars (KApply l as) = concat (map term_vars as)"
| "term_vars (KRewrite a b) = term_vars a @ term_vars b"
| "term_vars _ = []"

definition sample_env :: "kinner \<Rightarrow> proof_env" where
  "sample_env answer = \<lparr>pe_pyk = ref_pyk, pe_sdk = ref_sdk, pe_tools = sample_tools 0,
     pe_definition = sample_proof_definition, var_occurrences = term_vars, hash_txn = (\<lambda>t. ''0123456789''),
     set_order = remdups, push_down_rewrites = id, prove_claim = (\<lambda>c n. Inr answer), config_of = id\<rparr>"

definition sample_proof :: kavm_proof where
  "sample_proof = \<lparr>p_claim_name = ''pay'', p_accounts = [], p_txns_pre = [KApply ''<txn>'' [KVariable ''X'' (Some ''Int'')]],
     p_txns_post = [KConst ''<txn>''], p_preconditions = [], p_postconditions = [], p_evar_mapping = []\<rparr>"

lemma sample_env_laws:
  "pyk_list_law (pe_pyk (sample_env t))" "pyk_subst_law (pe_pyk (sample_env t))" "set_order_law (sample_env t)"
  by (simp_all add: sample_env_def ref_list_law ref_subst_law set_order_law_def)

lemma sample_claim: "\<exists>c. build_claim (sample_env t) sample_proof = Inr c"
proof -
  let ?E = "sample_env t"
  obtain config subst where "split_config_from (pe_pyk ?E) (init_config (pe_definition ?E) ''KavmCell'') = (config, subst)"
    by fastforce
  moreover obtain a where a: "build_app_creator_map ?E sample_proof = Inr a"
    by (simp add: build_app_creator_map_def creator_items_def sample_proof_def)
  moreover obtain b where b: "build_asset_creator_map ?E sample_proof = Inr b"
    by (simp add: build_asset_creator_map_def creator_items_def sample_proof_def)
  moreover obtain u where "rhs_updates (pe_pyk ?E) sample_proof (store_all (lhs_updates (pe_pyk ?E) sample_proof a b) subst) = Inr u"
    by (simp add: rhs_updates_def subst_get_def store_all_get lhs_updates_def Let_def del: store_all_simps)
  ultimately show ?thesis by (auto simp: build_claim_def Let_def)
qed

theorem claim_conditions_witness:
  "\<exists>c vs. build_claim (sample_env (KConst ''#Top'')) sample_proof = Inr c \<and>
     set vs = {v \<in> all_vars (sample_env (KConst ''#Top'')) sample_proof. int_var v} \<and>
     claim_requires c = assoc_of (KToken ''true'' ''Bool'') ''_andBool_'' (map (range_uint ref_pyk 64) vs)"
proof -
  obtain c where c: "build_claim (sample_env (KConst ''#Top'')) sample_proof = Inr c" using sample_claim by blast
  from claim_conditions [OF sample_env_laws(1,3) c] c show ?thesis
    by (force simp: sample_proof_def sample_env_def)
qed

theorem claim_configurations_witness:
  "\<exists>c config lhs rhs. build_claim (sample_env (KConst ''#Top'')) sample_proof = Inr c \<and>
     claim_body c = KRewrite (apply_of lhs config) (apply_of rhs config) \<and>
     dict_get lhs ''NEXTTXNID_CELL'' = Some (intToken ref_pyk 1)"
proof -
  have e: "pe_pyk (sample_env (KConst ''#Top'')) = ref_pyk" "push_down_rewrites (sample_env (KConst ''#Top'')) = id"
    "length (p_txns_pre sample_proof) = 1"
    by (simp_all add: sample_env_def sample_proof_def)
  obtain c where c: "build_claim (sample_env (KConst ''#Top'')) sample_proof = Inr c" using sample_claim by blast
  from claim_configurations [OF sample_env_laws(2) c, unfolded e] c show ?thesis
    by (elim exE conjE) (intro exI conjI, assumption, simp, simp)
qed

theorem prove_outcome_witness:
  "prove (sample_env (KConst ''#Top'')) (Some ''dir'') sample_proof = Inr () \<and>
   prove (sample_env (KConst ''#Bottom'')) (Some ''dir'') sample_proof \<in> {Inl (SystemExit 1), Inl KeyError}"
proof -
  have a: "prove_claim (sample_env t) c n = Inr t" for t c n by (simp add: sample_env_def)
  obtain c where c: "build_claim (sample_env (KConst ''#Top'')) sample_proof = Inr c" using sample_claim by blast
  obtain c' where c': "build_claim (sample_env (KConst ''#Bottom'')) sample_proof = Inr c'" using sample_claim by blast
  from prove_outcome [OF c a] prove_outcome [OF c' a] show ?thesis by auto
qed

end
