(* ===== verification/KBytes.thy ===== *)
theory KBytes
  imports PyStd "HOL-Library.Signed_Division" "HOL-Library.Log_Nat"
begin

text \<open>
  The part of K's standard modules \<open>INT\<close> and \<open>BYTES\<close> that the terms built by the Python code
  and the TEAL semantics under \<open>lib/include/kframework/avm/\<close> use: numbers as big-endian bytes and
  back, padding, substrings and updates, each partial where K's function is.
\<close>

section \<open>Limits\<close>

definition MAX_UINT64 :: int where
  "MAX_UINT64 = 18446744073709551615"

section \<open>Numbers as bytes\<close>

text \<open>The eight bytes of the opcode \<open>itob\<close>, the highest first.\<close>

definition itob :: "64 word \<Rightarrow> bytes" where
  "itob w = map (\<lambda>i. ucast (drop_bit (8 * i) w)) (rev [0..<8])"

text \<open>
  K's \<open>Int2Bytes(i, BE, Unsigned)\<close> takes as many bytes as the number needs, none for zero;
  \<open>padLeftBytes\<close> fills up to a length. Both are partial, here \<open>None\<close>.
\<close>

fun be_bytes :: "nat \<Rightarrow> bytes" where
  "be_bytes n = (if n = 0 then [] else be_bytes (n div 256) @ [word_of_nat (n mod 256)])"

declare be_bytes.simps [simp del]

definition int_to_bytes :: "int \<Rightarrow> bytes option" where
  "int_to_bytes i = (if 0 \<le> i then Some (be_bytes (nat i)) else None)"

definition pad_left :: "nat \<Rightarrow> 8 word \<Rightarrow> bytes \<Rightarrow> bytes" where
  "pad_left n b bs = replicate (n - length bs) b @ bs"

definition pad_left_bytes :: "bytes \<Rightarrow> int \<Rightarrow> int \<Rightarrow> bytes option" where
  "pad_left_bytes bs n b = (if 0 \<le> n \<and> 0 \<le> b \<and> b < 256 then Some (pad_left (nat n) (word_of_int b) bs) else None)"

lemma be_bytes_simps:
  "be_bytes 0 = []"
  "0 < n \<Longrightarrow> be_bytes n = be_bytes (n div 256) @ [word_of_nat (n mod 256)]"
  by (simp_all add: be_bytes.simps)

lemma pad_left_snoc: "pad_left (Suc k) b (bs @ [x]) = pad_left k b bs @ [x]"
  by (simp add: pad_left_def)

lemma pad_left_empty: "pad_left (Suc k) b [] = pad_left k b [] @ [b]"
  by (simp add: pad_left_def replicate_append_same)

lemma digit_shift: "m div 256 ^ Suc i = m div 256 div 256 ^ i" for m :: nat
  by (simp add: div_mult2_eq)

lemma map_rev_upt_Suc: "map f (rev [0..<Suc k]) = map (\<lambda>i. f (Suc i)) (rev [0..<k]) @ [f 0]"
  by (simp add: upt_rec [of 0] map_Suc_upt [symmetric] rev_map [symmetric] comp_def del: upt_Suc)

lemma byte_of_mod: "word_of_nat (m mod 256) = (word_of_nat m :: 8 word)"
proof -
  have "(m mod 256) mod 2 ^ LENGTH(8) = m mod 2 ^ LENGTH(8)" by simp
  then show ?thesis by (simp only: word_unat_eq_iff unat_of_nat)
qed

text \<open>Padded to a length that is enough, the bytes are the digits to base 256.\<close>

lemma pad_left_digits:
  "m < 256 ^ k \<Longrightarrow> pad_left k 0 (be_bytes m) = map (\<lambda>i. word_of_nat (m div 256 ^ i)) (rev [0..<k])"
proof (induction k arbitrary: m)
  case 0
  then show ?case by (simp add: be_bytes_simps pad_left_def)
next
  case (Suc k)
  then have less: "m div 256 < 256 ^ k" by (simp add: div_less_iff_less_mult mult.commute)
  have "pad_left (Suc k) 0 (be_bytes m) = pad_left k 0 (be_bytes (m div 256)) @ [word_of_nat m]"
  proof (cases "m = 0")
    case True
    then show ?thesis by (simp add: be_bytes_simps pad_left_empty)
  next
    case False
    then show ?thesis by (simp add: be_bytes_simps(2) [of m] pad_left_snoc byte_of_mod)
  qed
  also have "\<dots> = map (\<lambda>i. word_of_nat (m div 256 ^ i)) (rev [0..<Suc k])"
    by (simp only: Suc.IH [OF less] map_rev_upt_Suc digit_shift power_0 div_by_1)
  finally show ?case .
qed

lemma itob_digits: "itob w = map (\<lambda>i. word_of_nat (unat w div 256 ^ i)) (rev [0..<8])"
proof -
  have "ucast (drop_bit (8 * i) w) = (word_of_nat (unat w div 256 ^ i) :: 8 word)" for i
  proof -
    have "unat (drop_bit (8 * i) w) = drop_bit (8 * i) (unat w)"
      by (rule unat_drop_bit_eq)
    also have "\<dots> = unat w div 256 ^ i"
      by (simp add: drop_bit_eq_div power_mult)
    finally show ?thesis by (metis of_nat_unat)
  qed
  then show ?thesis unfolding itob_def by simp
qed

lemma itob_padded: "pad_left_bytes (be_bytes (unat w)) 8 0 = Some (itob w)"
proof -
  have "unat w < 256 ^ 8" using unsigned_less [of w] by simp
  from pad_left_digits [OF this] show ?thesis by (simp add: pad_left_bytes_def itob_digits)
qed

lemma itob_length [simp]: "length (itob w) = 8"
  by (simp add: itob_def)

section \<open>Bytes as numbers\<close>

text \<open>K's \<open>Bytes2Int(b, BE, Unsigned)\<close>.\<close>

definition be_int :: "bytes \<Rightarrow> int" where
  "be_int bs = foldl (\<lambda>n b. n * 256 + uint b) 0 bs"

lemma be_int_empty [simp]: "be_int [] = 0"
  by (simp add: be_int_def)

lemma be_int_snoc [simp]: "be_int (bs @ [b]) = be_int bs * 256 + uint b"
  by (simp add: be_int_def)

lemma uint_byte: "0 \<le> uint (b :: 8 word)" "uint (b :: 8 word) < 256"
  using uint_lt2p [of b] by simp_all

lemma be_int_bounds: "0 \<le> be_int bs" "be_int bs < 256 ^ length bs"
proof (induction bs rule: rev_induct)
  case (snoc b bs)
  show "0 \<le> be_int (bs @ [b])" using snoc uint_byte(1) [of b] by simp
  show "be_int (bs @ [b]) < 256 ^ length (bs @ [b])" using snoc uint_byte(2) [of b] by simp
qed simp_all

lemma be_int_nonneg [simp]: "0 \<le> be_int bs"
  by (rule be_int_bounds)

lemma be_int_be_bytes [simp]: "be_int (be_bytes n) = int n"
proof (induction n rule: less_induct)
  case (less n)
  show ?case
  proof (cases "n = 0")
    case False
    have "uint (word_of_nat (n mod 256) :: 8 word) = int (n mod 256)"
      by (simp add: unsigned_of_nat take_bit_eq_mod)
    moreover have "be_int (be_bytes (n div 256)) = int (n div 256)" using False by (intro less) simp
    ultimately have "be_int (be_bytes n) = int (n div 256 * 256 + n mod 256)"
      using False by (simp only: be_bytes_simps(2) [of n] neq0_conv be_int_snoc of_nat_add of_nat_mult of_nat_numeral)
    then show ?thesis by (simp only: div_mult_mod_eq)
  qed (simp add: be_bytes_simps)
qed

lemma be_bytes_length: "length (be_bytes n) \<le> k \<longleftrightarrow> n < 256 ^ k"
proof (induction k arbitrary: n)
  case 0
  then show ?case by (cases "n = 0") (simp_all add: be_bytes_simps)
next
  case (Suc k)
  show ?case
  proof (cases "n = 0")
    case True
    then show ?thesis by (simp add: be_bytes_simps)
  next
    case False
    then have "length (be_bytes n) \<le> Suc k \<longleftrightarrow> n div 256 < 256 ^ k" by (simp add: be_bytes_simps(2) [of n] Suc.IH)
    then show ?thesis by (simp add: div_less_iff_less_mult mult.commute)
  qed
qed

lemma be_int_pad [simp]: "be_int (pad_left n 0 bs) = be_int bs"
proof -
  have "foldl (\<lambda>n b. n * 256 + uint b) (0 :: int) (replicate k (0 :: 8 word)) = 0" for k by (induction k) simp_all
  then show ?thesis by (simp add: be_int_def pad_left_def)
qed

lemma digits_unique:
  fixes m n x y :: int
  assumes "m * 256 + x = n * 256 + y" and "0 \<le> x" "x < 256" "0 \<le> y" "y < 256"
  shows "m = n \<and> x = y"
proof -
  from assms have "m = (m * 256 + x) div 256" "n = (n * 256 + y) div 256" by simp_all
  with assms(1) show ?thesis by simp
qed

lemma be_int_inject: "length a = length b \<Longrightarrow> be_int a = be_int b \<Longrightarrow> a = b"
proof (induction a arbitrary: b rule: rev_induct)
  case (snoc x a)
  obtain b' y where b: "b = b' @ [y]" using snoc.prems(1) by (cases b rule: rev_cases) simp_all
  have "be_int a * 256 + uint x = be_int b' * 256 + uint y" using snoc.prems(2) by (simp only: b be_int_snoc)
  from digits_unique [OF this uint_byte uint_byte] have "be_int a = be_int b'" "uint x = uint y" by simp_all
  with snoc.IH [of b'] snoc.prems(1) show ?case by (simp add: b word_uint_eq_iff)
qed simp

lemma pad_left_length [simp]: "length (pad_left n b bs) = max n (length bs)"
  by (auto simp: pad_left_def)

text \<open>Bytes are determined by their length and their number.\<close>

lemma pad_be_bytes: "pad_left (length bs) 0 (be_bytes (nat (be_int bs))) = bs"
proof (rule be_int_inject)
  have "int (nat (be_int bs)) < 256 ^ length bs" using be_int_bounds [of bs] by simp
  then have "nat (be_int bs) < 256 ^ length bs" by (simp add: zless_nat_eq_int_zless nat_less_iff)
  then show "length (pad_left (length bs) 0 (be_bytes (nat (be_int bs)))) = length bs"
    using be_bytes_length by fastforce
qed simp

text \<open>The bits of the number are the bits of the bytes, the last byte first.\<close>

lemma be_int_concat_bit: "be_int (bs @ [b]) = concat_bit 8 (uint b) (be_int bs)"
  using uint_byte [of b] by (simp add: concat_bit_eq take_bit_eq_mod push_bit_eq_mult)

lemma bit_uint_byte: "bit (uint (b :: 8 word)) n \<longleftrightarrow> n < 8 \<and> bit b n"
  by (simp add: bit_uint_iff)

lemma be_int_map2:
  assumes "length a = length b"
    and "\<And>x y n. bit (f x y :: 8 word) n \<longleftrightarrow> n < 8 \<and> g (bit x n) (bit y n)"
    and "\<And>i j n. bit (h i j :: int) n \<longleftrightarrow> g (bit i n) (bit j n)" and "\<not> g False False"
  shows "be_int (map2 f a b) = h (be_int a) (be_int b)"
  using assms(1)
proof (induction a arbitrary: b rule: rev_induct)
  case Nil
  have "h 0 0 = 0" by (rule bit_eqI) (simp add: assms(3,4))
  with Nil show ?case by simp
next
  case (snoc x a)
  then obtain b' y where b: "b = b' @ [y]" by (cases b rule: rev_cases) auto
  with snoc have IH: "be_int (map2 f a b') = h (be_int a) (be_int b')" and len: "length a = length b'" by simp_all
  have "be_int (map2 f (a @ [x]) (b' @ [y])) = concat_bit 8 (uint (f x y)) (h (be_int a) (be_int b'))"
    using len by (simp add: be_int_concat_bit IH del: be_int_snoc)
  also have "\<dots> = h (be_int (a @ [x])) (be_int (b' @ [y]))"
    unfolding be_int_concat_bit
  proof (rule bit_eqI)
    fix n
    show "bit (concat_bit 8 (uint (f x y)) (h (be_int a) (be_int b'))) n =
        bit (h (concat_bit 8 (uint x) (be_int a)) (concat_bit 8 (uint y) (be_int b'))) n"
      by (cases "n < 8") (simp_all add: bit_concat_bit_iff assms(2,3) bit_uint_byte)
  qed
  finally show ?case unfolding b .
qed

section \<open>Parts of byte arrays\<close>

text \<open>
  \<open>substrBytes\<close> from a start to an end, \<open>replaceAtBytes\<close>, and reading and writing one byte:
  outside the array there is no value.
\<close>

definition substr_bytes :: "bytes \<Rightarrow> int \<Rightarrow> int \<Rightarrow> bytes option" where
  "substr_bytes b s e =
     (if 0 \<le> s \<and> s \<le> e \<and> e \<le> int (length b) then Some (take (nat (e - s)) (drop (nat s) b)) else None)"

definition replace_at_bytes :: "bytes \<Rightarrow> int \<Rightarrow> bytes \<Rightarrow> bytes option" where
  "replace_at_bytes a s b =
     (if 0 \<le> s \<and> s + int (length b) \<le> int (length a)
      then Some (take (nat s) a @ b @ drop (nat s + length b) a) else None)"

definition byte_at :: "bytes \<Rightarrow> int \<Rightarrow> int option" where
  "byte_at a i = (if 0 \<le> i \<and> i < int (length a) then Some (uint (a ! nat i)) else None)"

definition byte_update :: "bytes \<Rightarrow> int \<Rightarrow> int \<Rightarrow> bytes option" where
  "byte_update a i v =
     (if 0 \<le> i \<and> i < int (length a) \<and> 0 \<le> v \<and> v < 256 then Some (a[nat i := word_of_int v]) else None)"

lemma substr_bytes_length: "substr_bytes b s e = Some x \<Longrightarrow> int (length x) = e - s \<and> length x \<le> length b"
  by (auto simp: substr_bytes_def split: if_splits)

lemma replace_at_bytes_length: "replace_at_bytes a s b = Some x \<Longrightarrow> length x = length a"
  by (auto simp: replace_at_bytes_def split: if_splits)

lemma byte_update_length: "byte_update a i v = Some x \<Longrightarrow> length x = length a"
  by (auto simp: byte_update_def split: if_splits)

lemma byte_at_bounds: "byte_at a i = Some v \<Longrightarrow> 0 \<le> v \<and> v < 256"
  using uint_byte [of "a ! nat i"] by (auto simp: byte_at_def split: if_splits)

lemma int_to_bytes_Some: "int_to_bytes i = Some b \<longleftrightarrow> 0 \<le> i \<and> b = be_bytes (nat i)"
  by (auto simp: int_to_bytes_def)

lemma int_to_bytes_length:
  assumes "int_to_bytes i = Some b" and "i < 256 ^ k"
  shows "length b \<le> k"
proof -
  from assms have "nat i < 256 ^ k" and "b = be_bytes (nat i)"
    by (auto simp: int_to_bytes_Some nat_less_iff)
  then show ?thesis by (simp add: be_bytes_length)
qed

lemma pad_left_bytes_Some:
  "pad_left_bytes bs n p = Some x \<longleftrightarrow> 0 \<le> n \<and> 0 \<le> p \<and> p < 256 \<and> x = pad_left (nat n) (word_of_int p) bs"
  by (auto simp: pad_left_bytes_def)

end
