(* ===== verification/Prover.thy ===== *)
theory Prover
  imports KavmProof KBytes
begin

text \<open>
  \<open>kavm/prover.py\<close>: pre- and postconditions of contract methods, written as PyTeal expressions,
  as K terms and as Python source, and the decorators that attach them to the methods of a
  router.
\<close>

section \<open>PyTeal expressions\<close>

text \<open>
  The classes of expressions the code tells apart: a symbolic integer with its name, a
  constant, a binary expression and an expression of any number of arguments, each with its
  operator. \<open>OtherOp\<close> and \<open>OtherExpr\<close> are the operators and classes it does not support.
\<close>

datatype pyteal_op = Op_eq | Op_neq | Op_ge | Op_gt | Op_le | Op_lt | Op_div | Op_mul | Op_add | Op_minus | OtherOp string

datatype pyteal_expr =
    SymbolicInt string
  | ConstInt int
  | BinaryExpr pyteal_op pyteal_expr pyteal_expr
  | NaryExpr pyteal_op "pyteal_expr list"
  | OtherExpr

fun pyteal_op_to_k_op :: "pyteal_op \<Rightarrow> string option" where
  "pyteal_op_to_k_op Op_eq = Some ''_==Int_''"
| "pyteal_op_to_k_op Op_neq = Some ''_=/=Int_''"
| "pyteal_op_to_k_op Op_ge = Some ''_>=Int_''"
| "pyteal_op_to_k_op Op_gt = Some ''_>Int_''"
| "pyteal_op_to_k_op Op_le = Some ''_<=Int_''"
| "pyteal_op_to_k_op Op_lt = Some ''_<Int_''"
| "pyteal_op_to_k_op Op_div = Some ''_/Int_''"
| "pyteal_op_to_k_op Op_mul = Some ''_*Int_''"
| "pyteal_op_to_k_op Op_add = Some ''_+Int_''"
| "pyteal_op_to_k_op Op_minus = Some ''_-Int_''"
| "pyteal_op_to_k_op (OtherOp s) = None"

fun pyteal_op_to_python_op :: "pyteal_op \<Rightarrow> string option" where
  "pyteal_op_to_python_op Op_eq = Some ''==''"
| "pyteal_op_to_python_op Op_neq = Some ''!=''"
| "pyteal_op_to_python_op Op_ge = Some ''>=''"
| "pyteal_op_to_python_op Op_gt = Some ''>''"
| "pyteal_op_to_python_op Op_le = Some ''<=''"
| "pyteal_op_to_python_op Op_lt = Some ''<''"
| "pyteal_op_to_python_op Op_div = Some ''/''"
| "pyteal_op_to_python_op Op_mul = Some ''*''"
| "pyteal_op_to_python_op Op_add = Some ''+''"
| "pyteal_op_to_python_op Op_minus = Some ''-''"
| "pyteal_op_to_python_op (OtherOp s) = None"

fun pyteal_expr_to_kast :: "pyk \<Rightarrow> pyteal_expr \<Rightarrow> kinner res" where
  "pyteal_expr_to_kast P (SymbolicInt name) = Inr (KVariable (upper name) None)"
| "pyteal_expr_to_kast P (ConstInt value) = Inr (intToken P value)"
| "pyteal_expr_to_kast P (BinaryExpr op l r) =
     (case pyteal_op_to_k_op op of
        None \<Rightarrow> Inl ValueError
      | Some k \<Rightarrow> bind_res (pyteal_expr_to_kast P l) (\<lambda>a. map_res (\<lambda>b. KApply k [a, b]) (pyteal_expr_to_kast P r)))"
| "pyteal_expr_to_kast P (NaryExpr op args) =
     (case (pyteal_op_to_k_op op, args) of
        (Some k, [l, r]) \<Rightarrow>
          bind_res (pyteal_expr_to_kast P l) (\<lambda>a. map_res (\<lambda>b. KApply k [a, b]) (pyteal_expr_to_kast P r))
      | _ \<Rightarrow> Inl ValueError)"
| "pyteal_expr_to_kast P OtherExpr = Inl ValueError"

text \<open>The text of an operation: the operands with the operator between them, and no parentheses.\<close>

definition python_operation :: "pyteal_op \<Rightarrow> string \<Rightarrow> string \<Rightarrow> string" where
  "python_operation op l r =
     l @ '' '' @ (case pyteal_op_to_python_op op of Some s \<Rightarrow> s | None \<Rightarrow> []) @ '' '' @ r"

fun pyteal_expr_to_python_src :: "pyteal_expr \<Rightarrow> string res" where
  "pyteal_expr_to_python_src (SymbolicInt name) = Inr (upper name)"
| "pyteal_expr_to_python_src (ConstInt value) = Inr (str_of_int value)"
| "pyteal_expr_to_python_src (BinaryExpr op l r) =
     (if pyteal_op_to_k_op op = None then Inl ValueError
      else bind_res (pyteal_expr_to_python_src l) (\<lambda>a. map_res (python_operation op a) (pyteal_expr_to_python_src r)))"
| "pyteal_expr_to_python_src (NaryExpr op args) =
     (case (pyteal_op_to_k_op op, args) of
        (Some k, [l, r]) \<Rightarrow>
          bind_res (pyteal_expr_to_python_src l) (\<lambda>a. map_res (python_operation op a) (pyteal_expr_to_python_src r))
      | _ \<Rightarrow> Inl ValueError)"
| "pyteal_expr_to_python_src OtherExpr = Inl ValueError"

text \<open>\<open>amount\<close> renames the symbolic integer of a transaction to that of its amount.\<close>

definition symbolic_amount :: "string \<Rightarrow> string" where
  "symbolic_amount name = name @ ''_amount''"

section \<open>Conditions\<close>

text \<open>
  The last log entry is the prefix of return values followed by the number in eight bytes.
  \<open>dq\<close> is \<open>dequote_str\<close> of pyk; the prefix is written with its escapes.
\<close>

definition return_prefix :: bytes where
  "return_prefix = [21, 31, 124, 117]"

definition last_log_item_eq :: "pyk \<Rightarrow> (string \<Rightarrow> string) \<Rightarrow> kinner \<Rightarrow> kinner res" where
  "last_log_item_eq P dq int_term = map_res (\<lambda>prefix.
     KApply ''_==K_'' [KVariable ''?FINAL_LOGDATA_CELL'' None,
       KApply ''_+Bytes_'' [prefix, KApply ''padLeftBytes''
         [int_2_bytes int_term, intToken P 8, intToken P 0]]])
     (bytesToken_str P (dq (slice_2_m1 (repr_bytes return_prefix))))"

definition in_bounds_uint64 :: "pyk \<Rightarrow> kinner \<Rightarrow> kinner" where
  "in_bounds_uint64 P t = KApply ''_andBool_''
     [KApply ''_>=Int_'' [t, intToken P 0], KApply ''_<=Int_'' [t, KToken ''MAX_UINT64'' ''Int'']]"

section \<open>Methods of a router\<close>

record hoare_method =
  m_preconditions :: "kinner list"
  m_python_src_preconditions :: "string list"
  m_postconditions :: "kinner list"
  m_python_src_postconditions :: "string list"

text \<open>A method by its name, marked with conditions or not.\<close>

datatype router_method = Method (m_name: string) (m_hoare: "hoare_method option")

definition no_conditions :: hoare_method where
  "no_conditions = \<lparr>m_preconditions = [], m_python_src_preconditions = [], m_postconditions = [],
     m_python_src_postconditions = []\<rparr>"

definition from_plain_method :: "router_method \<Rightarrow> router_method" where
  "from_plain_method m = Method (m_name m) (Some no_conditions)"

definition router_hoare_method :: "string \<Rightarrow> router_method list \<Rightarrow> router_method list" where
  "router_hoare_method func methods = map (\<lambda>m. if m_name m = func then from_plain_method m else m) methods"

text \<open>
  The decorators get the expression their text evaluates to. The precondition is attached to
  the marked methods of the name.
\<close>

definition router_precondition ::
    "pyk \<Rightarrow> string \<Rightarrow> pyteal_expr \<Rightarrow> router_method list \<Rightarrow> router_method list res" where
  "router_precondition P func spec methods = mapM_res (\<lambda>m. case m of Method name (Some h) \<Rightarrow>
       if name = func then
         bind_res (pyteal_expr_to_kast P spec) (\<lambda>t.
         map_res (\<lambda>src. Method name (Some (h\<lparr>m_preconditions := m_preconditions h @ [t],
             m_python_src_preconditions := m_python_src_preconditions h @ [src]\<rparr>)))
           (pyteal_expr_to_python_src spec))
       else Inr m
     | _ \<Rightarrow> Inr m) methods"

text \<open>
  The postcondition looks at the right operand of the expression only; methods that are not
  marked, and expressions without a right operand, are skipped by the handler of the
  \<open>AttributeError\<close>.
\<close>

fun arg_right :: "pyteal_expr \<Rightarrow> pyteal_expr res" where
  "arg_right (BinaryExpr op l r) = Inr r"
| "arg_right _ = Inl AttributeError"

definition add_postcondition ::
    "pyk \<Rightarrow> (string \<Rightarrow> string) \<Rightarrow> pyteal_expr \<Rightarrow> hoare_method \<Rightarrow> hoare_method res" where
  "add_postcondition P dq spec h =
     bind_res (arg_right spec) (\<lambda>r.
     bind_res (bind_res (pyteal_expr_to_kast P r) (last_log_item_eq P dq)) (\<lambda>t.
     map_res (\<lambda>src. h\<lparr>m_postconditions := m_postconditions h @ [t],
         m_python_src_postconditions := m_python_src_postconditions h @ [src]\<rparr>)
       (pyteal_expr_to_python_src r)))"

definition router_postcondition ::
    "pyk \<Rightarrow> (string \<Rightarrow> string) \<Rightarrow> string \<Rightarrow> pyteal_expr \<Rightarrow> router_method list \<Rightarrow> router_method list res" where
  "router_postcondition P dq func spec methods = mapM_res (\<lambda>m.
     if m_name m = func then
       catch_res (case m_hoare m of
           None \<Rightarrow> Inl AttributeError
         | Some h \<Rightarrow> map_res (\<lambda>h'. Method (m_name m) (Some h')) (add_postcondition P dq spec h))
         (\<lambda>e. e = AttributeError) (\<lambda>_. Inr m)
     else Inr m) methods"

section \<open>Programs and the automatic prover\<close>

text \<open>The set of the labels, in the order Python iterates over it.\<close>

definition remove_duplicates :: "proof_env \<Rightarrow> kinner list \<Rightarrow> kinner list" where
  "remove_duplicates E labels = set_order E labels"

text \<open>No labels are collected; hexadecimal tokens are unquoted with \<open>dequote_str\<close>.\<close>

definition preprocess_with_labels :: "pyk \<Rightarrow> (string \<Rightarrow> string) \<Rightarrow> kinner \<Rightarrow> (kinner list \<times> kinner) res" where
  "preprocess_with_labels P dq t = map_res (Pair []) (preprocess_teal_program (P\<lparr>dequote_string := dq\<rparr>) t)"

definition faucet_account :: "string \<times> string" where
  "faucet_account = (''cz+FBjUbtcM8bkMHCZfs/L9WnZVx7VSEa6KwRk9BQIQVVR6aLOAyPc66Z0b6PMC2TmX2ZEBlyNvG/XhtQmK04g=='',
     ''CVKR5GRM4AZD3TV2M5DPUPGAWZHGL5TEIBS4RW6G7V4G2QTCWTRIGNDVXQ'')"

text \<open>
  A directory is the argument or, if that is missing or empty, the environment's. With both
  directories the constructor calls \<open>KAVM\<close> with \<open>verification_definition_dir\<close>, a keyword its
  constructor does not have.
\<close>

definition given_or_env :: "string option \<Rightarrow> string option \<Rightarrow> string option" where
  "given_or_env given env = (case given of Some d \<Rightarrow> Some d | None \<Rightarrow>
     (case env of Some e \<Rightarrow> if e = [] then None else Some e | None \<Rightarrow> None))"

definition kavm_init_keywords :: "string list" where
  "kavm_init_keywords = [''definition_dir'', ''use_directory'', ''teal_parser'', ''scenario_parser'', ''main_file'',
     ''bug_report'']"

definition call_kavm :: "string list \<Rightarrow> unit res" where
  "call_kavm keywords = (if set keywords \<subseteq> set kavm_init_keywords then Inr () else Inl TypeError)"

definition auto_prover_init :: "string option \<Rightarrow> string option \<Rightarrow> (string \<Rightarrow> string option) \<Rightarrow> unit res" where
  "auto_prover_init definition_dir verification_definition_dir env =
     (if given_or_env definition_dir (env ''KAVM_DEFINITION_DIR'') = None then
        Inl (RuntimeError [''Cannot initialize AutoProver: neither definition_dir is provided nor KAVM_DEFINITION_DIR env variable is set''])
      else if given_or_env verification_definition_dir (env ''KAVM_VERIFICATION_DEFINITION_DIR'') = None then
        Inl (RuntimeError [''Cannot initialize AutoProver: neither verification_definition_dir is provided nor KAVM_VERIFICATION_DEFINITION_DIR env variable is set''])
      else call_kavm [''definition_dir'', ''use_directory'', ''verification_definition_dir''])"

section \<open>Expressions and K terms\<close>

fun supported :: "pyteal_expr \<Rightarrow> bool" where
  "supported (SymbolicInt name) = True"
| "supported (ConstInt value) = True"
| "supported (BinaryExpr op l r) = (pyteal_op_to_k_op op \<noteq> None \<and> supported l \<and> supported r)"
| "supported (NaryExpr op [l, r]) = (pyteal_op_to_k_op op \<noteq> None \<and> supported l \<and> supported r)"
| "supported _ = False"

text \<open>What is left of an expression in its K term: binary operations, and names in upper case.\<close>

fun canonical :: "pyteal_expr \<Rightarrow> pyteal_expr" where
  "canonical (SymbolicInt name) = SymbolicInt (upper name)"
| "canonical (BinaryExpr op l r) = BinaryExpr op (canonical l) (canonical r)"
| "canonical (NaryExpr op [l, r]) = BinaryExpr op (canonical l) (canonical r)"
| "canonical e = e"

text \<open>Reading an expression back from a term.\<close>

definition k_op_to_pyteal_op :: "string \<Rightarrow> pyteal_op option" where
  "k_op_to_pyteal_op k = map_of (map (\<lambda>op. (the (pyteal_op_to_k_op op), op))
     [Op_eq, Op_neq, Op_ge, Op_gt, Op_le, Op_lt, Op_div, Op_mul, Op_add, Op_minus]) k"

fun read_kast :: "kinner \<Rightarrow> pyteal_expr option" where
  "read_kast (KVariable n s) = (if s = None then Some (SymbolicInt n) else None)"
| "read_kast (KToken tok s) =
     (if s = ''Int'' then (case int_of_str tok of Inr i \<Rightarrow> Some (ConstInt i) | Inl e \<Rightarrow> None) else None)"
| "read_kast (KApply k [a, b]) =
     (case (k_op_to_pyteal_op k, read_kast a, read_kast b) of
        (Some op, Some l, Some r) \<Rightarrow> Some (BinaryExpr op l r)
      | _ \<Rightarrow> None)"
| "read_kast _ = None"

lemma k_op_inverse: "pyteal_op_to_k_op op = Some k \<Longrightarrow> k_op_to_pyteal_op k = Some op"
  by (cases op) (auto simp: k_op_to_pyteal_op_def)

text \<open>
  C33: the translation of conditions to K loses nothing but the case of names. It accepts exactly
  the expressions built from symbolic and constant integers with the ten operators and two
  operands each, from whose term the expression can be read back, grouping included; every
  other expression is a \<open>ValueError\<close>.
\<close>

theorem kast_round_trip:
  assumes "pyk_token_law P"
  shows "if supported e then \<exists>t. pyteal_expr_to_kast P e = Inr t \<and> read_kast t = Some (canonical e)
    else pyteal_expr_to_kast P e = Inl ValueError"
  using assms
proof (induction e rule: supported.induct)
  case (2 v)
  then show ?case by (simp add: pyk_token_law_def)
next
  case (3 op l r)
  then show ?case
    by (cases "pyteal_op_to_k_op op") (auto dest: k_op_inverse split: if_splits)
next
  case (4 op l r)
  then show ?case
    by (cases "pyteal_op_to_k_op op") (auto dest: k_op_inverse split: if_splits)
qed (auto split: option.splits)

theorem kast_round_trip_witness:
  "\<exists>t. pyteal_expr_to_kast ref_pyk (NaryExpr Op_add [SymbolicInt ''a'', ConstInt 5]) = Inr t \<and>
     read_kast t = Some (BinaryExpr Op_add (SymbolicInt ''A'') (ConstInt 5))"
proof -
  have "upper ''a'' = ''A''" by code_simp
  with kast_round_trip [OF ref_token_law, of "NaryExpr Op_add [SymbolicInt ''a'', ConstInt 5]"] show ?thesis by simp
qed

lemma kast_error: "pyteal_expr_to_kast P e = Inl x \<Longrightarrow> x = ValueError"
  by (induction e arbitrary: x rule: supported.induct) (auto simp: res_iff split: option.splits list.splits)

lemma python_src_error: "pyteal_expr_to_python_src e = Inl x \<Longrightarrow> x = ValueError"
  by (induction e arbitrary: x rule: supported.induct) (auto simp: res_iff split: option.splits list.splits if_splits)

lemma python_operation_assoc:
  "python_operation o1 a (python_operation o2 b c) = python_operation o2 (python_operation o1 a b) c"
  by (simp add: python_operation_def)

text \<open>
  The translation to Python source loses the grouping. Two expressions that group their
  operands differently have the same source (which Python reads by its own precedence), although
  their K terms differ whenever they have one.
\<close>

theorem python_src_ambiguous:
  "pyteal_expr_to_python_src (BinaryExpr o1 a (BinaryExpr o2 b c)) =
     pyteal_expr_to_python_src (BinaryExpr o2 (BinaryExpr o1 a b) c) \<and>
   (pyteal_expr_to_kast P (BinaryExpr o1 a (BinaryExpr o2 b c)) =
      pyteal_expr_to_kast P (BinaryExpr o2 (BinaryExpr o1 a b) c)) =
     isl (pyteal_expr_to_kast P (BinaryExpr o1 a (BinaryExpr o2 b c)))"
proof (rule conjI)
  show "pyteal_expr_to_python_src (BinaryExpr o1 a (BinaryExpr o2 b c)) =
     pyteal_expr_to_python_src (BinaryExpr o2 (BinaryExpr o1 a b) c)"
  proof (cases "pyteal_op_to_k_op o1 = None \<or> pyteal_op_to_k_op o2 = None")
    case True
    then show ?thesis
      by (cases "pyteal_expr_to_python_src a"; cases "pyteal_expr_to_python_src b")
        (auto dest: python_src_error)
  next
    case False
    then show ?thesis
      by (cases "pyteal_expr_to_python_src a"; cases "pyteal_expr_to_python_src b"; cases "pyteal_expr_to_python_src c")
        (auto simp: python_operation_assoc)
  qed
  have neq: "a' \<noteq> KApply k [a', b']" for a' b' k
  proof
    assume "a' = KApply k [a', b']"
    then have "size a' = size (KApply k [a', b'])" by (rule arg_cong)
    then show False by simp
  qed
  let ?e = "pyteal_expr_to_kast P (BinaryExpr o1 a (BinaryExpr o2 b c))"
  show "(?e = pyteal_expr_to_kast P (BinaryExpr o2 (BinaryExpr o1 a b) c)) = isl ?e"
    by (cases "pyteal_op_to_k_op o1"; cases "pyteal_op_to_k_op o2"; cases "pyteal_expr_to_kast P a";
        cases "pyteal_expr_to_kast P b"; cases "pyteal_expr_to_kast P c") (auto dest: kast_error simp: neq)
qed

text \<open>
  A postcondition is the equation of the last log entry with the right operand of its
  expression, whatever the operator and the left operand: \<open>output.get() >= x\<close> is attached as
  \<open>output.get() == x\<close>. An expression of any other class is dropped without an error, and the
  methods keep their conditions.
\<close>

theorem postcondition_is_equation:
  "router_postcondition P dq func (BinaryExpr op l r) methods = router_postcondition P dq func (BinaryExpr Op_eq l' r) methods \<and>
   router_postcondition P dq func (NaryExpr op args) methods = Inr methods \<and>
   router_postcondition P dq func (SymbolicInt name) methods = Inr methods"
proof -
  have skip: "router_postcondition P dq func e methods = Inr methods" if "arg_right e = Inl AttributeError" for e
  proof -
    have "(if m_name m = func then catch_res (case m_hoare m of None \<Rightarrow> Inl AttributeError
        | Some h \<Rightarrow> map_res (\<lambda>h'. Method (m_name m) (Some h')) (add_postcondition P dq e h))
         (\<lambda>e. e = AttributeError) (\<lambda>_. Inr m) else Inr m) = Inr m" for m
      using that by (simp add: add_postcondition_def split: option.splits)
    then show ?thesis unfolding router_postcondition_def by simp
  qed
  have h: "add_postcondition P dq (BinaryExpr op l r) = add_postcondition P dq (BinaryExpr Op_eq l' r)"
    by (simp add: add_postcondition_def fun_eq_iff)
  have "router_postcondition P dq func (BinaryExpr op l r) methods = router_postcondition P dq func (BinaryExpr Op_eq l' r) methods"
    unfolding router_postcondition_def h by (rule refl)
  then show ?thesis using skip by simp
qed

section \<open>What a condition means\<close>

text \<open>
  The integer opcodes of the AVM on 64-bit words, from the rules of the K semantics
  (\<open>lib/include/kframework/avm/teal/teal-driver.md\<close>): an overflow, an underflow and a division
  by zero panic, here \<open>None\<close>; a comparison leaves 0 or 1.
\<close>

fun avm_arith :: "pyteal_op \<Rightarrow> 64 word \<Rightarrow> 64 word \<Rightarrow> 64 word option" where
  "avm_arith Op_add a b = (if uint a + uint b \<le> MAX_UINT64 then Some (a + b) else None)"
| "avm_arith Op_minus a b = (if uint b \<le> uint a then Some (a - b) else None)"
| "avm_arith Op_mul a b = (if uint a * uint b \<le> MAX_UINT64 then Some (a * b) else None)"
| "avm_arith Op_div a b = (if 0 < uint b then Some (a div b) else None)"
| "avm_arith op a b = None"

fun avm_compare :: "pyteal_op \<Rightarrow> 64 word \<Rightarrow> 64 word \<Rightarrow> bool option" where
  "avm_compare Op_lt a b = Some (uint a < uint b)"
| "avm_compare Op_gt a b = Some (uint a > uint b)"
| "avm_compare Op_le a b = Some (uint a \<le> uint b)"
| "avm_compare Op_ge a b = Some (uint a \<ge> uint b)"
| "avm_compare Op_eq a b = Some (a = b)"
| "avm_compare Op_neq a b = Some (a \<noteq> b)"
| "avm_compare op a b = None"

text \<open>An expression without comparisons, evaluated on the values of the symbolic integers.\<close>

fun avm_eval :: "(string \<Rightarrow> 64 word) \<Rightarrow> pyteal_expr \<Rightarrow> 64 word option" where
  "avm_eval \<rho> (SymbolicInt name) = Some (\<rho> name)"
| "avm_eval \<rho> (ConstInt v) = (if 0 \<le> v \<and> v \<le> MAX_UINT64 then Some (word_of_int v) else None)"
| "avm_eval \<rho> (BinaryExpr op l r) =
     (case (avm_eval \<rho> l, avm_eval \<rho> r) of (Some a, Some b) \<Rightarrow> avm_arith op a b | _ \<Rightarrow> None)"
| "avm_eval \<rho> (NaryExpr op [l, r]) =
     (case (avm_eval \<rho> l, avm_eval \<rho> r) of (Some a, Some b) \<Rightarrow> avm_arith op a b | _ \<Rightarrow> None)"
| "avm_eval \<rho> _ = None"

text \<open>
  The functions of K's module \<open>INT\<close> on unbounded integers (\<open>_/Int_\<close> rounds to zero), and the
  value of a term of sort \<open>Int\<close> under values of its variables.
\<close>

definition k_arith :: "string \<Rightarrow> int \<Rightarrow> int \<Rightarrow> int option" where
  "k_arith f a b =
     (if f = ''_+Int_'' then Some (a + b)
      else if f = ''_-Int_'' then Some (a - b)
      else if f = ''_*Int_'' then Some (a * b)
      else if f = ''_/Int_'' \<and> b \<noteq> 0 then Some (sgn a * sgn b * (\<bar>a\<bar> div \<bar>b\<bar>))
      else None)"

definition k_compare :: "string \<Rightarrow> int \<Rightarrow> int \<Rightarrow> bool option" where
  "k_compare f a b =
     (if f = ''_<Int_'' then Some (a < b) else if f = ''_>Int_'' then Some (a > b)
      else if f = ''_<=Int_'' then Some (a \<le> b) else if f = ''_>=Int_'' then Some (a \<ge> b)
      else if f = ''_==Int_'' then Some (a = b) else if f = ''_=/=Int_'' then Some (a \<noteq> b) else None)"

fun k_int :: "(string \<Rightarrow> int) \<Rightarrow> kinner \<Rightarrow> int option" where
  "k_int \<kappa> (KVariable n s) = Some (\<kappa> n)"
| "k_int \<kappa> (KToken tok s) = (if s = ''Int'' then (case int_of_str tok of Inr i \<Rightarrow> Some i | Inl e \<Rightarrow> None) else None)"
| "k_int \<kappa> (KApply f [a, b]) =
     (case (k_int \<kappa> a, k_int \<kappa> b) of (Some x, Some y) \<Rightarrow> k_arith f x y | _ \<Rightarrow> None)"
| "k_int \<kappa> _ = None"

definition k_bool :: "(string \<Rightarrow> int) \<Rightarrow> kinner \<Rightarrow> bool option" where
  "k_bool \<kappa> t = (case t of KApply f [a, b] \<Rightarrow>
       (case (k_int \<kappa> a, k_int \<kappa> b) of (Some x, Some y) \<Rightarrow> k_compare f x y | _ \<Rightarrow> None)
     | _ \<Rightarrow> None)"

fun symbols :: "pyteal_expr \<Rightarrow> string set" where
  "symbols (SymbolicInt name) = {name}"
| "symbols (BinaryExpr op l r) = symbols l \<union> symbols r"
| "symbols (NaryExpr op [l, r]) = symbols l \<union> symbols r"
| "symbols _ = {}"

lemma uint_max: "uint (a :: 64 word) \<le> MAX_UINT64"
  using uint_lt2p [of a] by (simp add: MAX_UINT64_def)

lemma uint_of_bounded: "0 \<le> i \<Longrightarrow> i \<le> MAX_UINT64 \<Longrightarrow> uint (word_of_int i :: 64 word) = i"
  by (simp add: MAX_UINT64_def uint_word_of_int)

text \<open>Where an opcode does not panic, K's function has the same value.\<close>

lemma arith_agrees:
  assumes "avm_arith op a b = Some w"
  shows "\<exists>f. pyteal_op_to_k_op op = Some f \<and> k_arith f (uint a) (uint b) = Some (uint w)"
proof (cases op)
  case Op_add
  then show ?thesis using assms uint_of_bounded [of "uint a + uint b"] by (auto simp: k_arith_def split: if_splits)
next
  case Op_minus
  then have "uint b \<le> uint a" "w = a - b" using assms by (auto split: if_splits)
  then show ?thesis using Op_minus uint_of_bounded [of "uint a - uint b"] uint_max [of a] uint_ge_0 [of b]
    by (auto simp: k_arith_def)
next
  case Op_mul
  then show ?thesis using assms uint_of_bounded [of "uint a * uint b"] by (auto simp: k_arith_def split: if_splits)
next
  case Op_div
  then have "0 < uint b" "w = a div b" using assms by (auto split: if_splits)
  moreover have "sgn (uint a) * sgn (uint b) * (\<bar>uint a\<bar> div \<bar>uint b\<bar>) = uint a div uint b"
    using uint_ge_0 [of a] \<open>0 < uint b\<close> by (cases "uint a = 0") (simp_all add: sgn_if)
  ultimately show ?thesis using Op_div by (simp add: k_arith_def uint_div)
qed (use assms in auto)

lemma compare_agrees:
  "avm_compare op a b = Some x \<Longrightarrow> \<exists>f. pyteal_op_to_k_op op = Some f \<and> k_compare f (uint a) (uint b) = Some x"
  by (cases op) (auto simp: k_compare_def word_uint_eq_iff)

lemma value_agrees:
  assumes "pyk_token_law P"
  shows "avm_eval \<rho> e = Some w \<Longrightarrow> \<forall>n \<in> symbols e. \<kappa> (upper n) = uint (\<rho> n) \<Longrightarrow>
    \<exists>t. pyteal_expr_to_kast P e = Inr t \<and> k_int \<kappa> t = Some (uint w)"
proof (induction e arbitrary: w rule: avm_eval.induct)
  case (2 \<rho> v)
  then show ?case using assms by (auto simp: pyk_token_law_def uint_of_bounded split: if_splits)
next
  case (3 \<rho> op l r)
  then obtain a b where ab: "avm_eval \<rho> l = Some a" "avm_eval \<rho> r = Some b" "avm_arith op a b = Some w"
    by (auto split: option.splits)
  with 3 obtain t u where "pyteal_expr_to_kast P l = Inr t" "k_int \<kappa> t = Some (uint a)"
    "pyteal_expr_to_kast P r = Inr u" "k_int \<kappa> u = Some (uint b)" by fastforce
  with arith_agrees [OF ab(3)] show ?case by auto
next
  case (4 \<rho> op l r)
  then obtain a b where ab: "avm_eval \<rho> l = Some a" "avm_eval \<rho> r = Some b" "avm_arith op a b = Some w"
    by (auto split: option.splits)
  with 4 obtain t u where "pyteal_expr_to_kast P l = Inr t" "k_int \<kappa> t = Some (uint a)"
    "pyteal_expr_to_kast P r = Inr u" "k_int \<kappa> u = Some (uint b)" by fastforce
  with arith_agrees [OF ab(3)] show ?case by auto
qed auto

text \<open>The translation of a condition that evaluates.\<close>

lemma condition_translated:
  assumes "pyk_token_law P" and "avm_eval \<rho> l = Some a" and "avm_eval \<rho> r = Some b" and "avm_compare op a b = Some x"
    and "\<forall>n \<in> symbols (BinaryExpr op l r). \<kappa> (upper n) = uint (\<rho> n)"
  shows "\<exists>t. pyteal_expr_to_kast P (BinaryExpr op l r) = Inr t \<and> k_bool \<kappa> t = Some x"
proof -
  from value_agrees [OF assms(1,2), of \<kappa>] assms(5) obtain t where t: "pyteal_expr_to_kast P l = Inr t" "k_int \<kappa> t = Some (uint a)"
    by auto
  from value_agrees [OF assms(1,3), of \<kappa>] assms(5) obtain u where u: "pyteal_expr_to_kast P r = Inr u" "k_int \<kappa> u = Some (uint b)"
    by auto
  from compare_agrees [OF assms(4)] t u show ?thesis by (auto simp: k_bool_def)
qed

text \<open>
  C26: a condition means in K what it means to the AVM, as long as the AVM can evaluate it. When
  the comparison of two expressions evaluates on 64-bit words without overflow, underflow or
  division by zero, its translation exists and K's unbounded integers give it the same truth
  value, if K's variables have the values of the arguments they are named after (in upper case,
  so arguments whose names differ only in case must have the same value).
\<close>

theorem condition_agrees_with_avm:
  assumes "pyk_token_law P" and "avm_eval \<rho> l = Some a" and "avm_eval \<rho> r = Some b" and "avm_compare op a b = Some x"
    and "\<forall>n \<in> symbols (BinaryExpr op l r). \<kappa> (upper n) = uint (\<rho> n)"
  shows "\<exists>t. pyteal_expr_to_kast P (BinaryExpr op l r) = Inr t \<and> k_bool \<kappa> t = Some x"
  by (rule condition_translated [OF assms])

theorem condition_agrees_with_avm_witness:
  "\<exists>t. pyteal_expr_to_kast ref_pyk (BinaryExpr Op_le (NaryExpr Op_add [SymbolicInt ''a'', SymbolicInt ''b'']) (ConstInt 100)) = Inr t \<and>
     k_bool (\<lambda>n. 40) t = Some True"
proof -
  have "avm_eval (\<lambda>n. 40) (NaryExpr Op_add [SymbolicInt ''a'', SymbolicInt ''b'']) = Some 80"
    "avm_eval (\<lambda>n. 40) (ConstInt 100) = Some 100"
    by (simp_all add: MAX_UINT64_def)
  moreover have "avm_compare Op_le 80 100 = Some True" by simp
  ultimately show ?thesis
    by (rule condition_agrees_with_avm [OF ref_token_law]) simp
qed

end
