(* ===== verification/Kompile.thy ===== *)
theory Kompile
  imports KavmRunner
begin

text \<open>
  \<open>kavm/kompile.py\<close>: the command lines that compile the K definition. Running a process and
  opening the compiled definition are the arguments \<open>run\<close> and \<open>open_kavm\<close>.
\<close>

section \<open>Arguments\<close>

text \<open>A list that is missing is an empty one: the code treats both alike.\<close>

record kompile_args =
  k_definition_dir :: string
  k_main_file :: string
  k_includes :: "string list"
  k_main_module :: "string option"
  k_syntax_module :: "string option"
  k_backend :: "string option"
  k_md_selector :: "string option"
  k_verbose :: bool
  k_hook_namespaces :: "string list"
  k_hook_cpp_files :: "string list"
  k_hook_clang_flags :: "string list"
  k_coverage :: bool
  k_gen_bison_parser :: bool
  k_emit_json :: bool

text \<open>\<open>[flag] if b else []\<close>, and \<open>[flag, value] if value else []\<close> for a text that may be missing.\<close>

definition flag :: "string \<Rightarrow> bool \<Rightarrow> string list" where
  "flag f b = (if b then [f] else [])"

definition valued :: "string \<Rightarrow> string option \<Rightarrow> string list" where
  "valued f v = (case v of Some s \<Rightarrow> if s \<noteq> [] then [f, s] else [] | None \<Rightarrow> [])"

definition namespaces_option :: "string list \<Rightarrow> string list" where
  "namespaces_option xs = (if xs \<noteq> [] then [''--hook-namespaces'', join_with '' '' xs] else [])"

definition include_options :: "string list \<Rightarrow> string list" where
  "include_options dirs = concat (map (\<lambda>d. [''-I'', d]) dirs)"

text \<open>\<open>dir / name\<close> for a directory and a plain name.\<close>

definition path_join :: "string \<Rightarrow> string \<Rightarrow> string" where
  "path_join dir name = (if dir = ''.'' then name else dir @ ''/'' @ name)"

section \<open>Commands\<close>

definition concrete_rules :: "string list" where
  "concrete_rules = []"

definition kompile_haskell_command :: "kompile_args \<Rightarrow> string list" where
  "kompile_haskell_command a =
     [''kompile'', ''--output-definition'', k_definition_dir a, k_main_file a] @
     flag ''--verbose'' (k_verbose a) @
     flag ''--emit-json'' (k_emit_json a) @
     valued ''--backend'' (k_backend a) @
     valued ''--main-module'' (k_main_module a) @
     valued ''--syntax-module'' (k_syntax_module a) @
     valued ''--md-selector'' (k_md_selector a) @
     namespaces_option (k_hook_namespaces a) @
     (if concrete_rules \<noteq> [] then [''--concrete-rules'', join_with '','' concrete_rules] else []) @
     include_options (k_includes a)"

definition clang_flags :: "kompile_args \<Rightarrow> string list" where
  "clang_flags a = concat (map (\<lambda>f. [''-ccopt'', f])
     (k_hook_cpp_files a @ [''-o'', path_join (k_definition_dir a) ''interpreter''] @
      map strip_space (k_hook_clang_flags a)))"

definition interpreter_command :: "kompile_args \<Rightarrow> string list" where
  "interpreter_command a =
     [''kompile'', ''--output-definition'', k_definition_dir a, k_main_file a] @
     [''--verbose''] @ [''--emit-json''] @
     flag ''--gen-glr-bison-parser'' (k_gen_bison_parser a) @
     valued ''--main-module'' (k_main_module a) @
     valued ''--syntax-module'' (k_syntax_module a) @
     include_options (k_includes a) @
     valued ''--md-selector'' (k_md_selector a) @
     namespaces_option (k_hook_namespaces a) @
     flag ''--coverage'' (k_coverage a) @
     clang_flags a"

text \<open>A backend that is neither of the two starts no process; the definition is opened all the same.\<close>

definition kompile :: "(string list \<Rightarrow> unit res) \<Rightarrow> (string \<Rightarrow> 'k res) \<Rightarrow> kompile_args \<Rightarrow> 'k res" where
  "kompile run open_kavm a =
     bind_res
       (if k_backend a = Some ''llvm'' then run (interpreter_command a)
        else if k_backend a = Some ''haskell'' then run (kompile_haskell_command a)
        else Inr ())
       (\<lambda>_. open_kavm (k_definition_dir a))"

text \<open>
  The command \<open>kavm kompile\<close>: the selector and the JSON flag of the command line are not passed
  on, and it is always verbose.
\<close>

definition exec_kompile :: "(string list \<Rightarrow> unit res) \<Rightarrow> (string \<Rightarrow> 'k res) \<Rightarrow> kompile_args \<Rightarrow> unit res" where
  "exec_kompile run open_kavm a = map_res (\<lambda>_. ())
     (kompile run open_kavm (a\<lparr>k_md_selector := None, k_verbose := True, k_emit_json := True\<rparr>))"

section \<open>Reading a command back\<close>

text \<open>The options of \<open>kompile\<close> that take a value, and a command read as options with their values.\<close>

definition takes_value :: "string set" where
  "takes_value = {''--output-definition'', ''--backend'', ''--main-module'', ''--syntax-module'', ''--md-selector'',
     ''--hook-namespaces'', ''--concrete-rules'', ''-I'', ''-ccopt''}"

fun read_options :: "string list \<Rightarrow> (string \<times> string) list" where
  "read_options (f # v # rest) = (if f \<in> takes_value then (f, v) # read_options rest else (f, []) # read_options (v # rest))"
| "read_options [f] = [(f, [])]"
| "read_options [] = []"

definition values_of :: "string \<Rightarrow> string list \<Rightarrow> string list" where
  "values_of f command = map snd (filter (\<lambda>p. fst p = f) (read_options (tl command)))"

definition has_flag :: "string \<Rightarrow> string list \<Rightarrow> bool" where
  "has_flag f command \<longleftrightarrow> values_of f command \<noteq> []"

definition given :: "string option \<Rightarrow> string list" where
  "given x = (case x of Some v \<Rightarrow> if v = [] then [] else [v] | None \<Rightarrow> [])"


lemma read_plain: "f \<notin> takes_value \<Longrightarrow> read_options (f # rest) = (f, []) # read_options rest"
  by (cases rest) simp_all

lemma read_flag: "f \<notin> takes_value \<Longrightarrow> read_options (flag f b @ rest) = (if b then [(f, [])] else []) @ read_options rest"
  by (simp add: flag_def read_plain)

lemma read_valued: "f \<in> takes_value \<Longrightarrow> read_options (valued f v @ rest) = map (Pair f) (given v) @ read_options rest"
  by (simp add: valued_def given_def split: option.splits)

lemma read_repeated:
  "f \<in> takes_value \<Longrightarrow> read_options (concat (map (\<lambda>d. [f, d]) ds) @ rest) = map (Pair f) ds @ read_options rest"
  by (induction ds) simp_all

lemma read_repeated_end:
  "f \<in> takes_value \<Longrightarrow> read_options (concat (map (\<lambda>d. [f, d]) ds)) = map (Pair f) ds"
  using read_repeated [of f ds "[]"] by simp

lemma read_namespaces:
  "read_options (namespaces_option xs @ rest) =
     (if xs = [] then [] else [(''--hook-namespaces'', join_with '' '' xs)]) @ read_options rest"
  by (simp add: namespaces_option_def takes_value_def)

text \<open>The commands as options.\<close>

lemma read_interpreter_command:
  assumes "k_main_file a \<notin> takes_value"
  shows "read_options (tl (interpreter_command a)) =
    [(''--output-definition'', k_definition_dir a), (k_main_file a, []), (''--verbose'', []), (''--emit-json'', [])] @
    (if k_gen_bison_parser a then [(''--gen-glr-bison-parser'', [])] else []) @
    map (Pair ''--main-module'') (given (k_main_module a)) @ map (Pair ''--syntax-module'') (given (k_syntax_module a)) @
    map (Pair ''-I'') (k_includes a) @ map (Pair ''--md-selector'') (given (k_md_selector a)) @
    (if k_hook_namespaces a = [] then [] else [(''--hook-namespaces'', join_with '' '' (k_hook_namespaces a))]) @
    (if k_coverage a then [(''--coverage'', [])] else []) @
    map (Pair ''-ccopt'') (k_hook_cpp_files a @ [''-o'', path_join (k_definition_dir a) ''interpreter''] @
      map strip_space (k_hook_clang_flags a))"
proof -
  have v: "''--main-module'' \<in> takes_value" "''--syntax-module'' \<in> takes_value" "''--md-selector'' \<in> takes_value"
    "''-I'' \<in> takes_value" "''-ccopt'' \<in> takes_value" "''--output-definition'' \<in> takes_value"
    by (simp_all add: takes_value_def)
  have p: "''--verbose'' \<notin> takes_value" "''--emit-json'' \<notin> takes_value" "''--gen-glr-bison-parser'' \<notin> takes_value"
    "''--coverage'' \<notin> takes_value" by (simp_all add: takes_value_def)
  have c: "read_options (clang_flags a) = map (Pair ''-ccopt'') (k_hook_cpp_files a @
      [''-o'', path_join (k_definition_dir a) ''interpreter''] @ map strip_space (k_hook_clang_flags a))"
    unfolding clang_flags_def by (rule read_repeated_end [OF v(5)])
  show ?thesis
    unfolding interpreter_command_def append_Cons append_Nil list.sel include_options_def
    by (simp only: read_options.simps(1) if_True if_False v p read_plain assms read_flag read_valued read_repeated read_namespaces
        c not_False_eq_True append_Cons append_Nil)
qed


lemma read_haskell_command:
  assumes "k_main_file a \<notin> takes_value"
  shows "read_options (tl (kompile_haskell_command a)) =
    [(''--output-definition'', k_definition_dir a), (k_main_file a, [])] @
    (if k_verbose a then [(''--verbose'', [])] else []) @ (if k_emit_json a then [(''--emit-json'', [])] else []) @
    map (Pair ''--backend'') (given (k_backend a)) @
    map (Pair ''--main-module'') (given (k_main_module a)) @ map (Pair ''--syntax-module'') (given (k_syntax_module a)) @
    map (Pair ''--md-selector'') (given (k_md_selector a)) @
    (if k_hook_namespaces a = [] then [] else [(''--hook-namespaces'', join_with '' '' (k_hook_namespaces a))]) @
    map (Pair ''-I'') (k_includes a)"
proof -
  have v: "''--main-module'' \<in> takes_value" "''--syntax-module'' \<in> takes_value" "''--md-selector'' \<in> takes_value"
    "''-I'' \<in> takes_value" "''--backend'' \<in> takes_value" "''--output-definition'' \<in> takes_value"
    by (simp_all add: takes_value_def)
  have p: "''--verbose'' \<notin> takes_value" "''--emit-json'' \<notin> takes_value" by (simp_all add: takes_value_def)
  have i: "read_options (include_options (k_includes a)) = map (Pair ''-I'') (k_includes a)"
    unfolding include_options_def by (rule read_repeated_end [OF v(4)])
  have n: "concrete_rules \<noteq> [] \<longleftrightarrow> False" by (simp add: concrete_rules_def)
  show ?thesis
    unfolding kompile_haskell_command_def append_Cons append_Nil list.sel n
    by (simp only: read_options.simps(1) if_True if_False v p read_plain assms read_flag read_valued read_namespaces
        i not_False_eq_True append_Cons append_Nil)
qed

text \<open>
  Every choice reaches the compiler. Read as options, the command of the backend \<open>llvm\<close> holds
  the output directory, the modules, the include directories in order, and for the C compiler
  every C++ file, the interpreter as output file and the trimmed flags in this order, each once;
  the command of the backend \<open>haskell\<close> holds its own backend, the modules and the directories,
  and nothing for the C compiler. Neither has a selector, as \<open>kavm kompile\<close> passes none on. With
  any other backend, also when the option is left out, no command is run.
\<close>

theorem kompile_options:
  assumes "k_main_file a \<notin> takes_value"
    and "a' = a\<lparr>k_md_selector := None, k_verbose := True, k_emit_json := True\<rparr>"
  shows "(k_backend a = Some ''llvm'' \<longrightarrow>
      exec_kompile run open_kavm a = bind_res (run (interpreter_command a')) (\<lambda>_. map_res (\<lambda>_. ()) (open_kavm (k_definition_dir a))) \<and>
      values_of ''--output-definition'' (interpreter_command a') = [k_definition_dir a] \<and>
      values_of ''--main-module'' (interpreter_command a') = given (k_main_module a) \<and>
      values_of ''-I'' (interpreter_command a') = k_includes a \<and>
      values_of ''-ccopt'' (interpreter_command a') = k_hook_cpp_files a @
        [''-o'', path_join (k_definition_dir a) ''interpreter''] @ map strip_space (k_hook_clang_flags a) \<and>
      values_of ''--md-selector'' (interpreter_command a') = []) \<and>
    (k_backend a = Some ''haskell'' \<longrightarrow>
      exec_kompile run open_kavm a = bind_res (run (kompile_haskell_command a')) (\<lambda>_. map_res (\<lambda>_. ()) (open_kavm (k_definition_dir a))) \<and>
      values_of ''--output-definition'' (kompile_haskell_command a') = [k_definition_dir a] \<and>
      values_of ''--main-module'' (kompile_haskell_command a') = given (k_main_module a) \<and>
      values_of ''-I'' (kompile_haskell_command a') = k_includes a \<and>
      values_of ''--backend'' (kompile_haskell_command a') = [''haskell''] \<and>
      values_of ''-ccopt'' (kompile_haskell_command a') = [] \<and>
      values_of ''--md-selector'' (kompile_haskell_command a') = []) \<and>
    (k_backend a \<notin> {Some ''llvm'', Some ''haskell''} \<longrightarrow>
      exec_kompile run open_kavm a = map_res (\<lambda>_. ()) (open_kavm (k_definition_dir a)))"
proof -
  have m: "k_main_file a' \<notin> takes_value" using assms by simp
  have f: "filter (\<lambda>p. fst p = g) (map (Pair h) xs) = (if g = h then map (Pair h) xs else [])" for g h :: string and xs :: "string list"
    by (auto simp: filter_map comp_def)
  have none: "given None = []" "given (Some ''haskell'') = [''haskell'']" by (simp_all add: given_def)
  have out: "map_res g (bind_res m h) = bind_res m (\<lambda>x. map_res g (h x))" for g m and h :: "unit \<Rightarrow> 'b res"
    by (cases m) simp_all
  have "k_main_file a \<noteq> f" if "f \<in> takes_value" for f using assms(1) that by blast
  then have n: "k_main_file a \<noteq> ''--output-definition''" "k_main_file a \<noteq> ''--main-module''" "k_main_file a \<noteq> ''-I''"
    "k_main_file a \<noteq> ''-ccopt''" "k_main_file a \<noteq> ''--backend''" "k_main_file a \<noteq> ''--md-selector''"
    by (simp_all add: takes_value_def)
  show ?thesis
    unfolding values_of_def read_interpreter_command [OF m] read_haskell_command [OF m]
    by (auto simp: assms(2) f none n exec_kompile_def kompile_def Let_def out comp_def)
qed

definition sample_kompile :: kompile_args where
  "sample_kompile = \<lparr>k_definition_dir = ''d'', k_main_file = ''avm.md'', k_includes = [''lib''], k_main_module = Some ''AVM'',
     k_syntax_module = None, k_backend = Some ''llvm'', k_md_selector = Some ''k'', k_verbose = False, k_hook_namespaces = [],
     k_hook_cpp_files = [''hooks.cpp''], k_hook_clang_flags = ['' -lcrypto''], k_coverage = False, k_gen_bison_parser = True,
     k_emit_json = False\<rparr>"

theorem kompile_options_witness:
  "\<exists>command. exec_kompile (\<lambda>c. Inr ()) Inr sample_kompile = bind_res (Inr ()) (\<lambda>_. map_res (\<lambda>_. ()) (Inr ''d'')) \<and>
     values_of ''-ccopt'' command = [''hooks.cpp'', ''-o'', ''d/interpreter'', ''-lcrypto''] \<and>
     values_of ''--md-selector'' command = []"
proof -
  have "k_main_file sample_kompile \<notin> takes_value" by (simp add: sample_kompile_def takes_value_def)
  from kompile_options [OF this refl, of "\<lambda>c. Inr ()" Inr] have
    "exec_kompile (\<lambda>c. Inr ()) Inr sample_kompile = bind_res (Inr ()) (\<lambda>_. map_res (\<lambda>_. ()) (Inr (k_definition_dir sample_kompile)))"
    "\<exists>command. values_of ''-ccopt'' command = k_hook_cpp_files sample_kompile @
      [''-o'', path_join (k_definition_dir sample_kompile) ''interpreter''] @ map strip_space (k_hook_clang_flags sample_kompile) \<and>
      values_of ''--md-selector'' command = []"
    by (auto simp: sample_kompile_def)
  moreover have "strip_space '' -lcrypto'' = ''-lcrypto''" by code_simp
  ultimately show ?thesis by (simp add: sample_kompile_def path_join_def)
qed

end
