(* ===== verification/Cli.thy ===== *)
theory Cli
  imports Kompile
begin

text \<open>
  \<open>kavm/__main__.py\<close>: the commands of the program. The table of arguments is data, a parsed
  command line (argparse's namespace) is a dictionary that fits it, and the executors work on
  the tools of \<open>KavmRunner\<close>; what is printed is a list of texts.
\<close>

section \<open>The command line\<close>

text \<open>One argument: the name its value gets, whether it must be given, and its value when it is not.\<close>

datatype argument = Arg (arg_dest: string) (arg_required: bool) (arg_default: pyval)

abbreviation needed :: "string \<Rightarrow> argument" where
  "needed d \<equiv> Arg d True PNone"

abbreviation optional :: "string \<Rightarrow> argument" where
  "optional d \<equiv> Arg d False PNone"

abbreviation switch :: "string \<Rightarrow> argument" where
  "switch d \<equiv> Arg d False (PBool False)"

definition shared_args :: "argument list" where
  "shared_args = [switch ''verbose'', switch ''debug'']"

definition kompile_arguments :: "argument list" where
  "kompile_arguments =
     [optional ''definition_dir'', needed ''main_file'', optional ''main_module'', optional ''syntax_module'',
      optional ''backend'', switch ''coverage'', switch ''gen_bison_parser'', switch ''emit_json'',
      Arg ''includes'' False (PList []), Arg ''hook_namespaces'' False (PList []),
      Arg ''hook_cpp_files'' False (PList []), Arg ''hook_clang_flags'' False (PList [])]"

definition prove_arguments :: "argument list" where
  "prove_arguments =
     [needed ''spec_file'', optional ''definition_dir'', switch ''debugger'', optional ''debug_script'',
      optional ''smt_timeout'', Arg ''haskell_log_format'' False (PStr ''oneline''),
      Arg ''debug_equations'' False (PList []), Arg ''haskell_log_entries'' False (PList [])]"

definition kore_repl_arguments :: "argument list" where
  "kore_repl_arguments = [needed ''spec_file'', optional ''definition'', switch ''debugger'', optional ''debug_script'']"

definition kast_arguments :: "argument list" where
  "kast_arguments = [optional ''definition_dir'', needed ''input_file'', needed ''output'']"

definition run_arguments :: "argument list" where
  "run_arguments =
     [optional ''definition_dir'', needed ''input_file'', needed ''teal_sources_dir'', optional ''teal_parser'',
      optional ''avm_simulation_parser'', optional ''avm_json_parser'', needed ''output'', optional ''depth'']"

definition kcfg_view_arguments :: "argument list" where
  "kcfg_view_arguments = [optional ''definition_dir'', needed ''spec_file'', needed ''claim_id'']"

definition kcfg_show_arguments :: "argument list" where
  "kcfg_show_arguments =
     [optional ''definition_dir'', needed ''spec_file'', needed ''claim_id'', Arg ''nodes'' False (PList []),
      Arg ''minimize'' False (PBool True)]"

definition kcfg_prove_arguments :: "argument list" where
  "kcfg_prove_arguments =
     [optional ''definition_dir'', switch ''bug_report'', needed ''spec_file'', needed ''claim_id'', needed ''kore_rpc_port'']"

definition commands :: "(string, argument list) dict" where
  "commands =
     [(''env'', []), (''kompile'', kompile_arguments), (''prove'', prove_arguments),
      (''kore-repl'', kore_repl_arguments), (''kast'', kast_arguments), (''run'', run_arguments),
      (''kcfg-view'', kcfg_view_arguments), (''kcfg-show'', kcfg_show_arguments), (''kcfg-prove'', kcfg_prove_arguments)]"

text \<open>
  What argparse returns for a command: the command and every destination of its arguments, with
  a value if it is required.
\<close>

definition namespace_of :: "string \<Rightarrow> pydict \<Rightarrow> bool" where
  "namespace_of command ns \<longleftrightarrow> (case dict_get commands command of
       None \<Rightarrow> False
     | Some args \<Rightarrow>
         dict_get ns ''command'' = Some (PStr command) \<and>
         set (dict_keys ns) = {''command''} \<union> arg_dest ` set (shared_args @ args) \<and>
         (\<forall>a \<in> set (shared_args @ args). arg_required a \<longrightarrow> dict_get ns (arg_dest a) \<noteq> Some PNone))"

text \<open>\<open>list_of(str, delim)\<close>, the type of the arguments that are lists in one word.\<close>

definition list_of :: "char \<Rightarrow> string \<Rightarrow> string list" where
  "list_of delim s = split_on delim s"

definition loglevel :: "pydict \<Rightarrow> int res" where
  "loglevel args = bind_res (dict_lookup args ''debug'') (\<lambda>d.
     if py_true d then Inr 10
     else map_res (\<lambda>v. if py_true v then 20 else 30) (dict_lookup args ''verbose''))"

section \<open>Choosing the executor\<close>

text \<open>The executors and the parameters they have no default for; each also takes any others.\<close>

definition executors :: "(string, string list) dict" where
  "executors =
     [(''exec_kompile'', [''definition_dir'', ''main_file'', ''main_module'', ''syntax_module'', ''backend'', ''verbose'',
        ''includes'', ''hook_namespaces'', ''hook_cpp_files'', ''hook_clang_flags'', ''coverage'']),
      (''exec_prove'', [''definition_dir'', ''spec_file'']),
      (''exec_kore_repl'', [''definition'', ''spec_file'', ''debugger'', ''debug_script'']),
      (''exec_kast'', [''definition_dir'', ''input_file'', ''output'']),
      (''exec_run'', [''definition_dir'', ''input_file'', ''teal_sources_dir'', ''teal_parser'', ''avm_simulation_parser'',
        ''avm_json_parser'', ''output'', ''depth'']),
      (''exec_env'', []),
      (''exec_kcfg_view'', [''definition_dir'', ''spec_file'', ''claim_id'']),
      (''exec_kcfg_show'', [''definition_dir'', ''spec_file'', ''claim_id'']),
      (''exec_kcfg_prove'', [''definition_dir'', ''spec_file'', ''claim_id'', ''kore_rpc_port''])]"

definition lower_char :: "char \<Rightarrow> char" where
  "lower_char c = (if 65 \<le> code_point c \<and> code_point c \<le> 90 then char_of (code_point c + 32) else c)"

definition executor_name :: "string \<Rightarrow> string" where
  "executor_name command =
     ''exec_'' @ map (\<lambda>c. if c = CHR ''-'' then CHR ''_'' else c) (map lower_char command)"

definition with_definition_dir :: "string option \<Rightarrow> pydict \<Rightarrow> pydict res" where
  "with_definition_dir env args =
     (if (case dict_get args ''definition_dir'' of None \<Rightarrow> False | Some v \<Rightarrow> py_true v) then Inr args
      else case env of
          Some dir \<Rightarrow> if dir \<noteq> [] then Inr (dict_set args ''definition_dir'' (PStr dir))
            else Inl (RuntimeError [''Cannot find KAVM definition, plese specify either --definition-dir or KAVM_DEFINITION_DIR''])
        | None \<Rightarrow> Inl (RuntimeError [''Cannot find KAVM definition, plese specify either --definition-dir or KAVM_DEFINITION_DIR'']))"

text \<open>\<open>main\<close> up to the call: the executor and its keyword arguments. \<open>env\<close> is \<open>KAVM_DEFINITION_DIR\<close>.\<close>

definition main_dispatch :: "string option \<Rightarrow> pydict \<Rightarrow> (string \<times> pydict) res" where
  "main_dispatch env args =
     bind_res (loglevel args) (\<lambda>_.
     bind_res (with_definition_dir env args) (\<lambda>args'.
     bind_res (bind_res (dict_lookup args' ''command'') as_str) (\<lambda>command.
     case dict_get executors (executor_name command) of
       None \<Rightarrow> Inl AssertionError
     | Some parameters \<Rightarrow>
         if set parameters \<subseteq> set (dict_keys args') then Inr (executor_name command, args') else Inl TypeError)))"

section \<open>The final state of a run\<close>

text \<open>
  A visitor of a KORE pattern and then of its sub-patterns, from left to right; the visitor of
  \<open>get_state_dumps_kore\<close> keeps the last application of the symbol it meets.
\<close>

fun top_down_kore :: "('s \<Rightarrow> kore \<Rightarrow> 's) \<Rightarrow> kore \<Rightarrow> 's \<Rightarrow> 's" where
  "top_down_kore f (KoreApp s ps) st = fold (top_down_kore f) ps (f st (KoreApp s ps))"
| "top_down_kore f (KorePattern a ps) st = fold (top_down_kore f) ps (f st (KorePattern a ps))"

definition state_dumps_cell_symbol :: string where
  "state_dumps_cell_symbol = ''Lbl'' @ [CHR 0x27] @ ''-LT-'' @ [CHR 0x27] @ ''state-dumps'' @ [CHR 0x27] @ ''-GT-'' @ [CHR 0x27]"

fun is_state_dumps :: "kore \<Rightarrow> bool" where
  "is_state_dumps (KoreApp s ps) = (s = state_dumps_cell_symbol)"
| "is_state_dumps (KorePattern a ps) = False"

definition get_it :: "kore option \<Rightarrow> kore \<Rightarrow> kore option" where
  "get_it result p = (if is_state_dumps p then Some p else result)"

fun sub_patterns :: "kore \<Rightarrow> kore list" where
  "sub_patterns (KoreApp s ps) = ps"
| "sub_patterns (KorePattern a ps) = ps"

definition first_pattern :: "kore \<Rightarrow> kore res" where
  "first_pattern p = (case sub_patterns p of [] \<Rightarrow> Inl IndexError | q # _ \<Rightarrow> Inr q)"

fun app_of :: "kore \<Rightarrow> kore res" where
  "app_of (KorePattern (Some a) ps) = Inr a"
| "app_of _ = Inl AttributeError"

definition get_state_dumps_kore :: "kore \<Rightarrow> kore option res" where
  "get_state_dumps_kore input = (case top_down_kore get_it input None of
       None \<Rightarrow> Inr None
     | Some r \<Rightarrow> map_res Some (bind_res (bind_res (first_pattern r) app_of) (\<lambda>a.
         bind_res (first_pattern a) first_pattern)))"

section \<open>kavm run\<close>

text \<open>What a command prints, and how it ends.\<close>

type_synonym outcome = "string list \<times> unit res"

text \<open>\<open>Path.suffix\<close>: from the last dot of the last component, if it is neither its first nor its last character.\<close>

definition file_name :: "string \<Rightarrow> string" where
  "file_name p = last (split_on (CHR ''/'') p)"

definition path_suffix :: "string \<Rightarrow> string" where
  "path_suffix p = (let parts = split_on (CHR ''.'') (file_name p); ext = last parts in
     if 2 \<le> length parts \<and> join_with ''.'' (butlast parts) \<noteq> [] \<and> ext \<noteq> [] then CHR ''.'' # ext else [])"

text \<open>
  The world of \<open>exec_run\<close>: the SDK, the tools, the input file's text, the directory of TEAL
  sources, and the printers of the libraries. The two texts that \<open>.JSONs\<close> stands for are removed.
\<close>

record run_env =
  r_sdk :: sdk
  r_tools :: ktools
  r_input :: "string res"
  r_teal :: teal_env
  pretty_print :: "kinner \<Rightarrow> string"
  kore_repr :: "kore \<Rightarrow> string"
  drop_text :: "string \<Rightarrow> string \<Rightarrow> string"

definition print_json :: "string \<Rightarrow> string list res" where
  "print_json s = bind_res (json_loads s) (\<lambda>v.
     map_res (\<lambda>t. [t]) (json_dumps \<lparr>indent = Some 4, sort_keys = False\<rparr> v))"

definition final_kore :: "final_state \<Rightarrow> kore res" where
  "final_kore fp = (case fp of FinalKore p \<Rightarrow> Inr p | FinalText t \<Rightarrow> Inl AttributeError)"

definition final_state_json :: "run_env \<Rightarrow> kore \<Rightarrow> string list res" where
  "final_state_json E p =
     bind_res (get_state_dumps_kore p) (\<lambda>d. case d of
         None \<Rightarrow> Inl AssertionError
       | Some k \<Rightarrow> bind_res (kore_to_kast (r_tools E) k) (\<lambda>t.
           print_json (drop_text E ''.JSONs'' (drop_text E '', .JSONs'' (pretty_print E t)))))"

text \<open>The texts printed for the output mode; the modes the code does not mention print nothing.\<close>

definition run_output_texts :: "run_env \<Rightarrow> string \<Rightarrow> final_state \<Rightarrow> string \<Rightarrow> string list res" where
  "run_output_texts E out fp kavm_stderr =
     (if out = ''kore'' then map_res (\<lambda>p. [kore_repr E p]) (final_kore fp)
      else if out = ''pretty'' then
        map_res (\<lambda>t. [pretty_print E t]) (bind_res (final_kore fp) (kore_to_kast (r_tools E)))
      else if out = ''final-state-json'' then bind_res (final_kore fp) (final_state_json E)
      else if out = ''stderr-json'' then print_json kavm_stderr
      else Inr [])"

definition run_scenario_file :: "run_env \<Rightarrow> int option \<Rightarrow> (final_state \<times> string) res" where
  "run_scenario_file E depth =
     bind_res (r_input E) (\<lambda>text.
     bind_res (from_json (r_sdk E) (r_teal E) text) (\<lambda>sc.
     run_avm_json (r_tools E) [] sc depth False True ''kore''))"

text \<open>
  Both ends of the \<open>try\<close> leave the program by \<open>exit\<close>. Its handler unpacks three arguments of a
  \<open>RuntimeError\<close> and logs them; with any other number the unpacking is a \<open>ValueError\<close>.
\<close>

definition exec_run :: "run_env \<Rightarrow> string \<Rightarrow> string \<Rightarrow> int option \<Rightarrow> outcome" where
  "exec_run E input_file out depth =
     (let body = (if path_suffix input_file = ''.json'' then
            bind_res (run_scenario_file E depth) (\<lambda>(fp, err). run_output_texts E out fp err)
          else Inr [''Unrecognized input file extension: '' @ path_suffix input_file])
      in case body of
           Inr texts \<Rightarrow> (texts, Inl (SystemExit (if path_suffix input_file = ''.json'' then 0 else 1)))
         | Inl e \<Rightarrow> ([], if is_runtime_error e then (if length (exn_args e) = 3 then Inr () else Inl ValueError) else Inl e))"

section \<open>The other commands\<close>

text \<open>\<open>run\<close> gives a process's exit code and standard output, or the exception of a failed check.\<close>

definition exec_kast :: "(string list \<Rightarrow> (int \<times> string) res) \<Rightarrow> string \<Rightarrow> string \<Rightarrow> string \<Rightarrow> outcome" where
  "exec_kast run definition_dir input_file out =
     (let suffix = path_suffix input_file;
          start = (\<lambda>srt module. case run (kast definition_dir input_file ''program'' out module srt) of
              Inr (code, text) \<Rightarrow> (if out \<noteq> ''none'' then [text] else [], Inl (SystemExit code))
            | Inl (CalledProcessError code text) \<Rightarrow> ([text], Inl (SystemExit code))
            | Inl e \<Rightarrow> ([], Inl e))
      in if suffix = ''.avm-simulation'' then start ''AVMSimulation'' ''AVM-EXECUTION''
         else if suffix = ''.teal'' then start ''TealInputPgm'' ''TEAL-PARSER-SYNTAX''
         else if suffix = ''.teals'' then start ''TealPrograms'' ''TEAL-PARSER-SYNTAX''
         else ([], Inl (RuntimeError [''The input file '' @ input_file @ '' has an unrecognized extension''])))"

text \<open>Without \<open>--definition\<close> the text of \<open>None\<close> is passed; the process's output is not captured.\<close>

definition kore_repl_command :: "string option \<Rightarrow> string \<Rightarrow> bool \<Rightarrow> string option \<Rightarrow> string list" where
  "kore_repl_command def_dir spec_file debugger debug_script =
     [''kprove'', ''--definition'', case def_dir of Some d \<Rightarrow> d | None \<Rightarrow> ''None'', spec_file] @
     flag ''--debugger'' debugger @ valued ''--debug-script'' debug_script"

definition exec_kore_repl ::
    "(string list \<Rightarrow> unit res) \<Rightarrow> string option \<Rightarrow> string \<Rightarrow> bool \<Rightarrow> string option \<Rightarrow> outcome" where
  "exec_kore_repl run def_dir spec_file debugger debug_script =
     (case run (kore_repl_command def_dir spec_file debugger debug_script) of
        Inr u \<Rightarrow> ([''None''], Inr ())
      | Inl (CalledProcessError code text) \<Rightarrow> ([], Inl (RuntimeError
          [''Command kprove exited with code '' @ str_of_int code @ '' for: '' @ spec_file, ''None'', ''None'']))
      | Inl e \<Rightarrow> ([], Inl e))"

text \<open>The arguments of \<open>kprove\<close> and those of the Haskell backend.\<close>

record prove_options =
  o_spec_file :: string
  o_bug_report :: bool
  o_depth :: "int option"
  o_debug_equations :: "string list"
  o_claims :: "string list"
  o_exclude_claims :: "string list"
  o_minimize :: bool
  o_smt_timeout :: "int option"

definition without_suffix :: "string \<Rightarrow> string" where
  "without_suffix p = take (length p - length (path_suffix p)) p"

definition prove_args :: "prove_options \<Rightarrow> string list" where
  "prove_args a =
     (case o_depth a of Some n \<Rightarrow> [''--depth'', str_of_int n] | None \<Rightarrow> []) @
     (if o_claims a \<noteq> [] then [''--claims'', join_with '','' (o_claims a)] else []) @
     (if o_exclude_claims a \<noteq> [] then [''--exclude'', join_with '','' (o_exclude_claims a)] else [])"

definition haskell_args :: "prove_options \<Rightarrow> string list" where
  "haskell_args a =
     concat (map (\<lambda>de. [''--debug-equation'', de]) (o_debug_equations a)) @
     (case o_smt_timeout a of Some n \<Rightarrow> if n \<noteq> 0 then [''--smt-timeout'', str_of_int n] else [] | None \<Rightarrow> []) @
     (if o_bug_report a then [''--bug-report'', without_suffix (o_spec_file a)] else [])"

definition proof_failed :: "prove_options \<Rightarrow> string" where
  "proof_failed a = ''Proof failed! See log file: '' @ file_name (o_spec_file a) @ ''.debug-log''"

text \<open>\<open>kprove\<close> is the prover with the two argument lists, \<open>minimize\<close> and \<open>pretty\<close> are pyk's.\<close>

definition exec_prove ::
    "(string list \<Rightarrow> string list \<Rightarrow> kinner res) \<Rightarrow> (kinner \<Rightarrow> kinner) \<Rightarrow> (kinner \<Rightarrow> string) \<Rightarrow> prove_options \<Rightarrow> outcome" where
  "exec_prove kprove minimize pretty a =
     (case kprove (prove_args a) (haskell_args a) of
        Inr state \<Rightarrow>
          (let final = (if o_minimize a then minimize state else state) in
           ([pretty final @ [CHR 0x0A]],
            if (case final of KApply l as \<Rightarrow> l = ''#Top'' | _ \<Rightarrow> False) then Inr () else Inl (SystemExit 1)))
      | Inl e \<Rightarrow> ([], Inl (if is_runtime_error e then RuntimeError [proof_failed a] else e)))"

section \<open>KCFG commands\<close>

definition remove_suffix :: "string \<Rightarrow> string \<Rightarrow> string" where
  "remove_suffix suf s = (if ends_with suf s then take (length s - length suf) s else s)"

definition spec_module_of :: "string option \<Rightarrow> string \<Rightarrow> string" where
  "spec_module_of spec_module spec_file = (case spec_module of
       Some m \<Rightarrow> if m \<noteq> [] then m else upper (remove_suffix ''.md'' (remove_suffix ''.k'' (file_name spec_file)))
     | None \<Rightarrow> upper (remove_suffix ''.md'' (remove_suffix ''.k'' (file_name spec_file))))"

definition claim_label :: "string option \<Rightarrow> string \<Rightarrow> string \<Rightarrow> string" where
  "claim_label spec_module spec_file claim_id = spec_module_of spec_module spec_file @ ''.'' @ claim_id"

definition use_directory_of :: "string option \<Rightarrow> string" where
  "use_directory_of d = (case d of Some p \<Rightarrow> p | None \<Rightarrow> ''.kavm'')"

text \<open>The proof that is viewed or shown: its id and the directory it is read from.\<close>

definition kcfg_proof :: "(string \<Rightarrow> string \<Rightarrow> 'p res) \<Rightarrow> string option \<Rightarrow> string option \<Rightarrow> string \<Rightarrow> string \<Rightarrow> 'p res" where
  "kcfg_proof read_proof spec_module use_directory spec_file claim_id =
     read_proof (claim_label spec_module spec_file claim_id) (use_directory_of use_directory)"

definition exec_kcfg_show ::
    "(string \<Rightarrow> string \<Rightarrow> 'p res) \<Rightarrow> ('p \<Rightarrow> string list) \<Rightarrow> ('p \<Rightarrow> string list) \<Rightarrow>
     string option \<Rightarrow> string option \<Rightarrow> string \<Rightarrow> string \<Rightarrow> string list res" where
  "exec_kcfg_show read_proof show_lines summary spec_module use_directory spec_file claim_id =
     map_res (\<lambda>p. [join_with [CHR 0x0A] (show_lines p), ''Proof summary:'', join_with [CHR 0x0A] (summary p)])
       (kcfg_proof read_proof spec_module use_directory spec_file claim_id)"

text \<open>The first claim with the label is the one that is proved.\<close>

definition kcfg_prove_claim ::
    "(string \<Rightarrow> string \<Rightarrow> string list \<Rightarrow> 'c list res) \<Rightarrow> string option \<Rightarrow> string \<Rightarrow> string \<Rightarrow> 'c res" where
  "kcfg_prove_claim get_claims spec_module spec_file claim_id =
     bind_res (get_claims spec_file (spec_module_of spec_module spec_file)
       [claim_label spec_module spec_file claim_id]) (\<lambda>claims.
     case claims of [] \<Rightarrow> Inl IndexError | c # _ \<Rightarrow> Inr c)"

definition terminal_rules :: "string list" where
  "terminal_rules = [''AVM-EXECUTION.starttx'', ''AVM-EXECUTION.endtx'', ''AVM-PANIC.panic'']"

definition env_report :: "(string \<Rightarrow> string option) \<Rightarrow> string list" where
  "env_report env = map (\<lambda>k. k @ ''='' @ (case env k of Some v \<Rightarrow> v | None \<Rightarrow> ''None''))
     [''KAVM_DEFINITION_DIR'', ''KAVM_VERIFICATION_DEFINITION_DIR'']"


section \<open>Properties\<close>

text \<open>Every command has an executor, and every parameter it needs is the directory or one of the command's arguments.\<close>

definition covered :: "string \<times> argument list \<Rightarrow> bool" where
  "covered = (\<lambda>(command, args). case dict_get executors (executor_name command) of
     None \<Rightarrow> False
   | Some parameters \<Rightarrow>
       list_all (\<lambda>k. k = ''definition_dir'' \<or> k \<in> set (map arg_dest (shared_args @ args))) parameters)"

lemma commands_covered: "list_all covered commands"
  by code_simp

lemma loglevel_ok:
  "dict_get ns ''debug'' \<noteq> None \<Longrightarrow> dict_get ns ''verbose'' \<noteq> None \<Longrightarrow> \<exists>n. loglevel ns = Inr n"
  by (auto simp: loglevel_def dict_lookup_def)

lemma with_definition_dir_result:
  "case with_definition_dir env ns of
     Inr ns' \<Rightarrow> (\<exists>v. dict_get ns' ''definition_dir'' = Some v \<and> py_true v) \<and>
       (\<forall>k. k \<noteq> ''definition_dir'' \<longrightarrow> dict_get ns' k = dict_get ns k)
   | Inl e \<Rightarrow> (\<exists>m. e = RuntimeError [m]) \<and> (env = None \<or> env = Some []) \<and>
       \<not> (\<exists>v. dict_get ns ''definition_dir'' = Some v \<and> py_true v)"
  by (auto simp: with_definition_dir_def dict_get_set split: option.splits)

lemma dict_keys_get: "k \<in> set (dict_keys d) \<longleftrightarrow> dict_get d k \<noteq> None"
  by (simp add: map_of_eq_None_iff)

lemma dispatch_ok:
  assumes "namespace_of command ns" and "with_definition_dir env ns = Inr ns'"
  shows "\<exists>parameters. dict_get executors (executor_name command) = Some parameters \<and>
    set parameters \<subseteq> set (dict_keys ns') \<and> main_dispatch env ns = Inr (executor_name command, ns')"
proof -
  from assms(1) obtain args where args: "dict_get commands command = Some args"
    and cmd: "dict_get ns ''command'' = Some (PStr command)"
    and keys: "set (dict_keys ns) = {''command''} \<union> arg_dest ` set (shared_args @ args)"
    by (auto simp: namespace_of_def split: option.splits)
  have "covered (command, args)"
    using commands_covered map_of_SomeD [OF args] by (simp add: list_all_iff)
  then obtain parameters where p: "dict_get executors (executor_name command) = Some parameters"
    and l: "list_all (\<lambda>k. k = ''definition_dir'' \<or> k \<in> set (map arg_dest (shared_args @ args))) parameters"
    by (cases "dict_get executors (executor_name command)") (simp_all only: covered_def prod.case option.case)
  have sub: "k = ''definition_dir'' \<or> k \<in> set (dict_keys ns)" if "k \<in> set parameters" for k
    using l that unfolding keys list_all_iff by (metis UnI2 image_set)
  from with_definition_dir_result [of env ns] assms(2)
  have dir: "dict_get ns' ''definition_dir'' \<noteq> None" and rest: "\<And>k. k \<noteq> ''definition_dir'' \<Longrightarrow> dict_get ns' k = dict_get ns k"
    by auto
  have parameters: "set parameters \<subseteq> set (dict_keys ns')"
  proof
    fix k assume "k \<in> set parameters"
    then show "k \<in> set (dict_keys ns')"
      using sub [of k] dir rest [of k] unfolding dict_keys_get by (cases "k = ''definition_dir''") auto
  qed
  have "''debug'' \<in> set (dict_keys ns)" "''verbose'' \<in> set (dict_keys ns)"
    unfolding keys by (simp_all add: shared_args_def)
  then obtain n where "loglevel ns = Inr n" using loglevel_ok unfolding dict_keys_get by blast
  then have "main_dispatch env ns = Inr (executor_name command, ns')"
    using assms(2) cmd p parameters rest [of "''command''"] by (simp add: main_dispatch_def)
  with p parameters show ?thesis by blast
qed

text \<open>
  Every command line that argparse accepts reaches its executor with all the parameters it
  needs, provided the directory of the definition is given or in the environment; no command
  is unimplemented and none is called with a parameter missing. Otherwise the program ends with a
  \<open>RuntimeError\<close>, also for \<open>env\<close> and \<open>kore-repl\<close>, which have no argument for that directory.
\<close>

theorem commands_reach_executors:
  assumes "namespace_of command ns"
  shows "case main_dispatch env ns of
      Inr (ex, kwargs) \<Rightarrow> ex = executor_name command \<and>
        (\<exists>parameters. dict_get executors ex = Some parameters \<and> set parameters \<subseteq> set (dict_keys kwargs)) \<and>
        (\<exists>v. dict_get kwargs ''definition_dir'' = Some v \<and> py_true v) \<and>
        (\<forall>k. k \<noteq> ''definition_dir'' \<longrightarrow> dict_get kwargs k = dict_get ns k)
    | Inl e \<Rightarrow> (\<exists>m. e = RuntimeError [m]) \<and> (env = None \<or> env = Some []) \<and>
        \<not> (\<exists>v. dict_get ns ''definition_dir'' = Some v \<and> py_true v)"
proof (cases "with_definition_dir env ns")
  case (Inr ns')
  with dispatch_ok [OF assms this] with_definition_dir_result [of env ns] show ?thesis by auto
next
  case (Inl e)
  have "''debug'' \<in> set (dict_keys ns)" "''verbose'' \<in> set (dict_keys ns)"
    using assms by (auto simp: namespace_of_def shared_args_def split: option.splits)
  then obtain n where "loglevel ns = Inr n" using loglevel_ok unfolding dict_keys_get by blast
  then have "main_dispatch env ns = Inl e" using Inl by (simp add: main_dispatch_def)
  with Inl with_definition_dir_result [of env ns] show ?thesis by simp
qed

theorem commands_reach_executors_witness:
  "\<exists>kwargs. main_dispatch (Some ''dir'') [(''command'', PStr ''env''), (''verbose'', PBool False), (''debug'', PBool False)] =
     Inr (executor_name ''env'', kwargs)"
proof -
  have "namespace_of ''env'' [(''command'', PStr ''env''), (''verbose'', PBool False), (''debug'', PBool False)]"
    by (auto simp: namespace_of_def commands_def shared_args_def)
  from commands_reach_executors [OF this, of "Some ''dir''"] show ?thesis
    by (auto split: sum.splits)
qed

text \<open>A pattern and all its sub-patterns, from the top down and from left to right.\<close>

fun preorder :: "kore \<Rightarrow> kore list" where
  "preorder (KoreApp s ps) = KoreApp s ps # concat (map preorder ps)"
| "preorder (KorePattern a ps) = KorePattern a ps # concat (map preorder ps)"

lemma top_down_fold: "top_down_kore f p st = fold (\<lambda>q st. f st q) (preorder p) st"
proof (induction f p st rule: top_down_kore.induct)
  case (1 f s ps st)
  have "fold (top_down_kore f) qs u = fold (\<lambda>q st. f st q) (concat (map preorder qs)) u" if "set qs \<subseteq> set ps" for qs u
    using that 1 by (induction qs arbitrary: u) auto
  then show ?case by simp
next
  case (2 f a ps st)
  have "fold (top_down_kore f) qs u = fold (\<lambda>q st. f st q) (concat (map preorder qs)) u" if "set qs \<subseteq> set ps" for qs u
    using that 2 by (induction qs arbitrary: u) auto
  then show ?case by simp
qed

lemma fold_get_it:
  "fold (\<lambda>q st. get_it st q) ps st =
     (if filter is_state_dumps ps = [] then st else Some (last (filter is_state_dumps ps)))"
  by (induction ps arbitrary: st) (auto simp: get_it_def)

text \<open>
  The traversal that overwrites a variable finds the last application of the symbol in the
  order from the top down and from left to right, and nothing when there is none; with one such
  cell it finds that one.
\<close>

theorem state_dumps_is_last:
  "top_down_kore get_it p None =
     (let found = filter is_state_dumps (preorder p) in if found = [] then None else Some (last found))"
  by (simp add: top_down_fold fold_get_it Let_def)

text \<open>
  C39: \<open>kavm run\<close> on a JSON scenario. When \<open>krun\<close> succeeds and its output parses, the texts of the
  output mode are printed for that final state, with exit code 0; if they cannot be made,
  nothing is printed. When \<open>krun\<close> fails, the message that \<open>run_avm_json\<close> raises is lost: the
  handler expects three arguments and fails with a \<open>ValueError\<close>.
\<close>

theorem exec_run_outcome:
  assumes "path_suffix input_file = ''.json''" and "r_input E = Inr text"
    and "from_json (r_sdk E) (r_teal E) text = Inr sc"
    and "avm_run_args (r_tools E) [] sc depth False ''kore'' = Inr a" and "krun (r_tools E) a = Inr r"
  shows "(returncode r = 0 \<and> parse_kore (r_tools E) (stdout r) = Inr (p, True) \<longrightarrow>
      (case run_output_texts E out (FinalKore p) (stderr r) of
         Inr texts \<Rightarrow> exec_run E input_file out depth = (texts, Inl (SystemExit 0))
       | Inl e \<Rightarrow> fst (exec_run E input_file out depth) = [])) \<and>
    (krun_law (r_tools E) \<and> returncode r \<noteq> 0 \<longrightarrow> exec_run E input_file out depth = ([], Inl ValueError))"
proof -
  have a: "run_output a = ''kore''" "\<not> run_check a"
    using assms(4) by (auto simp: avm_run_args_def res_iff)
  have run: "run_scenario_file E depth =
      catch_res (krun_body (r_tools E) a) is_runtime_error (krun_failed (r_tools E) a True)"
    using assms by (simp add: run_scenario_file_def run_avm_json_args)
  have ok: "run_scenario_file E depth = Inr (FinalKore p, stderr r)"
    if "returncode r = 0" "parse_kore (r_tools E) (stdout r) = Inr (p, True)"
    using that assms(5) by (simp add: run krun_body_def a checked_krun_def)
  have failed: "\<exists>m. run_scenario_file E depth = Inl (RuntimeError [m])"
    if l: "krun_law (r_tools E)" and r: "returncode r \<noteq> 0"
  proof -
    have "\<not> isl (krun (r_tools E) (a\<lparr>run_output := ''pretty'', run_check := False\<rparr>))"
      using l by (simp add: krun_law_def)
    then obtain r' where "krun (r_tools E) (a\<lparr>run_output := ''pretty'', run_check := False\<rparr>) = Inr r'"
      by (cases "krun (r_tools E) (a\<lparr>run_output := ''pretty'', run_check := False\<rparr>)") auto
    then show ?thesis
      using assms(5) r by (simp add: run krun_body_def a checked_krun_def nonzero_exit_def krun_failed_def)
  qed
  have out: "exec_run E input_file out depth =
      (case bind_res (run_scenario_file E depth) (\<lambda>(fp, err). run_output_texts E out fp err) of
         Inr texts \<Rightarrow> (texts, Inl (SystemExit 0))
       | Inl e \<Rightarrow> ([], if is_runtime_error e then (if length (exn_args e) = 3 then Inr () else Inl ValueError) else Inl e))"
    by (simp add: exec_run_def assms(1))
  show ?thesis
  proof (intro conjI impI)
    assume "returncode r = 0 \<and> parse_kore (r_tools E) (stdout r) = Inr (p, True)"
    then show "case run_output_texts E out (FinalKore p) (stderr r) of
         Inr texts \<Rightarrow> exec_run E input_file out depth = (texts, Inl (SystemExit 0))
       | Inl e \<Rightarrow> fst (exec_run E input_file out depth) = []"
      using ok by (simp add: out split: sum.splits)
  next
    assume "krun_law (r_tools E) \<and> returncode r \<noteq> 0"
    then show "exec_run E input_file out depth = ([], Inl ValueError)"
      using failed by (auto simp: out exn_args_def)
  qed
qed

text \<open>A scenario without accounts and transactions.\<close>

definition tiny_scenario :: pyval where
  "tiny_scenario = PDict [(''stages'', PList
     [PDict [(''data'', PDict [(''accounts'', PList [])]), (''stage-type'', PStr ''setup-network'')],
      PDict [(''data'', PDict [(''transactions'', PList [])]), (''stage-type'', PStr ''submit-transactions'')]])]"

definition sample_run_env :: "int \<Rightarrow> run_env" where
  "sample_run_env code = \<lparr>r_sdk = ref_sdk, r_tools = sample_tools code, r_input = Inr (json_text default_layout 0 tiny_scenario),
     r_teal = sample_teal, pretty_print = (\<lambda>t. ''final''), kore_repr = (\<lambda>p. []), drop_text = (\<lambda>a s. s)\<rparr>"

lemma tiny_scenario_ok:
  "json_ok tiny_scenario" "wf_val tiny_scenario"
  "case scenario_of_value ref_sdk sample_teal tiny_scenario of
     Inl e \<Rightarrow> False | Inr sc \<Rightarrow> teal_programs sc = [] \<and> json_ok (PDict (scenario_dictify sc))"
  by code_simp+

lemma tiny_from_json:
  "\<exists>sc js. from_json ref_sdk sample_teal (json_text default_layout 0 tiny_scenario) = Inr sc \<and>
     teal_programs sc = [] \<and> to_json sc 0 = Inr js"
proof -
  have "from_json ref_sdk sample_teal (json_text default_layout 0 tiny_scenario) =
      scenario_of_value ref_sdk sample_teal tiny_scenario"
    using json_loads_text [of tiny_scenario default_layout] tiny_scenario_ok(1,2)
    by (simp add: from_json_def normal_form_def default_layout_def del: json_text.simps)
  then show ?thesis
    using tiny_scenario_ok(3) by (auto simp: to_json_def json_dumps_def split: sum.splits)
qed

theorem exec_run_outcome_witness:
  "exec_run (sample_run_env 0) ''s.json'' ''pretty'' None = ([''final''], Inl (SystemExit 0)) \<and>
   exec_run (sample_run_env 3) ''s.json'' ''pretty'' None = ([], Inl ValueError)"
proof -
  have s: "path_suffix ''s.json'' = ''.json''" by code_simp
  have i: "r_input (sample_run_env c) = Inr (json_text default_layout 0 tiny_scenario)" for c
    by (simp add: sample_run_env_def del: json_text.simps)
  obtain sc js where sc: "from_json ref_sdk sample_teal (json_text default_layout 0 tiny_scenario) = Inr sc"
    and t: "teal_programs sc = []" "to_json sc 0 = Inr js" using tiny_from_json by blast
  have f: "from_json (r_sdk (sample_run_env c)) (r_teal (sample_run_env c)) (json_text default_layout 0 tiny_scenario) = Inr sc" for c
    using sc by (simp add: sample_run_env_def del: json_text.simps)
  have tools: "r_tools (sample_run_env c) = sample_tools c" for c by (simp add: sample_run_env_def)
  have "\<exists>a. avm_run_args (sample_tools c) [] sc None False ''kore'' = Inr a" for c
    by (simp add: avm_run_args_def parse_teals_def t sample_tools_def)
  then obtain a where a: "avm_run_args (r_tools (sample_run_env c)) [] sc None False ''kore'' = Inr (a c)" for c
    unfolding tools by metis
  have c: "run_check (a c) = False" for c using a [of c] by (auto simp: avm_run_args_def res_iff)
  have r: "krun (r_tools (sample_run_env c)) (a c) = Inr \<lparr>returncode = c, stdout = ''state'', stderr = ''dump''\<rparr>" for c
    by (simp add: tools c sample_tools_def)
  note run = exec_run_outcome [OF s i f a r, where p = "KoreApp ''state'' []" and out = "''pretty''"]
  have "krun_law (sample_tools 3)" by (simp add: krun_law_def sample_tools_def)
  with run [of 0] run [of 3] show ?thesis
    unfolding tools by (simp add: run_output_texts_def final_kore_def tools) (simp add: sample_tools_def sample_run_env_def)
qed

end
