(* ===== verification/KcfgCommands.thy ===== *)
theory KcfgCommands
  imports Cli
begin

text \<open>
  The commands \<open>kcfg-prove\<close> and \<open>kcfg-view\<close> of \<open>__main__.py\<close> on the file system: a proof that
  one of them leaves in the directory is what the other and \<open>kcfg-show\<close> read.
\<close>

text \<open>\<open>APRProof\<close>, with the graph and the logs as the library has them.\<close>

record 'g apr_proof =
  proof_id :: string
  proof_kcfg :: 'g
  proof_init :: string
  proof_target :: string
  proof_dir :: string

text \<open>What the commands use of the file system: the directories and the proofs in them.\<close>

record 'g disk =
  directories :: "string set"
  stored :: "string \<times> string \<Rightarrow> 'g apr_proof option"

text \<open>
  The library: the object \<open>KAVM\<close> made of the two directories and the path of a bug report,
  \<open>get_claims\<close>, \<open>KCFG.from_claim\<close>, and \<open>advance_proof\<close> of the prover, which works on the disk.
\<close>

record ('k, 'c, 'g) kcfg_library =
  make_kavm :: "string \<Rightarrow> string \<Rightarrow> string option \<Rightarrow> 'k res"
  kavm_use_directory :: "'k \<Rightarrow> string"
  get_claims :: "'k \<Rightarrow> string \<Rightarrow> string \<Rightarrow> string list \<Rightarrow> 'c list res"
  kcfg_from_claim :: "'k \<Rightarrow> 'c \<Rightarrow> ('g \<times> string \<times> string) res"
  advance_proof :: "'k \<Rightarrow> int \<Rightarrow> string option \<Rightarrow> 'g apr_proof \<Rightarrow> string list \<Rightarrow> 'g disk \<Rightarrow> unit res \<times> 'g disk"

definition read_proof :: "'g disk \<Rightarrow> string \<Rightarrow> string \<Rightarrow> 'g apr_proof res" where
  "read_proof D i d = (case stored D (d, i) of Some p \<Rightarrow> Inr p | None \<Rightarrow> Inl FileNotFoundError)"

definition bug_report_path :: "bool \<Rightarrow> string \<Rightarrow> string option" where
  "bug_report_path bug_report d = (if bug_report then Some (d @ ''/kavm-bug'') else None)"

text \<open>The directory \<open>.kavm\<close> is made whether it is used or not, and no other.\<close>

definition exec_kcfg_prove ::
    "('k, 'c, 'g) kcfg_library \<Rightarrow> string \<Rightarrow> string \<Rightarrow> string \<Rightarrow> int \<Rightarrow> bool \<Rightarrow> string option \<Rightarrow> string option \<Rightarrow>
     'g disk \<Rightarrow> unit res \<times> 'g disk" where
  "exec_kcfg_prove L definition_dir spec_file claim_id port bug_report spec_module use_directory D =
     (let D1 = D\<lparr>directories := insert ''.kavm'' (directories D)\<rparr>;
          dir = use_directory_of use_directory;
          bug = bug_report_path bug_report dir in
      case bind_res (make_kavm L definition_dir dir bug) (\<lambda>kavm.
           bind_res (kcfg_prove_claim (get_claims L kavm) spec_module spec_file claim_id) (\<lambda>claim.
           map_res (\<lambda>(cfg, init, target). (kavm,
               \<lparr>proof_id = claim_label spec_module spec_file claim_id, proof_kcfg = cfg, proof_init = init,
                proof_target = target, proof_dir = kavm_use_directory L kavm\<rparr>))
             (kcfg_from_claim L kavm claim))) of
        Inl e \<Rightarrow> (Inl e, D1)
      | Inr (kavm, proof) \<Rightarrow> advance_proof L kavm port bug proof terminal_rules D1)"

text \<open>What the viewer is started with.\<close>

definition exec_kcfg_view ::
    "('k, 'c, 'g) kcfg_library \<Rightarrow> string \<Rightarrow> string \<Rightarrow> string \<Rightarrow> string option \<Rightarrow> string option \<Rightarrow> 'g disk \<Rightarrow> ('g \<times> 'k) res" where
  "exec_kcfg_view L definition_dir spec_file claim_id spec_module use_directory D =
     bind_res (make_kavm L definition_dir (use_directory_of use_directory) None) (\<lambda>kavm.
     map_res (\<lambda>p. (proof_kcfg p, kavm)) (kcfg_proof (read_proof D) spec_module use_directory spec_file claim_id))"

text \<open>
  Documented behaviour of the library: \<open>KAVM\<close> keeps the directory it was given, and the prover
  writes the proof it works on, under its id, into the directory of the proof.
\<close>

definition kcfg_library_law :: "('k, 'c, 'g) kcfg_library \<Rightarrow> bool" where
  "kcfg_library_law L \<longleftrightarrow>
     (\<forall>def d bug k. make_kavm L def d bug = Inr k \<longrightarrow> kavm_use_directory L k = d) \<and>
     (\<forall>k port bug p rules D D'. advance_proof L k port bug p rules D = (Inr (), D') \<longrightarrow>
        (\<exists>p'. stored D' (proof_dir p, proof_id p) = Some p' \<and> proof_target p' = proof_target p))"

lemma read_after_prove:
  assumes "kcfg_library_law L"
    and "exec_kcfg_prove L definition_dir spec_file claim_id port bug_report spec_module use_directory D = (Inr (), D')"
  obtains p where "kcfg_proof (read_proof D') spec_module use_directory spec_file claim_id = Inr p"
proof -
  from assms(2) obtain kavm claim cfg init target D1 where k: "make_kavm L definition_dir (use_directory_of use_directory)
      (bug_report_path bug_report (use_directory_of use_directory)) = Inr kavm"
    and a: "advance_proof L kavm port (bug_report_path bug_report (use_directory_of use_directory))
      \<lparr>proof_id = claim_label spec_module spec_file claim_id, proof_kcfg = cfg, proof_init = init,
       proof_target = target, proof_dir = kavm_use_directory L kavm\<rparr> terminal_rules D1 = (Inr (), D')"
    by (auto simp: exec_kcfg_prove_def Let_def res_iff split: sum.splits)
  from k assms(1) have "kavm_use_directory L kavm = use_directory_of use_directory"
    unfolding kcfg_library_law_def by blast
  moreover obtain p where "stored D' (kavm_use_directory L kavm, claim_label spec_module spec_file claim_id) = Some p"
    using assms(1) a unfolding kcfg_library_law_def by fastforce
  ultimately show ?thesis using that by (simp add: kcfg_proof_def read_proof_def)
qed

text \<open>
  After a successful \<open>kcfg-prove\<close>, \<open>kcfg-show\<close> and \<open>kcfg-view\<close> with the same arguments find the
  proof, for every module, file and directory the user gives or leaves to the defaults.
\<close>

theorem show_and_view_after_prove:
  assumes "kcfg_library_law L"
    and "exec_kcfg_prove L definition_dir spec_file claim_id port bug_report spec_module use_directory D = (Inr (), D')"
    and "make_kavm L definition_dir (use_directory_of use_directory) None = Inr kavm"
  shows "\<exists>p. exec_kcfg_view L definition_dir spec_file claim_id spec_module use_directory D' = Inr (proof_kcfg p, kavm) \<and>
    exec_kcfg_show (read_proof D') lines summary spec_module use_directory spec_file claim_id =
      Inr [join_with [CHR 0x0A] (lines p), ''Proof summary:'', join_with [CHR 0x0A] (summary p)]"
proof -
  obtain p where "kcfg_proof (read_proof D') spec_module use_directory spec_file claim_id = Inr p"
    by (rule read_after_prove [OF assms(1,2)])
  then show ?thesis by (intro exI [of _ p]) (simp add: exec_kcfg_view_def exec_kcfg_show_def assms(3))
qed

text \<open>Without a claim of that name nothing is proved, but the directory \<open>.kavm\<close> is made.\<close>

theorem kcfg_prove_no_claim:
  assumes "make_kavm L definition_dir (use_directory_of use_directory) (bug_report_path bug_report (use_directory_of use_directory)) = Inr kavm"
    and "get_claims L kavm spec_file (spec_module_of spec_module spec_file) [claim_label spec_module spec_file claim_id] = Inr []"
  shows "exec_kcfg_prove L definition_dir spec_file claim_id port bug_report spec_module use_directory D =
    (Inl IndexError, D\<lparr>directories := insert ''.kavm'' (directories D)\<rparr>)"
  using assms by (simp add: exec_kcfg_prove_def kcfg_prove_claim_def Let_def)

end
