(* ===== verification/History.thy ===== *)
theory History
  imports AlgodClient
begin

text \<open>
  The client of \<open>kavm/algod.py\<close> over many requests: an abstract ledger, the steps it can take, and
  the proof that every request of the client is one of them.
\<close>

section \<open>The ledger\<close>

text \<open>What a client of the node can observe of its state: accounts as dictionaries, and confirmed transactions.\<close>

record ledger =
  balances :: "string \<Rightarrow> pydict option"
  confirmed :: "string \<Rightarrow> pyval option"

definition abs_client :: "sdk \<Rightarrow> client \<Rightarrow> ledger" where
  "abs_client S c = \<lparr>balances = (\<lambda>a. map_option (dictify S) (dict_get (accounts c) a)), confirmed = dict_get (committed_txns c)\<rparr>"

definition empty_account :: "sdk \<Rightarrow> string \<Rightarrow> pydict" where
  "empty_account S a = dictify S (new_account S a 0)"

text \<open>
  An accepted group replaces the accounts by those of the run and adds its transactions. A
  refused one may leave empty accounts for addresses it mentions (\<open>registers\<close>). When the run
  succeeds but its dump cannot be read to the end, the accounts are undefined and
  transactions may have been added.
\<close>

definition registers :: "sdk \<Rightarrow> ledger \<Rightarrow> ledger \<Rightarrow> bool" where
  "registers S l l' \<longleftrightarrow> confirmed l' = confirmed l \<and>
     (\<forall>a. balances l' a = balances l a \<or> balances l a = None \<and> balances l' a = Some (empty_account S a))"

definition commit :: "(string \<times> pydict) list \<Rightarrow> (string \<times> pyval) list \<Rightarrow> ledger \<Rightarrow> ledger" where
  "commit accs es l = \<lparr>balances = map_of (rev accs), confirmed = confirmed l ++ map_of (rev es)\<rparr>"

datatype event =
    Observed
  | Refused
  | Accepted "(string \<times> pydict) list" "(string \<times> pyval) list"
  | Unreadable

inductive ledger_step :: "sdk \<Rightarrow> ledger \<Rightarrow> event \<Rightarrow> ledger \<Rightarrow> bool" for S where
  observe: "ledger_step S l Observed l"
| refuse: "registers S l l' \<Longrightarrow> ledger_step S l Refused l'"
| accept: "es \<noteq> [] \<Longrightarrow> ledger_step S l (Accepted accs es) (commit accs es l)"
| unreadable: "dom (confirmed l) \<subseteq> dom (confirmed l') \<Longrightarrow> ledger_step S l Unreadable l'"

inductive_cases ledger_stepE: "ledger_step S l e l'"

lemma ledger_step_grows: "ledger_step S l e l' \<Longrightarrow> dom (confirmed l) \<subseteq> dom (confirmed l')"
  by (erule ledger_stepE) (auto simp: registers_def commit_def)

lemma registers_refl [simp]: "registers S l l"
  by (simp add: registers_def)

section \<open>The client's loops on the ledger\<close>

lemma abs_client_scenario [simp]: "abs_client S (c\<lparr>last_scenario := x\<rparr>) = abs_client S c"
  by (simp add: abs_client_def)

lemma abs_client_creators [simp]: "abs_client S (c\<lparr>app_creators := x\<rparr>) = abs_client S c"
  by (simp add: abs_client_def)

lemma register_address_abs:
  assumes "registers S l (abs_client S c)"
  shows "registers S l (abs_client S (register_address S a c))"
proof (cases "dict_get (accounts c) a")
  case None
  then have "balances (abs_client S c) a = None" by (simp add: abs_client_def)
  then have "balances l a = None" using assms unfolding registers_def by (metis option.distinct(1))
  then show ?thesis
    using assms None by (simp add: register_address_def registers_def abs_client_def dict_get_set empty_account_def)
next
  case (Some acc)
  then show ?thesis using assms by (simp add: register_address_def)
qed

lemma register_txn_abs: "registers S l (abs_client S c) \<Longrightarrow> registers S l (abs_client S (snd (register_txn S t c)))"
  by (auto simp: register_txn_def bind_act_state register_address_abs split: sum.splits)

interpretation ledger_registering: keeping "\<lambda>c. registers S l (abs_client S c)" "register_txn S" for S l
  by unfold_locales (rule register_txn_abs)

text \<open>Neither filing accounts nor filing their applications touches the transactions.\<close>

lemma creator_step_txns: "committed_txns c = X \<Longrightarrow> committed_txns (snd (creator_step addr app c)) = X"
  by (auto simp: creator_step_def bind_act_state split: sum.splits)

interpretation app_txns: keeping "\<lambda>c. committed_txns c = X" "creator_step addr" for X addr
  by unfold_locales (rule creator_step_txns)

lemma account_creators_txns: "committed_txns c = X \<Longrightarrow> committed_txns (snd (account_creators x c)) = X"
  by (auto simp: account_creators_def bind_act_state app_txns.loop_keeps split: prod.splits sum.splits)

interpretation creator_txns: keeping "\<lambda>c. committed_txns c = X" account_creators for X
  by unfold_locales (rule account_creators_txns)

lemma store_account_txns: "committed_txns c = X \<Longrightarrow> committed_txns (snd (store_account S d c)) = X"
  by (auto simp: store_account_def bind_act_state creator_txns.loop_keeps split: sum.splits)

interpretation account_txns: keeping "\<lambda>c. committed_txns c = X" "store_account S" for X S
  by unfold_locales (rule store_account_txns)

lemma store_txn_grows: "D \<subseteq> set (dict_keys (committed_txns c)) \<Longrightarrow> D \<subseteq> set (dict_keys (committed_txns (snd (store_txn t c))))"
  by (auto simp: store_txn_def bind_act_state dom_map_of_conv_image_fst [symmetric] dict_get_set split: sum.splits)

interpretation txns_growing: keeping "\<lambda>c. D \<subseteq> set (dict_keys (committed_txns c))" store_txn for D
  by unfold_locales (rule store_txn_grows)

section \<open>Updating the state on the ledger\<close>

lemma dict_get_of_items: "dict_get (dict_of_items es) a = map_of (rev es) a"
proof (induction es rule: rev_induct)
  case Nil
  then show ?case by (simp add: dict_of_items_def)
next
  case (snoc e es)
  then show ?case by (cases e) (simp add: dict_of_items_append dict_get_set)
qed

lemma map_of_rev_map: "map_of (rev (map (\<lambda>(a, m). (a, f m)) es)) a = map_option f (map_of (rev es) a)"
  by (simp add: rev_map map_of_map)

lemma dict_get_dom: "dom (dict_get d) = set (dict_keys d)"
  by (simp add: dom_map_of_conv_image_fst)

lemma bind_act_grows:
  assumes "D \<subseteq> set (dict_keys (committed_txns (snd (m c))))"
    and "\<And>x c1. D \<subseteq> set (dict_keys (committed_txns c1)) \<Longrightarrow> D \<subseteq> set (dict_keys (committed_txns (snd (f x c1))))"
  shows "D \<subseteq> set (dict_keys (committed_txns (snd (bind_act m f c))))"
  using assms by (cases "m c") (auto simp: bind_act_def split: sum.splits)

text \<open>However an update ends, no transaction is lost.\<close>

lemma update_state_grows:
  "set (dict_keys (committed_txns c)) \<subseteq> set (dict_keys (committed_txns (snd (update_state S d c))))"
proof -
  have acc: "committed_txns (snd (for_each (store_account S) accs c1)) = committed_txns c1" for accs c1
    by (rule account_txns.loop_keeps) simp
  show ?thesis
    unfolding update_state_def by (intro bind_act_grows txns_growing.loop_keeps) (auto simp: acc)
qed

lemma update_state_commits:
  assumes "sdk_model_law S" and "sdk_names_law S" and "json_good (PDict d)" and "update_state S d c = (Inr r, c')"
  shows "\<exists>accs es. es \<noteq> [] \<and> abs_client S c' = commit accs es (abs_client S c) \<and> r = PDict [(''txId'', PStr (fst (hd es)))]"
proof -
  from update_state_accounts [OF assms] obtain v accs ms where "list_all2 (account_entry S) accs ms"
    and a: "accounts c' = dict_of_items ms" by blast
  from assms(4) obtain accs0 u c1 v txns u2 where
    1: "for_each (store_account S) accs0 (c\<lparr>accounts := []\<rparr>) = (Inr u, c1)"
    and v: "dict_lookup d ''transactions'' = Inr v" "py_iter v = Inr txns"
    and 2: "for_each store_txn txns c1 = (Inr u2, c')" and f: "first_txn_id d = Inr r"
    by (auto simp: update_state_def res_iff)
  have c1: "committed_txns c1 = committed_txns c"
    using account_txns.loop_keeps [of "c\<lparr>accounts := []\<rparr>" "committed_txns c" S accs0] 1 by simp
  from store_txns_result [OF 2] obtain es where es: "list_all2 txn_entry txns es"
    and g: "\<forall>i. dict_get (committed_txns c') i = (case map_of (rev es) i of Some p \<Rightarrow> Some p
          | None \<Rightarrow> dict_get (committed_txns c) i)" unfolding c1 by blast
  from first_txn_list [OF f v] obtain i t rest where t: "txns = t # rest" "py_get t ''id'' = Inr i" "r = PDict [(''txId'', i)]"
    by blast
  with es obtain e es' where e: "es = e # es'" "txn_entry t e" by (auto simp: list_all2_Cons1)
  then have "r = PDict [(''txId'', PStr (fst (hd es)))]" using t(2,3) by (auto simp: txn_entry_def)
  moreover have "abs_client S c' = commit (map (\<lambda>(a, m). (a, dictify S m)) ms) es (abs_client S c)"
    using g by (simp add: abs_client_def commit_def a dict_get_of_items map_of_rev_map fun_eq_iff map_add_def)
  ultimately show ?thesis using e(1) by blast
qed

section \<open>Requests on the ledger\<close>

lemma parse_state_dump_loads: "parse_state_dump out = Inr d \<Longrightarrow> json_loads out = Inr (PDict d)"
  by (cases "json_loads out") (auto simp: parse_state_dump_def split: pyval.splits if_splits)

lemma eval_transactions_step:
  assumes "sdk_model_law (a_sdk A)" and "sdk_names_law (a_sdk A)" and "eval_transactions A txns c = (r, c')"
  shows "\<exists>e. ledger_step (a_sdk A) (abs_client (a_sdk A) c) e (abs_client (a_sdk A) c') \<and>
    (\<forall>x. r = Inr x \<longrightarrow> (\<exists>accs es. e = Accepted accs es \<and> x = PDict [(''txId'', PStr (fst (hd es)))])) \<and>
    (isl r \<longrightarrow> e = Refused \<or> e = Unreadable)"
proof -
  let ?S = "a_sdk A" and ?abs = "abs_client (a_sdk A)"
  obtain x c1 where reg: "for_each (register_txn ?S) txns c = (x, c1)" by fastforce
  have r1: "registers ?S (?abs c) (?abs c1)"
    using ledger_registering.loop_keeps [of ?S "?abs c" c txns] reg by simp
  show ?thesis
  proof (cases "\<exists>u sc d. x = Inr u \<and> construct_scenario A (map snd (accounts c1)) txns = Inr sc \<and>
      bind_res (run_group A sc) parse_state_dump = Inr d")
    case False
    then have "isl r \<and> ?abs c' = ?abs c1"
      using assms(3) reg by (cases x; cases "construct_scenario A (map snd (accounts c1)) txns")
        (auto simp: eval_transactions_def bind_act_def split: sum.splits)
    then show ?thesis using r1 by (auto intro!: exI [of _ Refused] ledger_step.refuse)
  next
    case True
    then obtain u sc d where x: "x = Inr u" and sc: "construct_scenario A (map snd (accounts c1)) txns = Inr sc"
      and d: "bind_res (run_group A sc) parse_state_dump = Inr d" by blast
    let ?c2 = "c1\<lparr>last_scenario := Some sc\<rparr>"
    have u: "update_state ?S d ?c2 = (r, c')"
      using assms(3) by (simp add: eval_transactions_def bind_act_def reg x sc d)
    from d obtain out where "json_loads out = Inr (PDict d)"
      by (auto simp: bind_res_Inr_iff dest: parse_state_dump_loads)
    from json_loads_good [OF this] have good: "json_good (PDict d)" unfolding json_good_def .
    show ?thesis
    proof (cases r)
      case (Inl err)
      have "dom (confirmed (?abs c1)) \<subseteq> dom (confirmed (?abs c'))"
        using update_state_grows [of ?c2 ?S d] u by (simp add: abs_client_def dict_get_dom)
      then have "dom (confirmed (?abs c)) \<subseteq> dom (confirmed (?abs c'))"
        using r1 by (simp add: registers_def)
      then show ?thesis using Inl by (auto intro!: exI [of _ Unreadable] ledger_step.unreadable)
    next
      case (Inr y)
      from update_state_commits [OF assms(1,2) good u [unfolded Inr]] obtain accs es where
        "es \<noteq> []" "?abs c' = commit accs es (?abs ?c2)" "y = PDict [(''txId'', PStr (fst (hd es)))]" by blast
      moreover have "commit accs es (?abs ?c2) = commit accs es (?abs c)"
        using r1 by (simp add: commit_def registers_def)
      ultimately show ?thesis
        using Inr by (auto intro!: exI [of _ "Accepted accs es"] ledger_step.accept)
    qed
  qed
qed

definition known_account :: "sdk \<Rightarrow> ledger \<Rightarrow> string \<Rightarrow> pydict" where
  "known_account S l a = (case balances l a of Some acc \<Rightarrow> acc | None \<Rightarrow> empty_account S a)"

lemma account_from_ledger:
  "CHR ''/'' \<notin> set a \<Longrightarrow> handle_get S c (''/accounts/'' @ a) = Inr (PDict (known_account S (abs_client S c) a))"
  by (simp add: handle_get_def split_on_plain get_account_def known_account_def abs_client_def empty_account_def
      split: option.splits)

lemma client_step:
  assumes "sdk_model_law (a_sdk A)" and "sdk_names_law (a_sdk A)" and "algod_request A meth requrl data c = Some (r, c')"
  shows "\<exists>e. ledger_step (a_sdk A) (abs_client (a_sdk A) c) e (abs_client (a_sdk A) c') \<and>
    (meth \<noteq> ''POST'' \<or> requrl \<noteq> ''/transactions'' \<longrightarrow> e = Observed \<and> c' = c) \<and>
    (\<forall>x. meth = ''POST'' \<and> requrl = ''/transactions'' \<and> r = Inr x \<longrightarrow>
       (\<exists>accs es. e = Accepted accs es \<and> x = PDict [(''txId'', PStr (fst (hd es)))])) \<and>
    (isl r \<longrightarrow> e \<in> {Observed, Refused, Unreadable})"
proof (cases "\<exists>txns. meth = ''POST'' \<and> requrl = ''/transactions'' \<and> eval_transactions A txns c = (r, c')")
  case True
  then obtain txns where "meth = ''POST''" "requrl = ''/transactions''" "eval_transactions A txns c = (r, c')" by blast
  with eval_transactions_step [OF assms(1,2) this(3)] show ?thesis by auto
next
  case False
  then have "c' = c \<and> (meth = ''POST'' \<and> requrl = ''/transactions'' \<longrightarrow> isl r)"
    using assms(3) by (auto simp: algod_request_def handle_post_def split: if_splits option.splits sum.splits)
  then show ?thesis by (auto intro!: exI [of _ Observed] ledger_step.observe)
qed


section \<open>Histories\<close>

text \<open>The states any sequence of requests leads to from a given one.\<close>

inductive requests :: "algod_env \<Rightarrow> client \<Rightarrow> client \<Rightarrow> bool" for A where
  requests_none: "requests A c c"
| requests_step: "requests A c c1 \<Longrightarrow> algod_request A meth requrl data c1 = Some (r, c') \<Longrightarrow> requests A c c'"


section \<open>A group that is accepted\<close>

text \<open>The empty group, sent as no bytes, to a client whose run prints the dump of one transaction.\<close>

lemma sample_request:
  "\<exists>r c'. algod_request (algod_with 0 (PDict sample_dump)) ''POST'' ''/transactions'' (Some []) faucet_client = Some (Inr r, c') \<and>
     dict_get (committed_txns c') ''0'' = Some (PInt 5)"
proof -
  let ?A = "algod_with 0 (PDict sample_dump)"
  obtain sc r c' where e: "eval_transactions ?A [] faucet_client = (Inr r, c')"
    and u: "update_state ref_sdk sample_dump (faucet_client\<lparr>last_scenario := Some sc\<rparr>) = (Inr r, c')"
    using accepted_by_faucet sample_dump_ok by blast
  have "msgpack_decode_txn_list (a_msgpack ?A) [] = Some (Inr [])"
    by (simp add: msgpack_decode_txn_list_def msgpack_loop.simps)
  then have "algod_request ?A ''POST'' ''/transactions'' (Some []) faucet_client = Some (Inr r, c')"
    using e by (simp add: algod_request_def handle_post_def)
  moreover have "dict_get (committed_txns c') ''0'' = Some (PInt 5)"
  proof -
    have "dict_get (committed_txns (snd (update_state ref_sdk sample_dump (faucet_client\<lparr>last_scenario := x\<rparr>)))) ''0'' =
        Some (PInt 5)" for x by code_simp
    from this [of "Some sc"] show ?thesis unfolding u by simp
  qed
  ultimately show ?thesis by blast
qed



end
