(* ===== verification/ReturnValue.thy ===== *)
theory ReturnValue
  imports Prover KBytes
begin

text \<open>
  What the postconditions of \<open>kavm/prover.py\<close> say: the terms of K's module \<open>BYTES\<close> they are
  made of, evaluated, against the bytes a contract method logs to return a number.
\<close>

section \<open>The meaning of a postcondition\<close>

text \<open>
  The value of a term of sort \<open>Bytes\<close>: \<open>lit\<close> is what K reads a token of that sort as, \<open>\<kappa>\<close> and
  \<open>\<beta>\<close> are the values of the integer and byte variables. An equation of bytes is the only
  postcondition the code builds.
\<close>

fun k_bytes :: "(string \<Rightarrow> bytes option) \<Rightarrow> (string \<Rightarrow> int) \<Rightarrow> (string \<Rightarrow> bytes) \<Rightarrow> kinner \<Rightarrow> bytes option" where
  "k_bytes lit \<kappa> \<beta> (KVariable n s) = Some (\<beta> n)"
| "k_bytes lit \<kappa> \<beta> (KToken tok s) = (if s = ''Bytes'' then lit tok else None)"
| "k_bytes lit \<kappa> \<beta> (KApply f [a, b]) =
     (if f = ''_+Bytes_'' then
        (case (k_bytes lit \<kappa> \<beta> a, k_bytes lit \<kappa> \<beta> b) of (Some x, Some y) \<Rightarrow> Some (x @ y) | _ \<Rightarrow> None)
      else None)"
| "k_bytes lit \<kappa> \<beta> (KApply f [a, b, c]) =
     (if f = ''padLeftBytes'' then
        (case (k_bytes lit \<kappa> \<beta> a, k_int \<kappa> b, k_int \<kappa> c) of
           (Some x, Some n, Some p) \<Rightarrow> pad_left_bytes x n p
         | _ \<Rightarrow> None)
      else if f = ''Int2Bytes'' \<and> b = KToken ''BE'' ''Endianness'' \<and> c = KToken ''Unsigned'' ''Signedness'' then
        Option.bind (k_int \<kappa> a) int_to_bytes
      else None)"
| "k_bytes lit \<kappa> \<beta> _ = None"

definition k_equation :: "(string \<Rightarrow> bytes option) \<Rightarrow> (string \<Rightarrow> int) \<Rightarrow> (string \<Rightarrow> bytes) \<Rightarrow> kinner \<Rightarrow> bool option" where
  "k_equation lit \<kappa> \<beta> t = (case t of
       KApply f [a, b] \<Rightarrow>
         if f = ''_==K_'' then
           (case (k_bytes lit \<kappa> \<beta> a, k_bytes lit \<kappa> \<beta> b) of (Some x, Some y) \<Rightarrow> Some (x = y) | _ \<Rightarrow> None)
         else None
     | _ \<Rightarrow> None)"

text \<open>The literal of the prefix is a token of sort \<open>Bytes\<close> that K reads as the prefix.\<close>

definition prefix_literal :: "pyk \<Rightarrow> (string \<Rightarrow> string) \<Rightarrow> (string \<Rightarrow> bytes option) \<Rightarrow> bool" where
  "prefix_literal P dq lit \<longleftrightarrow>
     (\<exists>q. bytesToken_str P (dq (slice_2_m1 (repr_bytes return_prefix))) = Inr (KToken q ''Bytes'') \<and>
        lit q = Some return_prefix)"

lemma last_log_item_meaning:
  assumes "pyk_token_law P" and "prefix_literal P dq lit" and "k_int \<kappa> u = Some (uint (w :: 64 word))"
    and "\<beta> ''?FINAL_LOGDATA_CELL'' = entry"
  shows "\<exists>t. last_log_item_eq P dq u = Inr t \<and> k_equation lit \<kappa> \<beta> t = Some (entry = return_prefix @ itob w)"
proof -
  from assms(2) obtain q where q: "bytesToken_str P (dq (slice_2_m1 (repr_bytes return_prefix))) = Inr (KToken q ''Bytes'')"
    and lit: "lit q = Some return_prefix" unfolding prefix_literal_def by blast
  have tokens: "k_int \<kappa> (intToken P 8) = Some 8" "k_int \<kappa> (intToken P 0) = Some 0"
    using assms(1) by (simp_all add: pyk_token_law_def)
  have "int_to_bytes (uint w) = Some (be_bytes (unat w))" by (simp add: int_to_bytes_def)
  then show ?thesis
    using q lit tokens assms(3,4) itob_padded [of w]
    by (simp add: last_log_item_eq_def k_equation_def int_2_bytes_def del: slice_repr_bytes)
qed

lemma kast_supported: "pyteal_expr_to_kast P e = Inr t \<Longrightarrow> supported e"
  by (induction e arbitrary: t rule: supported.induct) (auto simp: res_iff split: option.splits list.splits)

lemma python_src_supported: "supported e \<Longrightarrow> \<exists>s. pyteal_expr_to_python_src e = Inr s"
  by (induction e rule: supported.induct) auto


text \<open>Reading the tokens of the reference library.\<close>

definition sample_lit :: "string \<Rightarrow> bytes option" where
  "sample_lit q = Some (map (\<lambda>c. word_of_nat (code_point c)) (tl (butlast q)))"

lemma sample_prefix: "prefix_literal ref_pyk unescape sample_lit"
proof -
  have "(case bytesToken_str ref_pyk (unescape (slice_2_m1 (repr_bytes return_prefix))) of
      Inr (KToken q s) \<Rightarrow> s = ''Bytes'' \<and> sample_lit q = Some return_prefix | _ \<Rightarrow> False)" by code_simp
  then show ?thesis by (auto simp: prefix_literal_def split: sum.splits kinner.splits)
qed


end
