(* ===== verification/MethodProof.thy ===== *)
theory MethodProof
  imports ReturnValue
begin

text \<open>
  The loop of \<open>AutoProver.__init__\<close> in \<open>kavm/prover.py\<close> that makes a proof of every marked method
  of a contract: what each argument contributes to the application arguments, the
  preconditions and the transaction group. The constructor never gets here (see
  \<open>auto_prover_init\<close>), and the calls \<open>proof.add_\<dots>\<close> name methods that \<open>KAVMProof\<close> does not have;
  the record \<open>method_proof\<close> holds what they are given.
\<close>

section \<open>Methods, transactions, proofs\<close>

text \<open>A method of a contract: its name with its conditions, its selector and its arguments with the texts of their types.\<close>

record contract_method =
  cm_method :: router_method
  cm_selector :: bytes
  cm_args :: "(string \<times> string) list"

text \<open>A transaction with the fields and the terms that describe it before and after the group.\<close>

record group_txn =
  gt_txn :: pyval
  gt_txid :: string
  gt_pre_fields :: subst
  gt_post_fields :: subst
  gt_pre :: kinner
  gt_post :: kinner

record method_proof =
  mp_claim_name :: string
  mp_accounts :: "symbolic_account list"
  mp_txns :: "group_txn list"
  mp_preconditions :: "kinner list"
  mp_postconditions :: "kinner list"
  mp_python_src_preconditions :: "string list"
  mp_python_src_postconditions :: "string list"

text \<open>What the loop runs with: the parameters of transactions, the two accounts, the asset and the application.\<close>

record method_context =
  mc_env :: proof_env
  mc_sp :: pyval
  mc_creator :: symbolic_account
  mc_app :: symbolic_account
  mc_asset_id :: int
  mc_app_id :: int

section \<open>Transactions of the group\<close>

definition suggested_params :: "sdk \<Rightarrow> pyval res" where
  "suggested_params S = new_txn S ''SuggestedParams''
     [(''fee'', PInt 1000), (''first'', PInt 0), (''last'', PInt 1),
      (''gh'', PStr ''KAVMKAVMKAVMKAVMKAVMKAVMKAVMKAVMKAVMKAVMKAVM''), (''flat_fee'', PBool True)]"

definition address_attr :: "proof_env \<Rightarrow> pyval \<Rightarrow> string \<Rightarrow> kinner res" where
  "address_attr E txn a = bind_res (py_attr txn a) (algorand_address_to_k_bytes (pe_pyk E) (pe_sdk E))"

definition describe_txn :: "proof_env \<Rightarrow> pyval \<Rightarrow> string \<Rightarrow> subst \<Rightarrow> subst \<Rightarrow> group_txn res" where
  "describe_txn E txn txid pre post =
     bind_res (transaction_k_term (pe_pyk E) (pe_sdk E) (pe_definition E) txn txid pre) (\<lambda>t.
     map_res (\<lambda>u. \<lparr>gt_txn = txn, gt_txid = txid, gt_pre_fields = pre, gt_post_fields = post, gt_pre = t, gt_post = u\<rparr>)
       (transaction_k_term (pe_pyk E) (pe_sdk E) (pe_definition E) txn txid post))"

text \<open>A payment or a transfer: symbolic amount, group index 0, concrete sender and receiver.\<close>

definition transfer_fields :: "proof_env \<Rightarrow> string \<Rightarrow> string \<Rightarrow> kinner \<Rightarrow> pyval \<Rightarrow> subst res" where
  "transfer_fields E amount_cell receiver_cell amount txn =
     bind_res (address_attr E txn ''sender'') (\<lambda>sender.
     map_res (\<lambda>receiver. [(amount_cell, amount), (''GROUPIDX_CELL'', intToken (pe_pyk E) 0), (''SENDER_CELL'', sender),
         (receiver_cell, receiver)])
       (address_attr E txn ''receiver''))"

definition transfer_txn :: "proof_env \<Rightarrow> string \<Rightarrow> string \<Rightarrow> kinner \<Rightarrow> pyval \<Rightarrow> group_txn res" where
  "transfer_txn E amount_cell receiver_cell amount txn =
     bind_res (transfer_fields E amount_cell receiver_cell amount txn) (\<lambda>fields.
     describe_txn E txn ''0'' fields (fields @ [(''RESUME_CELL'', KVariable ''?_'' None)]))"

definition payment_argument :: "method_context \<Rightarrow> kinner \<Rightarrow> group_txn res" where
  "payment_argument C amount =
     bind_res (new_txn (pe_sdk (mc_env C)) ''PaymentTxn''
       [(''sender'', sa_address (mc_creator C)), (''receiver'', sa_address (mc_app C)), (''sp'', mc_sp C),
        (''amt'', PInt 1000)])
     (transfer_txn (mc_env C) ''AMOUNT_CELL'' ''RECEIVER_CELL'' amount)"

definition asset_transfer_argument :: "method_context \<Rightarrow> kinner \<Rightarrow> group_txn res" where
  "asset_transfer_argument C amount =
     bind_res (new_txn (pe_sdk (mc_env C)) ''AssetTransferTxn''
       [(''sender'', sa_address (mc_creator C)), (''receiver'', sa_address (mc_app C)), (''sp'', mc_sp C),
        (''index'', PInt (mc_asset_id C)), (''amt'', PInt 0)])
     (transfer_txn (mc_env C) ''ASSETAMOUNT_CELL'' ''ASSETRECEIVER_CELL'' amount)"

section \<open>Arguments of a method\<close>

definition int_variable :: "string \<Rightarrow> kinner" where
  "int_variable name = KVariable (upper name) (Some ''Int'')"

text \<open>
  The application argument (none for a transaction), the precondition and the transaction
  (none for a number) of an argument. Any other type ends the program.
\<close>

definition method_argument :: "method_context \<Rightarrow> string \<times> string \<Rightarrow> (kinner list \<times> kinner \<times> group_txn list) res" where
  "method_argument C = (\<lambda>(name, ty).
     let bounds = in_bounds_uint64 (pe_pyk (mc_env C)); amount = int_variable (name @ ''_AMOUNT'') in
     if ty = ''uint64'' then Inr ([int_2_bytes (int_variable name)], bounds (int_variable name), [])
     else if ty = ''pay'' then map_res (\<lambda>t. ([], bounds amount, [t])) (payment_argument C amount)
     else if ty = ''axfer'' then map_res (\<lambda>t. ([], bounds amount, [t])) (asset_transfer_argument C amount)
     else Inl (SystemExit 1))"

text \<open>The call of the method itself comes last, with group index 1.\<close>

definition application_call :: "method_context \<Rightarrow> bytes \<Rightarrow> kinner list \<Rightarrow> group_txn res" where
  "application_call C selector app_args =
     (let E = mc_env C; anything = KVariable ''?_'' None in
      bind_res (new_txn (pe_sdk E) ''ApplicationCallTxn''
        [(''sender'', sa_address (mc_creator C)), (''index'', PInt (mc_app_id C)), (''on_complete'', PInt 0),
         (''sp'', mc_sp C), (''app_args'', PList [PBytes selector])]) (\<lambda>txn.
      bind_res (generate_tvalue_list app_args) (\<lambda>tvalues.
      bind_res (address_attr E txn ''sender'') (\<lambda>sender.
      describe_txn E txn ''1''
        [(''APPLICATIONARGS_CELL'', tvalues), (''GROUPIDX_CELL'', intToken (pe_pyk E) 1), (''SENDER_CELL'', sender)]
        [(''SENDER_CELL'', sender), (''APPLICATIONARGS_CELL'', tvalues), (''GROUPIDX_CELL'', intToken (pe_pyk E) 1),
         (''TXSCRATCH_CELL'', anything), (''LOGDATA_CELL'', KVariable ''?FINAL_LOGDATA_CELL'' None),
         (''LOGSIZE_CELL'', anything), (''RESUME_CELL'', anything)]))))"

text \<open>The preconditions of the arguments are appended to the method's own list, which the contract keeps.\<close>

definition build_method_proof ::
    "method_context \<Rightarrow> string \<Rightarrow> contract_method \<Rightarrow> hoare_method \<Rightarrow> (hoare_method \<times> method_proof) res" where
  "build_method_proof C contract_name cm h =
     bind_res (mapM_res (method_argument C) (cm_args cm)) (\<lambda>rs.
     let app_args = method_selector_to_k_bytes (pe_pyk (mc_env C)) (cm_selector cm) # concat (map fst rs);
         h' = h\<lparr>m_preconditions := m_preconditions h @ map (\<lambda>r. fst (snd r)) rs\<rparr>
     in map_res (\<lambda>call. (h', \<lparr>mp_claim_name = contract_name @ ''-'' @ m_name (cm_method cm),
            mp_accounts = [mc_creator C, mc_app C],
            mp_txns = concat (map (\<lambda>r. snd (snd r)) rs) @ [call],
            mp_preconditions = m_preconditions h', mp_postconditions = m_postconditions h',
            mp_python_src_preconditions = m_python_src_preconditions h',
            mp_python_src_postconditions = m_python_src_postconditions h'\<rparr>))
          (application_call C (cm_selector cm) app_args))"

section \<open>The methods of a contract\<close>

text \<open>Methods that are not marked are skipped; of two with one name the later one counts.\<close>

fun build_proofs ::
    "method_context \<Rightarrow> string \<Rightarrow> contract_method list \<Rightarrow> (string, method_proof) dict \<Rightarrow>
     (contract_method list \<times> (string, method_proof) dict) res" where
  "build_proofs C contract_name [] proofs = Inr ([], proofs)"
| "build_proofs C contract_name (cm # cms) proofs =
     (case m_hoare (cm_method cm) of
        None \<Rightarrow> map_res (\<lambda>(cms', ps). (cm # cms', ps)) (build_proofs C contract_name cms proofs)
      | Some h \<Rightarrow>
          bind_res (build_method_proof C contract_name cm h) (\<lambda>(h', p).
          map_res (\<lambda>(cms', ps). (cm\<lparr>cm_method := Method (m_name (cm_method cm)) (Some h')\<rparr> # cms', ps))
            (build_proofs C contract_name cms (dict_set proofs (m_name (cm_method cm)) p))))"

text \<open>The creator's cell gets the two programs, and the first asset of the application's account is the asset.\<close>

definition set_programs :: "(kinner \<Rightarrow> string \<Rightarrow> kinner \<Rightarrow> kinner) \<Rightarrow> kinner \<Rightarrow> kinner \<Rightarrow> symbolic_account \<Rightarrow> symbolic_account" where
  "set_programs set_cell approval clear acc = acc\<lparr>sa_cell :=
     set_cell (set_cell (sa_cell acc) ''APPROVALPGMSRC_CELL'' approval) ''CLEARSTATEPGMSRC_CELL'' clear\<rparr>"

definition first_asset :: "symbolic_account \<Rightarrow> int res" where
  "first_asset acc = (case dict_keys (sa_assets acc) of [] \<Rightarrow> Inl IndexError | i # _ \<Rightarrow> Inr i)"

text \<open>
  The programs of the contract are written to the directory of the prover, parsed and
  preprocessed. The labels, of which there are none, are numbered by equations that nothing uses.
\<close>

definition write_to_file :: "files \<Rightarrow> string \<Rightarrow> string \<Rightarrow> files" where
  "write_to_file fs path program = dict_set fs path program"

definition load_program :: "proof_env \<Rightarrow> (string \<Rightarrow> string) \<Rightarrow> files \<Rightarrow> string \<Rightarrow> (kinner list \<times> kinner) res" where
  "load_program E dq fs path =
     bind_res (parse_teal (pe_tools E) fs (Some path)) (\<lambda>k.
     bind_res (kore_to_kast (pe_tools E) k) (preprocess_with_labels (pe_pyk E) dq))"

definition label_equations :: "proof_env \<Rightarrow> kinner list \<Rightarrow> kinner list" where
  "label_equations E labels = map (\<lambda>(i, l). KApply ''_==Int_'' [l, intToken (pe_pyk E) (int i)])
     (zip [0..<length (remove_duplicates E labels)] (remove_duplicates E labels))"

text \<open>\<open>contract_pgms\<close> are the approval and the clear state program the router compiled.\<close>

definition contract_proofs ::
    "proof_env \<Rightarrow> (string \<Rightarrow> string) \<Rightarrow> (kinner \<Rightarrow> string \<Rightarrow> kinner \<Rightarrow> kinner) \<Rightarrow> files \<Rightarrow> string \<Rightarrow> string \<times> string \<Rightarrow>
     symbolic_account \<Rightarrow> symbolic_account \<Rightarrow> int \<Rightarrow> string \<Rightarrow> contract_method list \<Rightarrow>
     (contract_method list \<times> (string, method_proof) dict) res" where
  "contract_proofs E dq set_cell fs use_directory contract_pgms creator app app_id contract_name methods =
     (let approval_path = path_join use_directory ''approval.teal''; clear_path = path_join use_directory ''clear.teal'';
          fs' = write_to_file (write_to_file fs approval_path (fst contract_pgms)) clear_path (snd contract_pgms) in
      bind_res (suggested_params (pe_sdk E)) (\<lambda>sp.
      bind_res (load_program E dq fs' approval_path) (\<lambda>(approval_labels, approval).
      bind_res (load_program E dq fs' clear_path) (\<lambda>(clear_labels, clear).
      bind_res (first_asset app) (\<lambda>asset_id.
      build_proofs \<lparr>mc_env = E, mc_sp = sp, mc_creator = set_programs set_cell approval clear creator, mc_app = app,
          mc_asset_id = asset_id, mc_app_id = app_id\<rparr> contract_name methods [])))))"

text \<open>\<open>prove\<close> and \<open>simulate\<close> of the prover look a proof up by the method's name; \<open>KAVMProof\<close> has no \<open>simulate\<close>.\<close>

definition auto_prove :: "(method_proof \<Rightarrow> unit res) \<Rightarrow> (string, method_proof) dict \<Rightarrow> string \<Rightarrow> unit res" where
  "auto_prove prove_proof proofs method_name = bind_res (of_option KeyError (dict_get proofs method_name)) prove_proof"

definition auto_simulate :: "(string, method_proof) dict \<Rightarrow> string \<Rightarrow> unit res" where
  "auto_simulate proofs method_name = bind_res (of_option KeyError (dict_get proofs method_name)) (\<lambda>_. Inl AttributeError)"

section \<open>The group of a method\<close>

definition transaction_argument :: "string \<times> string \<Rightarrow> bool" where
  "transaction_argument a = (snd a \<in> {''pay'', ''axfer''})"

text \<open>The variable an argument is known by, and the application arguments of the numbers.\<close>

definition argument_variable :: "string \<times> string \<Rightarrow> kinner" where
  "argument_variable a = int_variable (if snd a = ''uint64'' then fst a else fst a @ ''_AMOUNT'')"

definition number_arguments :: "(string \<times> string) list \<Rightarrow> kinner list" where
  "number_arguments as = map (\<lambda>a. int_2_bytes (int_variable (fst a))) (filter (\<lambda>a. snd a = ''uint64'') as)"

lemma describe_txn_fields:
  "describe_txn E txn txid pre post = Inr t \<Longrightarrow> gt_txid t = txid \<and> gt_pre_fields t = pre \<and> gt_post_fields t = post"
  by (auto simp: describe_txn_def res_iff)

lemma transfer_txn_fields:
  assumes "transfer_txn E amount_cell receiver_cell amount txn = Inr t"
    and "amount_cell \<noteq> ''GROUPIDX_CELL''"
  shows "gt_txid t = ''0'' \<and> dict_get (gt_pre_fields t) ''GROUPIDX_CELL'' = Some (intToken (pe_pyk E) 0)"
  using assms describe_txn_fields by (fastforce simp: transfer_txn_def transfer_fields_def res_iff)

text \<open>What one argument contributes.\<close>

lemma method_argument_result:
  assumes "method_argument C a = Inr (args, pre, txns)"
  shows "snd a \<in> {''uint64'', ''pay'', ''axfer''} \<and> args = number_arguments [a] \<and>
    pre = in_bounds_uint64 (pe_pyk (mc_env C)) (argument_variable a) \<and>
    length txns = (if transaction_argument a then 1 else 0) \<and>
    (\<forall>t \<in> set txns. gt_txid t = ''0'' \<and>
       dict_get (gt_pre_fields t) ''GROUPIDX_CELL'' = Some (intToken (pe_pyk (mc_env C)) 0))"
proof -
  obtain name ty where a: "a = (name, ty)" by (cases a)
  have pay: "gt_txid t = ''0'' \<and> dict_get (gt_pre_fields t) ''GROUPIDX_CELL'' = Some (intToken (pe_pyk (mc_env C)) 0)"
    if "payment_argument C v = Inr t \<or> asset_transfer_argument C v = Inr t" for v t
    using that transfer_txn_fields by (auto simp: payment_argument_def asset_transfer_argument_def res_iff)
  consider "ty = ''uint64''" | "ty = ''pay''" | "ty = ''axfer''"
    using assms by (auto simp: a method_argument_def Let_def split: if_splits)
  then show ?thesis
    using assms pay [OF disjI1] pay [OF disjI2]
    by cases (auto simp: a method_argument_def Let_def number_arguments_def argument_variable_def transaction_argument_def res_iff)
qed

lemma method_arguments_result:
  assumes "mapM_res (method_argument C) as = Inr rs"
  shows "list_all (\<lambda>a. snd a \<in> {''uint64'', ''pay'', ''axfer''}) as \<and>
    concat (map fst rs) = number_arguments as \<and>
    map (\<lambda>r. fst (snd r)) rs = map (\<lambda>a. in_bounds_uint64 (pe_pyk (mc_env C)) (argument_variable a)) as \<and>
    length (concat (map (\<lambda>r. snd (snd r)) rs)) = length (filter transaction_argument as) \<and>
    (\<forall>t \<in> set (concat (map (\<lambda>r. snd (snd r)) rs)). gt_txid t = ''0'' \<and>
       dict_get (gt_pre_fields t) ''GROUPIDX_CELL'' = Some (intToken (pe_pyk (mc_env C)) 0))"
  using assms
proof (induction as arbitrary: rs)
  case Nil
  then show ?case by (simp add: number_arguments_def)
next
  case (Cons a as)
  from Cons.prems obtain r rs' where r: "method_argument C a = Inr r" and rs': "mapM_res (method_argument C) as = Inr rs'"
    and rs: "rs = r # rs'" by (auto simp: res_iff)
  obtain args pre txns where r3: "r = (args, pre, txns)" by (cases r) auto
  from method_argument_result [OF r [unfolded r3]] Cons.IH [OF rs'] show ?case
    by (auto simp: rs r3 number_arguments_def)
qed

text \<open>An argument of another type ends the program, if those before it are in order.\<close>

lemma mapM_res_first_error:
  "mapM_res f xs = Inr ys \<Longrightarrow> f x = Inl e \<Longrightarrow> mapM_res f (xs @ x # zs) = Inl e"
  by (induction xs arbitrary: ys) (auto simp: res_iff)

theorem unsupported_argument:
  assumes "cm_args cm = as @ (name, ty) # bs" and "ty \<notin> {''uint64'', ''pay'', ''axfer''}"
    and "mapM_res (method_argument C) as = Inr rs"
  shows "build_method_proof C contract_name cm h = Inl (SystemExit 1)"
proof -
  have "method_argument C (name, ty) = Inl (SystemExit 1)" using assms(2) by (simp add: method_argument_def Let_def)
  from mapM_res_first_error [OF assms(3) this] show ?thesis by (simp add: build_method_proof_def assms(1))
qed

lemma application_call_result:
  assumes "application_call C selector app_args = Inr t"
  shows "gt_txid t = ''1'' \<and> dict_get (gt_pre_fields t) ''GROUPIDX_CELL'' = Some (intToken (pe_pyk (mc_env C)) 1) \<and>
    (\<exists>tvalues. generate_tvalue_list app_args = Inr tvalues \<and>
       dict_get (gt_pre_fields t) ''APPLICATIONARGS_CELL'' = Some tvalues)"
  using assms describe_txn_fields by (fastforce simp: application_call_def Let_def res_iff)

lemma str_0_1: "str_of_int 0 = ''0''" "str_of_int 1 = ''1''"
  by code_simp+

lemma str_of_int_one: "str_of_int i = ''1'' \<Longrightarrow> i = 1"
  using int_of_str_of_int [of i] int_of_str_of_int [of 1] by (simp add: str_0_1 del: int_of_str_of_int)


section \<open>A method to prove\<close>

text \<open>The reference SDK with transactions that have all their attributes.\<close>

definition txn_class_type :: "string \<Rightarrow> string" where
  "txn_class_type c = (if c = ''PaymentTxn'' then ''pay'' else if c = ''AssetTransferTxn'' then ''axfer'' else ''appl'')"

definition full_txn :: "string \<Rightarrow> pydict \<Rightarrow> pyval res" where
  "full_txn c kw = Inr (PObj c (kw @ [(''fee'', PInt 1000), (''first_valid_round'', PInt 0), (''last_valid_round'', PInt 1),
     (''genesis_hash'', PStr ''KAVM''), (''genesis_id'', PNone), (''type'', PStr (txn_class_type c)), (''group'', PNone),
     (''lease'', PNone), (''rekey_to'', PNone), (''amount'', PInt 0), (''accounts'', PNone), (''approval_program'', PNone),
     (''clear_program'', PNone), (''foreign_apps'', PNone), (''foreign_assets'', PNone), (''global_schema'', PNone),
     (''local_schema'', PNone), (''extra_pages'', PInt 0)]))"

definition sample_account :: symbolic_account where
  "sample_account = \<lparr>sa_address = PStr ZERO_ADDRESS, sa_dict = PDict [], sa_cell = KConst ''.K'', sa_apps = [],
     sa_assets = [(7, KConst ''.K'')], sa_vars = []\<rparr>"

definition sample_context :: method_context where
  "sample_context = \<lparr>mc_env = (sample_env (KConst ''#Top''))\<lparr>pe_sdk := ref_sdk\<lparr>new_txn := full_txn\<rparr>\<rparr>, mc_sp = PNone,
     mc_creator = sample_account, mc_app = sample_account, mc_asset_id = 7, mc_app_id = 1\<rparr>"

definition sample_mint :: contract_method where
  "sample_mint = \<lparr>cm_method = Method ''mint'' (Some no_conditions), cm_selector = [1, 2, 3, 4],
     cm_args = [(''payment'', ''pay''), (''limit'', ''uint64'')]\<rparr>"

lemma sample_address:
  "algorand_address_to_k_bytes ref_pyk (ref_sdk\<lparr>new_txn := f\<rparr>) (PStr ZERO_ADDRESS) = Inr (bytesToken ref_pyk (replicate 32 0))"
  using ref_zero_address by (simp add: algorand_address_to_k_bytes_def)

lemmas sample_context_defs = sample_context_def sample_env_def sample_account_def full_txn_def txn_class_type_def

lemma sample_payment_argument: "\<exists>t. payment_argument sample_context (int_variable n) = Inr t"
  by (simp add: payment_argument_def sample_context_defs transfer_txn_def transfer_fields_def address_attr_def
      sample_address describe_txn_def transaction_k_term_def header_entries_def eval_entries_def attr_tvalue_def
      token_or_expr_def rekey_token_def txn_type_text_def txn_type_to_type_enum_def type_specific_def pay_entries_def)

lemma sample_call: "\<exists>t. application_call sample_context sel [a, b] = Inr t"
  by (simp add: application_call_def Let_def sample_context_defs address_attr_def
      sample_address describe_txn_def transaction_k_term_def header_entries_def eval_entries_def attr_tvalue_def
      token_or_expr_def rekey_token_def txn_type_text_def txn_type_to_type_enum_def type_specific_def appl_entries_def
      unless_None_def list_attr_def list_or_empty_def schema_attr_def program_src_def tvalue_list_def tvalue_bytes_list_def)

lemma sample_method_proof: "\<exists>r. build_method_proof sample_context ''KCoinVault'' sample_mint no_conditions = Inr r"
proof -
  obtain t where t: "payment_argument sample_context (int_variable (''payment'' @ ''_AMOUNT'')) = Inr t"
    using sample_payment_argument by blast
  obtain call where c: "application_call sample_context [1, 2, 3, 4]
      [method_selector_to_k_bytes ref_pyk [1, 2, 3, 4], int_2_bytes (int_variable ''limit'')] = Inr call"
    using sample_call by blast
  have P: "pe_pyk (mc_env sample_context) = ref_pyk" by (simp add: sample_context_defs)
  show ?thesis
    using t c by (simp add: build_method_proof_def method_argument_def sample_mint_def P Let_def)
qed



section \<open>The meaning of a number argument\<close>

text \<open>The opcode \<open>btoi\<close>, and the range condition with K's macro \<open>MAX_UINT64\<close> expanded.\<close>

definition bytes_value :: "bytes \<Rightarrow> nat" where
  "bytes_value bs = foldl (\<lambda>n b. n * 256 + unat b) 0 bs"

definition btoi :: "bytes \<Rightarrow> 64 word option" where
  "btoi bs = (if int (bytes_value bs) \<le> MAX_UINT64 then Some (word_of_nat (bytes_value bs)) else None)"

primrec expand_macros :: "kinner \<Rightarrow> kinner" where
  "expand_macros (KApply f as) = KApply f (map expand_macros as)"
| "expand_macros (KToken tok s) = (if tok = ''MAX_UINT64'' then KToken (str_of_int MAX_UINT64) ''Int'' else KToken tok s)"
| "expand_macros (KVariable n s) = KVariable n s"
| "expand_macros (KRewrite a b) = KRewrite (expand_macros a) (expand_macros b)"
| "expand_macros KOther = KOther"

definition k_conjunction :: "(string \<Rightarrow> int) \<Rightarrow> kinner \<Rightarrow> bool option" where
  "k_conjunction \<kappa> t = (case expand_macros t of
       KApply f [a, b] \<Rightarrow>
         if f = ''_andBool_'' then
           (case (k_bool \<kappa> a, k_bool \<kappa> b) of (Some x, Some y) \<Rightarrow> Some (x \<and> y) | _ \<Rightarrow> None)
         else None
     | _ \<Rightarrow> None)"

lemma bytes_value_be_bytes: "bytes_value (be_bytes n) = n"
proof (induction n rule: be_bytes.induct)
  case (1 n)
  have "unat (word_of_nat (n mod 256) :: 8 word) = n mod 256" by (simp add: unat_of_nat)
  then show ?case
    using 1 by (cases "n = 0") (simp_all add: be_bytes_simps bytes_value_def)
qed

lemma be_bytes_itob: "be_bytes (unat w) = itob w \<longleftrightarrow> 2 ^ 56 \<le> unat w"
proof -
  have "pad_left 8 0 (be_bytes (unat w)) = itob w" using itob_padded [of w] by (simp add: pad_left_bytes_def)
  then have pad: "replicate (8 - length (be_bytes (unat w))) 0 @ be_bytes (unat w) = itob w"
    by (simp add: pad_left_def)
  have "be_bytes (unat w) = itob w \<longleftrightarrow> \<not> length (be_bytes (unat w)) \<le> 7"
  proof
    assume "be_bytes (unat w) = itob w"
    then show "\<not> length (be_bytes (unat w)) \<le> 7" by simp
  next
    assume "\<not> length (be_bytes (unat w)) \<le> 7"
    then have "8 - length (be_bytes (unat w)) = 0" by simp
    with pad show "be_bytes (unat w) = itob w" by (simp only: replicate_0 append_Nil)
  qed
  then show ?thesis by (simp add: be_bytes_length not_less)
qed

text \<open>
  C36: what the proof assumes of a number argument is what the contract is given. The range
  condition holds exactly of the values of 64-bit words, and the application argument then
  evaluates to bytes from which \<open>btoi\<close> reads that word. They are the eight bytes of its ABI
  encoding only for words from 2 to the power 56 on; smaller numbers have fewer bytes.
\<close>

theorem number_argument_meaning:
  assumes "pyk_token_law P"
  shows "k_conjunction \<kappa> (in_bounds_uint64 P (int_variable name)) =
      Some (\<exists>w :: 64 word. \<kappa> (upper name) = uint w) \<and>
    (\<kappa> (upper name) = uint (w :: 64 word) \<longrightarrow>
      (\<exists>bs. k_bytes lit \<kappa> \<beta> (int_2_bytes (int_variable name)) = Some bs \<and> btoi bs = Some w \<and>
        (bs = itob w \<longleftrightarrow> 2 ^ 56 \<le> unat w)))"
proof -
  have range: "(\<exists>w :: 64 word. i = uint w) \<longleftrightarrow> 0 \<le> i \<and> i \<le> MAX_UINT64" for i
    using uint_max uint_of_bounded [of i] by (metis uint_ge_0)
  have zero: "int_of_str ''0'' = Inr 0" using int_of_str_of_int [of 0] by (simp only: str_0_1)
  have "k_bool \<kappa> (expand_macros (KApply ''_>=Int_'' [int_variable name, intToken P 0])) = Some (0 \<le> \<kappa> (upper name))"
    "k_bool \<kappa> (expand_macros (KApply ''_<=Int_'' [int_variable name, KToken ''MAX_UINT64'' ''Int''])) =
       Some (\<kappa> (upper name) \<le> MAX_UINT64)"
    using assms by (simp_all add: k_bool_def k_compare_def int_variable_def pyk_token_law_def str_0_1 zero)
  then have "k_conjunction \<kappa> (in_bounds_uint64 P (int_variable name)) = Some (\<exists>w :: 64 word. \<kappa> (upper name) = uint w)"
    unfolding range by (simp add: k_conjunction_def in_bounds_uint64_def)
  moreover have "k_bytes lit \<kappa> \<beta> (int_2_bytes (int_variable name)) = Some (be_bytes (unat w))"
    if "\<kappa> (upper name) = uint w"
    using that by (simp add: int_2_bytes_def int_variable_def int_to_bytes_def)
  moreover have "btoi (be_bytes (unat w)) = Some w"
    using uint_max [of w] by (simp add: btoi_def bytes_value_be_bytes)
  ultimately show ?thesis using be_bytes_itob by simp
qed

theorem number_argument_meaning_witness:
  "\<exists>bs. k_bytes sample_lit (\<lambda>n. 300) (\<lambda>n. []) (int_2_bytes (int_variable ''limit'')) = Some bs \<and> btoi bs = Some 300 \<and>
     bs \<noteq> itob 300"
  using number_argument_meaning [OF ref_token_law, of "\<lambda>n. 300" "''limit''" 300 sample_lit "\<lambda>n. []"] by auto

end
