(* ===== verification/CalculatorSpec.thy ===== *)
theory CalculatorSpec
  imports MethodProof
begin

text \<open>
  \<open>proofs/create_pyteal_contract.py\<close>: a calculator contract with specifications of its two methods
  written by hand as K terms. The script imports \<open>MethodWithSpec\<close>, a name \<open>kavm/prover.py\<close> does
  not define, so it cannot run; here its contract and its terms are compared.
\<close>

section \<open>The contract\<close>

text \<open>
  What the two methods return on the AVM: the sum of the arguments, and the amount of the payment,
  which must go to the application. \<open>None\<close> is a call that fails.
\<close>

definition add_method :: "64 word \<Rightarrow> 64 word \<Rightarrow> 64 word option" where
  "add_method a b = avm_arith Op_add a b"

definition donate_method :: "bytes \<Rightarrow> bytes \<Rightarrow> 64 word \<Rightarrow> 64 word option" where
  "donate_method current_application_address receiver amount =
     (if receiver = current_application_address then Some amount else None)"

section \<open>The specifications\<close>

text \<open>The prefix is written with its escapes, as a text.\<close>

definition escaped_prefix :: string where
  "escaped_prefix = [CHR 0x5C] @ ''x15'' @ [CHR 0x5C] @ ''x1f|u''"

definition logs_value :: "pyk \<Rightarrow> kinner \<Rightarrow> kinner res" where
  "logs_value P int_term = map_res (\<lambda>prefix.
     KApply ''_==K_'' [KVariable ''?FINAL_LOGDATA_CELL'' None,
       KApply ''_+Bytes_'' [prefix,
         KApply ''padLeftBytes''
           [KApply ''Int2Bytes'' [int_term, KToken ''BE'' ''Endianness'', KToken ''Unsigned'' ''Signedness''],
            intToken P 8, intToken P 0]]])
     (bytesToken_str P escaped_prefix)"

definition sum_A_B :: kinner where
  "sum_A_B = KApply ''_+Int_'' [KVariable ''A'' None, KVariable ''B'' None]"

definition add_precondition :: "pyk \<Rightarrow> kinner" where
  "add_precondition P = in_bounds_uint64 P sum_A_B"

definition add_postcondition_term :: "pyk \<Rightarrow> kinner res" where
  "add_postcondition_term P = logs_value P sum_A_B"

definition donate_precondition :: "pyk \<Rightarrow> kinner" where
  "donate_precondition P = KApply ''_<=Int_'' [KVariable ''PAYMENT'' None, intToken P 100000]"

definition donate_postcondition_term :: "pyk \<Rightarrow> kinner res" where
  "donate_postcondition_term P = logs_value P (KVariable ''PAYMENT'' None)"

section \<open>They fit the contract\<close>

definition escaped_literal :: "pyk \<Rightarrow> (string \<Rightarrow> bytes option) \<Rightarrow> bool" where
  "escaped_literal P lit \<longleftrightarrow>
     (\<exists>q. bytesToken_str P escaped_prefix = Inr (KToken q ''Bytes'') \<and> lit q = Some return_prefix)"

lemma logs_value_meaning:
  assumes "pyk_token_law P" and "escaped_literal P lit" and "k_int \<kappa> u = Some (uint (w :: 64 word))"
  shows "\<exists>t. logs_value P u = Inr t \<and> (\<forall>entry. k_equation lit \<kappa> (\<lambda>v. entry) t = Some (entry = return_prefix @ itob w))"
proof -
  from assms(2) obtain q where q: "bytesToken_str P escaped_prefix = Inr (KToken q ''Bytes'')"
    and lit: "lit q = Some return_prefix" unfolding escaped_literal_def by blast
  have tokens: "k_int \<kappa> (intToken P 8) = Some 8" "k_int \<kappa> (intToken P 0) = Some 0"
    using assms(1) by (simp_all add: pyk_token_law_def)
  have "int_to_bytes (uint w) = Some (be_bytes (unat w))" by (simp add: int_to_bytes_def)
  then show ?thesis
    using q lit tokens assms(3) itob_padded [of w] by (simp add: logs_value_def k_equation_def)
qed

text \<open>
  The hand-written specifications are those of the contract. The precondition of \<open>add\<close> is true
  of two 64-bit arguments just when the AVM adds them without overflow, and then its
  postcondition is true of one last log entry: the prefix and the sum in eight bytes. The
  precondition of \<open>donate\<close> bounds the amount; when the method accepts the payment, its
  postcondition is true of the prefix and the amount only.
\<close>

theorem calculator_spec_exact:
  fixes a b amount :: "64 word"
  assumes "pyk_token_law P" and "escaped_literal P lit"
    and "\<kappa> ''A'' = uint a" and "\<kappa> ''B'' = uint b" and "\<kappa> ''PAYMENT'' = uint amount"
  shows "k_conjunction \<kappa> (add_precondition P) = Some (add_method a b \<noteq> None) \<and>
    (\<forall>w. add_method a b = Some w \<longrightarrow> (\<exists>t. add_postcondition_term P = Inr t \<and>
       (\<forall>entry. k_equation lit \<kappa> (\<lambda>v. entry) t = Some (entry = return_prefix @ itob w)))) \<and>
    k_bool \<kappa> (donate_precondition P) = Some (uint amount \<le> 100000) \<and>
    (\<forall>w. donate_method app receiver amount = Some w \<longrightarrow> (\<exists>t. donate_postcondition_term P = Inr t \<and>
       (\<forall>entry. k_equation lit \<kappa> (\<lambda>v. entry) t = Some (entry = return_prefix @ itob w))))"
proof (intro conjI allI impI)
  let ?s = "uint a + uint b"
  have s: "k_int \<kappa> sum_A_B = Some ?s" by (simp add: sum_A_B_def assms(3,4) k_arith_def)
  have zero: "int_of_str ''0'' = Inr 0" using int_of_str_of_int [of 0] by (simp only: str_0_1)
  have "k_bool \<kappa> (expand_macros (KApply ''_>=Int_'' [sum_A_B, intToken P 0])) = Some (0 \<le> ?s)"
    "k_bool \<kappa> (expand_macros (KApply ''_<=Int_'' [sum_A_B, KToken ''MAX_UINT64'' ''Int''])) = Some (?s \<le> MAX_UINT64)"
    using assms(1,3,4) by (simp_all add: k_bool_def k_compare_def k_arith_def sum_A_B_def pyk_token_law_def str_0_1 zero)
  then show "k_conjunction \<kappa> (add_precondition P) = Some (add_method a b \<noteq> None)"
    by (simp add: k_conjunction_def add_precondition_def in_bounds_uint64_def add_method_def)
  show "\<exists>t. add_postcondition_term P = Inr t \<and>
       (\<forall>entry. k_equation lit \<kappa> (\<lambda>v. entry) t = Some (entry = return_prefix @ itob w))"
    if "add_method a b = Some w" for w
  proof -
    have "uint w = ?s" using that uint_of_bounded [of ?s] by (auto simp: add_method_def split: if_splits)
    then show ?thesis
      unfolding add_postcondition_term_def using s by (intro logs_value_meaning [OF assms(1,2)]) simp
  qed
  show "k_bool \<kappa> (donate_precondition P) = Some (uint amount \<le> 100000)"
    using assms(1,5) by (simp add: k_bool_def k_compare_def donate_precondition_def pyk_token_law_def)
  show "\<exists>t. donate_postcondition_term P = Inr t \<and>
       (\<forall>entry. k_equation lit \<kappa> (\<lambda>v. entry) t = Some (entry = return_prefix @ itob w))"
    if "donate_method app receiver amount = Some w" for w
    unfolding donate_postcondition_term_def using that
    by (intro logs_value_meaning [OF assms(1,2)]) (simp add: assms(5) donate_method_def split: if_splits)
qed

text \<open>K's reading of the reference library's tokens, whose texts keep their escapes here.\<close>

definition escaped_lit :: "string \<Rightarrow> bytes option" where
  "escaped_lit q = sample_lit (unescape q)"

theorem calculator_spec_exact_witness:
  "\<exists>t. add_postcondition_term ref_pyk = Inr t \<and>
     k_equation escaped_lit (\<lambda>n. if n = ''A'' then 40 else 2) (\<lambda>v. return_prefix @ [0, 0, 0, 0, 0, 0, 0, 42]) t = Some True"
proof -
  let ?\<kappa> = "\<lambda>n. if n = ''A'' then 40 else 2 :: int"
  have "(case bytesToken_str ref_pyk escaped_prefix of
      Inr (KToken q s) \<Rightarrow> s = ''Bytes'' \<and> escaped_lit q = Some return_prefix | _ \<Rightarrow> False)" by code_simp
  then have lit: "escaped_literal ref_pyk escaped_lit"
    by (auto simp: escaped_literal_def split: sum.splits kinner.splits)
  have e: "add_method 40 2 = Some 42" by (simp add: add_method_def MAX_UINT64_def)
  have i: "itob 42 = [0, 0, 0, 0, 0, 0, 0, 42]" by code_simp
  have "?\<kappa> ''A'' = uint (40 :: 64 word)" "?\<kappa> ''B'' = uint (2 :: 64 word)" "?\<kappa> ''PAYMENT'' = uint (2 :: 64 word)"
    by simp_all
  from calculator_spec_exact [OF ref_token_law lit this] e obtain t where "add_postcondition_term ref_pyk = Inr t"
    and "\<forall>entry. k_equation escaped_lit ?\<kappa> (\<lambda>v. entry) t = Some (entry = return_prefix @ itob 42)"
    by blast
  then show ?thesis unfolding i by auto
qed

end
