(* ===== verification/Profiling.thy ===== *)
theory Profiling
  imports PyStd "HOL-Library.Multiset"
begin

text \<open>
  \<open>profiling/__main__.py\<close>: the table of the functions of KAVM in a profile. The profile is what
  \<open>pstats\<close> returns: for every function name its times and the text of its number of calls.
  Times are of any linear order.
\<close>

section \<open>Paths\<close>

text \<open>
  \<open>os.path.relpath\<close> of a path from the working directory, here given by its components: both are
  made absolute and normalised, the common part is dropped, and what is left of the working
  directory is climbed with \<open>..\<close>.
\<close>

definition path_step :: "string list \<Rightarrow> string \<Rightarrow> string list" where
  "path_step acc c = (if c = '''' \<or> c = ''.'' then acc else if c = ''..'' then butlast acc else acc @ [c])"

definition abs_components :: "string list \<Rightarrow> string \<Rightarrow> string list" where
  "abs_components cwd path =
     foldl path_step [] ((if starts_with ''/'' path then [] else cwd) @ split_on (CHR ''/'') path)"

fun common_length :: "'a list \<Rightarrow> 'a list \<Rightarrow> nat" where
  "common_length (x # xs) (y # ys) = (if x = y then Suc (common_length xs ys) else 0)"
| "common_length _ _ = 0"

definition relative_components :: "string list \<Rightarrow> string list \<Rightarrow> string list" where
  "relative_components start path =
     (let i = common_length start path in replicate (length start - i) ''..'' @ drop i path)"

definition relpath :: "string list \<Rightarrow> string \<Rightarrow> string res" where
  "relpath cwd path =
     (if path = '''' then Inl ValueError
      else let rel = relative_components (abs_components cwd ''.'') (abs_components cwd path)
           in Inr (if rel = [] then ''.'' else join_with ''/'' rel))"

text \<open>The code strips with the current directory as the prefix.\<close>

definition strip_source_file_path_prefix :: "string list \<Rightarrow> string \<Rightarrow> string res" where
  "strip_source_file_path_prefix cwd path = relpath cwd path"

section \<open>Rows\<close>

record 't func_profile =
  ncalls :: string
  cumtime :: 't
  percall_cumtime :: 't
  pf_file_name :: string
  line_number :: int

record 't row = "'t func_profile" +
  row_function :: string

text \<open>\<open>needle in s\<close> for texts.\<close>

fun contains :: "string \<Rightarrow> string \<Rightarrow> bool" where
  "contains needle [] = (needle = [])"
| "contains needle (c # cs) = (starts_with needle (c # cs) \<or> contains needle cs)"

text \<open>
  The row of a function, if its file is one of KAVM's. The path is made relative twice: once
  where it is stored and once more for the name.
\<close>

definition profile_row :: "string list \<Rightarrow> string \<times> 't func_profile \<Rightarrow> 't row list res" where
  "profile_row cwd = (\<lambda>(name, f).
     bind_res (strip_source_file_path_prefix cwd (pf_file_name f)) (\<lambda>file.
     if contains ''kavm'' file then
       map_res (\<lambda>again. [\<lparr>ncalls = ncalls f, cumtime = cumtime f, percall_cumtime = percall_cumtime f,
           pf_file_name = file, line_number = line_number f,
           row_function = again @ '':'' @ str_of_int (line_number f) @ ''['' @ name @ '']''\<rparr>])
         (strip_source_file_path_prefix cwd file)
     else Inr []))"

definition kavm_profiles :: "string list \<Rightarrow> (string \<times> 't func_profile) list \<Rightarrow> 't row list res" where
  "kavm_profiles cwd profiles = map_res concat (mapM_res (profile_row cwd) profiles)"

text \<open>The calls of a recursive function read \<open>total/primitive\<close>.\<close>

definition ncalls_to_int :: "string \<Rightarrow> int res" where
  "ncalls_to_int s = catch_res (int_of_str s) (\<lambda>e. e = ValueError) (\<lambda>_. int_of_str (hd (split_on (CHR ''/'') s)))"

section \<open>Sorting\<close>

text \<open>\<open>sorted(xs, key=key, reverse=True)\<close>: the greatest key first, equal keys in their old order.\<close>

fun insert_desc :: "('a \<Rightarrow> 'k::linorder) \<Rightarrow> 'a \<Rightarrow> 'a list \<Rightarrow> 'a list" where
  "insert_desc key x [] = [x]"
| "insert_desc key x (y # ys) = (if key y \<le> key x then x # y # ys else y # insert_desc key x ys)"

definition sorted_desc :: "('a \<Rightarrow> 'k::linorder) \<Rightarrow> 'a list \<Rightarrow> 'a list" where
  "sorted_desc key xs = foldr (insert_desc key) xs []"

definition sort_rows :: "'t::linorder row list \<Rightarrow> 't row list res" where
  "sort_rows rows = map_res (\<lambda>ns. sorted_desc percall_cumtime (map snd (sorted_desc fst (zip ns rows))))
     (mapM_res (\<lambda>r. ncalls_to_int (ncalls r)) rows)"

record 't table =
  col_function :: "string list"
  col_cumtime :: "'t list"
  col_percall_cumtime :: "'t list"
  col_ncalls :: "string list"

definition table_of :: "'t row list \<Rightarrow> 't table" where
  "table_of rows = \<lparr>col_function = map row_function rows, col_cumtime = map cumtime rows,
     col_percall_cumtime = map percall_cumtime rows, col_ncalls = map ncalls rows\<rparr>"

definition profile_table :: "string list \<Rightarrow> (string \<times> 't::linorder func_profile) list \<Rightarrow> 't table res" where
  "profile_table cwd profiles = bind_res (kavm_profiles cwd profiles) (\<lambda>rows. map_res table_of (sort_rows rows))"

section \<open>The sort is stable\<close>

lemma sorted_desc_simps [simp]:
  "sorted_desc key [] = []"
  "sorted_desc key (x # xs) = insert_desc key x (sorted_desc key xs)"
  by (simp_all add: sorted_desc_def)

lemma mset_insert_desc [simp]: "mset (insert_desc key x xs) = add_mset x (mset xs)"
  by (induction xs) auto

lemma mset_sorted_desc [simp]: "mset (sorted_desc key xs) = mset xs"
  by (induction xs) auto

lemma set_sorted_desc [simp]: "set (sorted_desc key xs) = set xs"
  using mset_sorted_desc by (rule mset_eq_setD)

lemma set_insert_desc [simp]: "set (insert_desc key x xs) = insert x (set xs)"
  using mset_insert_desc [of key x xs] by (metis set_mset_add_mset_insert set_mset_mset)

text \<open>Sorting by a key refines the order the list was in.\<close>

lemma insert_desc_sorted:
  assumes "sorted_wrt (\<lambda>a b. key b < key a \<or> key b = key a \<and> Q a b) ys" and "\<forall>y \<in> set ys. Q x y"
  shows "sorted_wrt (\<lambda>a b. key b < key a \<or> key b = key a \<and> Q a b) (insert_desc key x ys)"
  using assms by (induction ys) (auto simp: le_less intro: order.strict_trans)

lemma sorted_desc_sorted:
  "sorted_wrt Q xs \<Longrightarrow> sorted_wrt (\<lambda>a b. key b < key a \<or> key b = key a \<and> Q a b) (sorted_desc key xs)"
  by (induction xs) (simp_all add: insert_desc_sorted)

lemma insert_desc_filter:
  "(\<And>y. P y \<Longrightarrow> key y = k) \<Longrightarrow> filter P (insert_desc key x ys) = filter P (x # ys)"
  by (induction ys) auto

lemma sorted_desc_filter: "(\<And>y. P y \<Longrightarrow> key y = k) \<Longrightarrow> filter P (sorted_desc key xs) = filter P xs"
proof (induction xs)
  case (Cons x xs)
  have "filter P (insert_desc key x (sorted_desc key xs)) = filter P (x # sorted_desc key xs)"
    by (rule insert_desc_filter) (rule Cons.prems)
  then show ?case using Cons by simp
qed simp

section \<open>The table\<close>

definition calls_of :: "'t row \<Rightarrow> int" where
  "calls_of r = (case ncalls_to_int (ncalls r) of Inr n \<Rightarrow> n | Inl e \<Rightarrow> 0)"

lemma call_numbers:
  assumes "mapM_res (\<lambda>r. ncalls_to_int (ncalls r)) rows = Inr ns"
  shows "map snd (sorted_desc fst (zip ns rows)) = sorted_desc calls_of rows"
proof -
  have z: "zip ns rows = map (\<lambda>r. (calls_of r, r)) rows"
    using assms by (induction rows arbitrary: ns) (auto simp: res_iff calls_of_def)
  have i: "insert_desc fst (calls_of r, r) (map (\<lambda>r. (calls_of r, r)) rs) = map (\<lambda>r. (calls_of r, r)) (insert_desc calls_of r rs)"
    for r :: "'a row" and rs by (induction rs) auto
  have "sorted_desc fst (map (\<lambda>r. (calls_of r, r)) rows) = map (\<lambda>r. (calls_of r, r)) (sorted_desc calls_of rows)"
    by (induction rows) (simp_all add: i)
  then show ?thesis by (simp add: z comp_def)
qed

text \<open>
  The table of a profile. Its rows are those of KAVM's functions, each as often as the
  profile has it; the cumulated time per call decreases from row to row, and among rows of
  equal time the number of calls does; rows equal in both stay in the order of the profile.
  So the table is the one stable sort by time and calls.
\<close>

theorem profile_table_sorted:
  assumes "profile_table cwd profiles = Inr t"
  shows "\<exists>rows srt. kavm_profiles cwd profiles = Inr rows \<and> t = table_of srt \<and> mset srt = mset rows \<and>
    sorted_wrt (\<lambda>a b. percall_cumtime b < percall_cumtime a \<or>
      percall_cumtime b = percall_cumtime a \<and> calls_of b \<le> calls_of a) srt \<and>
    (\<forall>time n. filter (\<lambda>r. percall_cumtime r = time \<and> calls_of r = n) srt =
       filter (\<lambda>r. percall_cumtime r = time \<and> calls_of r = n) rows)"
proof -
  from assms obtain rows ns where rows: "kavm_profiles cwd profiles = Inr rows"
    and ns: "mapM_res (\<lambda>r. ncalls_to_int (ncalls r)) rows = Inr ns"
    and t: "t = table_of (sorted_desc percall_cumtime (map snd (sorted_desc fst (zip ns rows))))"
    by (auto simp: profile_table_def sort_rows_def res_iff)
  let ?srt = "sorted_desc percall_cumtime (sorted_desc calls_of rows)"
  have "sorted_wrt (\<lambda>a b. calls_of b < calls_of a \<or> calls_of b = calls_of a \<and> True) (sorted_desc calls_of rows)"
    by (rule sorted_desc_sorted) (simp add: sorted_wrt_iff_nth_less)
  from sorted_desc_sorted [OF this, of percall_cumtime]
  have "sorted_wrt (\<lambda>a b. percall_cumtime b < percall_cumtime a \<or>
      percall_cumtime b = percall_cumtime a \<and> calls_of b \<le> calls_of a) ?srt"
    by (rule sorted_wrt_mono_rel [rotated]) auto
  moreover have "filter (\<lambda>r. percall_cumtime r = time \<and> calls_of r = n) ?srt =
       filter (\<lambda>r. percall_cumtime r = time \<and> calls_of r = n) rows" for time n
    using sorted_desc_filter [of "\<lambda>r. percall_cumtime r = time \<and> calls_of r = n" percall_cumtime time "sorted_desc calls_of rows"]
      sorted_desc_filter [of "\<lambda>r. percall_cumtime r = time \<and> calls_of r = n" calls_of n rows] by simp
  ultimately show ?thesis
    using rows t by (intro exI [of _ rows] exI [of _ ?srt]) (simp add: call_numbers [OF ns])
qed

text \<open>Three functions, one of them not KAVM's.\<close>

definition sample_profiles :: "(string \<times> nat func_profile) list" where
  "sample_profiles =
     [(''parse'', \<lparr>ncalls = ''3/1'', cumtime = 9, percall_cumtime = 3, pf_file_name = ''/w/kavm/kavm.py'', line_number = 63\<rparr>),
      (''join'', \<lparr>ncalls = ''8'', cumtime = 8, percall_cumtime = 1, pf_file_name = ''/usr/lib/posixpath.py'', line_number = 1\<rparr>),
      (''run'', \<lparr>ncalls = ''7'', cumtime = 21, percall_cumtime = 3, pf_file_name = ''kavm/kavm.py'', line_number = 92\<rparr>)]"

lemma sample_table:
  "\<not> isl (profile_table [''w''] sample_profiles)"
  "map_res col_function (profile_table [''w''] sample_profiles) =
     Inr [''kavm/kavm.py:92[run]'', ''kavm/kavm.py:63[parse]'']"
  by code_simp+

theorem profile_table_sorted_witness:
  "\<exists>t srt. profile_table [''w''] sample_profiles = Inr t \<and> t = table_of srt \<and>
     map row_function srt = [''kavm/kavm.py:92[run]'', ''kavm/kavm.py:63[parse]'']"
proof -
  obtain t where t: "profile_table [''w''] sample_profiles = Inr t"
    using sample_table(1) by (cases "profile_table [''w''] sample_profiles") auto
  from profile_table_sorted [OF t] obtain srt where "t = table_of srt" by blast
  moreover from t sample_table(2) have "col_function t = [''kavm/kavm.py:92[run]'', ''kavm/kavm.py:63[parse]'']" by simp
  ultimately show ?thesis using t by (intro exI [of _ t] exI [of _ srt]) (simp add: table_of_def)
qed

section \<open>Making a path relative twice\<close>

text \<open>Components of a normalised absolute path.\<close>

definition clean :: "string list \<Rightarrow> bool" where
  "clean cs \<longleftrightarrow> (\<forall>c \<in> set cs. c \<noteq> '''' \<and> c \<noteq> ''.'' \<and> c \<noteq> ''..'' \<and> CHR ''/'' \<notin> set c)"

lemma path_steps_clean: "clean cs \<Longrightarrow> foldl path_step acc cs = acc @ cs"
  by (induction cs arbitrary: acc) (auto simp: clean_def path_step_def)

lemma path_steps_up: "foldl path_step acc (replicate n ''..'') = take (length acc - n) acc"
  by (induction n arbitrary: acc) (auto simp: path_step_def butlast_conv_take min_def)

lemma path_steps_result:
  assumes "clean acc" and "\<forall>c \<in> set cs. CHR ''/'' \<notin> set c"
  shows "clean (foldl path_step acc cs)"
  using assms
proof (induction cs arbitrary: acc)
  case (Cons c cs)
  have "clean (path_step acc c)"
    using Cons.prems by (auto simp: clean_def path_step_def dest: in_set_butlastD)
  with Cons show ?case by simp
qed simp

lemma abs_components_clean: "clean cwd \<Longrightarrow> clean (abs_components cwd p)"
  unfolding abs_components_def
  by (rule path_steps_result) (auto simp: clean_def dest: split_on_pieces)

lemma common_prefix: "take (common_length xs ys) xs = take (common_length xs ys) ys"
  by (induction xs ys rule: common_length.induct) auto

lemma common_length_le: "common_length xs ys \<le> length xs \<and> common_length xs ys \<le> length ys"
  by (induction xs ys rule: common_length.induct) auto

lemma clean_drop: "clean p \<Longrightarrow> clean (drop n p)"
  unfolding clean_def by (meson in_set_dropD)

text \<open>Following the relative path from the working directory leads back to the path.\<close>

lemma follow_relative: "clean p \<Longrightarrow> foldl path_step cwd (relative_components cwd p) = p"
proof -
  assume p: "clean p"
  let ?i = "common_length cwd p"
  have "foldl path_step cwd (relative_components cwd p) = foldl path_step (take ?i cwd) (drop ?i p)"
    using common_length_le [of cwd p] by (simp add: relative_components_def Let_def path_steps_up)
  also have "\<dots> = foldl path_step (take ?i p) (drop ?i p)"
    by (subst common_prefix) (rule refl)
  also have "\<dots> = take ?i p @ drop ?i p"
    using p by (intro path_steps_clean clean_drop)
  finally show ?thesis by simp
qed

lemma relative_plain:
  assumes "clean p" and "c \<in> set (relative_components cwd p)"
  shows "c \<noteq> '''' \<and> CHR ''/'' \<notin> set c"
proof -
  have "c = ''..'' \<or> c \<in> set (drop (common_length cwd p) p)"
    using assms(2) unfolding relative_components_def Let_def by (auto simp: in_set_replicate)
  then show ?thesis
  proof
    assume "c = ''..''"
    then show ?thesis by simp
  next
    assume "c \<in> set (drop (common_length cwd p) p)"
    then show ?thesis using clean_drop [OF assms(1)] unfolding clean_def by blast
  qed
qed

lemma abs_relative:
  "clean cwd \<Longrightarrow> \<not> starts_with ''/'' q \<Longrightarrow> abs_components cwd q = foldl path_step cwd (split_on (CHR ''/'') q)"
  using path_steps_clean [of cwd "[]"] by (simp add: abs_components_def)

lemma here: "clean cwd \<Longrightarrow> abs_components cwd ''.'' = cwd"
  using path_steps_clean [of cwd "[]"] by (simp add: abs_components_def path_step_def)

theorem relpath_idempotent:
  assumes "clean cwd" and "relpath cwd p = Inr q"
  shows "relpath cwd q = Inr q"
proof -
  let ?rel = "relative_components cwd (abs_components cwd p)"
  have q: "q = (if ?rel = [] then ''.'' else join_with ''/'' ?rel)"
    using assms by (simp add: relpath_def here Let_def split: if_splits)
  have plain: "\<forall>c \<in> set ?rel. c \<noteq> '''' \<and> CHR ''/'' \<notin> set c"
    using relative_plain [OF abs_components_clean [OF assms(1)]] by blast
  have "q \<noteq> '''' \<and> \<not> starts_with ''/'' q \<and> foldl path_step cwd (split_on (CHR ''/'') q) = abs_components cwd p"
  proof (cases "?rel = []")
    case True
    then have "abs_components cwd p = cwd" using follow_relative [OF abs_components_clean [OF assms(1)], of cwd p] by simp
    then show ?thesis using True by (simp add: q path_step_def)
  next
    case False
    then have s: "split_on (CHR ''/'') q = ?rel" using plain by (simp add: q split_join list_all_iff)
    have "hd ?rel \<noteq> ''''" "CHR ''/'' \<notin> set (hd ?rel)" using plain hd_in_set [OF False] by auto
    then obtain c cs rest where r: "?rel = (c # cs) # rest" "c \<noteq> CHR ''/''"
      using False by (cases ?rel; cases "hd ?rel") auto
    then have "q \<noteq> '''' \<and> \<not> starts_with ''/'' q" unfolding q r(1) by (cases rest) auto
    then show ?thesis using s follow_relative [OF abs_components_clean [OF assms(1)], of cwd p] by simp
  qed
  then have "abs_components cwd q = abs_components cwd p" "q \<noteq> ''''" using abs_relative [OF assms(1)] by simp_all
  then show ?thesis using assms(1) q by (simp add: relpath_def here Let_def)
qed

end
