(* ===== verification/TealValues.thy ===== *)
theory TealValues
  imports KBytes
begin

text \<open>
  TEAL values and the functions on them that the opcodes of the K semantics use, from
  \<open>teal-types.md\<close>, \<open>avm-limits.md\<close> and the auxiliary functions of \<open>teal-driver.md\<close>
  (all under \<open>lib/include/kframework/avm/\<close>). K's \<open>Int\<close> is unbounded, so the bounds of
  \<open>uint64\<close> are conditions of the rules.
\<close>

unbundle bit_operations_syntax

section \<open>Values and limits\<close>

datatype teal_value = TInt int | TBytes bytes

definition MAX_UINT8 :: int where "MAX_UINT8 = 255"

definition MAX_UINT128 :: int where "MAX_UINT128 = 340282366920938463463374607431768211455"

definition MAX_STACK_DEPTH :: int where "MAX_STACK_DEPTH = 1000"

definition MAX_CALLSTACK_DEPTH :: int where "MAX_CALLSTACK_DEPTH = 32"

definition MAX_SCRATCH_SIZE :: int where "MAX_SCRATCH_SIZE = 256"

definition MAX_BYTEARRAY_LEN :: int where "MAX_BYTEARRAY_LEN = 4096"

definition MAX_BYTE_MATH_SIZE :: int where "MAX_BYTE_MATH_SIZE = 64"

lemmas teal_limits = MAX_UINT8_def MAX_UINT64_def MAX_UINT128_def MAX_STACK_DEPTH_def MAX_CALLSTACK_DEPTH_def
  MAX_SCRATCH_SIZE_def MAX_BYTEARRAY_LEN_def MAX_BYTE_MATH_SIZE_def

lemma max_uint64_mask: "MAX_UINT64 = mask 64"
  by (simp add: MAX_UINT64_def mask_eq_exp_minus_1)

text \<open>A value that an AVM program can hold.\<close>

fun tvalue_ok :: "teal_value \<Rightarrow> bool" where
  "tvalue_ok (TInt i) = (0 \<le> i \<and> i \<le> MAX_UINT64)"
| "tvalue_ok (TBytes b) = (int (length b) \<le> MAX_BYTEARRAY_LEN)"

definition is_bytes :: "teal_value \<Rightarrow> bool" where
  "is_bytes v = (case v of TBytes b \<Rightarrow> True | TInt i \<Rightarrow> False)"

definition int2Bool :: "int \<Rightarrow> bool" where "int2Bool i = (i \<noteq> 0)"

definition bool2Int :: "bool \<Rightarrow> int" where "bool2Int b = (if b then 1 else 0)"

section \<open>Halves of 128-bit numbers\<close>

definition lowerU64 :: "int \<Rightarrow> int" where "lowerU64 i = i AND MAX_UINT64"

definition upperU64 :: "int \<Rightarrow> int" where "upperU64 i = drop_bit 64 i"

definition asUInt128 :: "int \<Rightarrow> int \<Rightarrow> int" where "asUInt128 i1 i2 = push_bit 64 i1 + i2"

lemma lowerU64_mod: "lowerU64 i = i mod 2 ^ 64"
  by (simp only: lowerU64_def max_uint64_mask take_bit_eq_mask [symmetric] take_bit_eq_mod)

lemma upperU64_div: "upperU64 i = i div 2 ^ 64"
  by (simp only: upperU64_def drop_bit_eq_div)

lemma asUInt128_halves: "asUInt128 (upperU64 i) (lowerU64 i) = i"
  by (simp add: asUInt128_def lowerU64_mod upperU64_div push_bit_eq_mult)

lemma lowerU64_ok: "0 \<le> lowerU64 i \<and> lowerU64 i \<le> MAX_UINT64"
proof -
  have "0 \<le> i mod 2 ^ 64" "i mod 2 ^ 64 < 2 ^ 64" by simp_all
  then show ?thesis by (simp add: lowerU64_mod MAX_UINT64_def)
qed

lemma upperU64_ok: "0 \<le> i \<Longrightarrow> i < 2 ^ 128 \<Longrightarrow> 0 \<le> upperU64 i \<and> upperU64 i \<le> MAX_UINT64"
  by (simp add: upperU64_div MAX_UINT64_def pos_imp_zdiv_nonneg_iff)

lemma asUInt128_bounds:
  "0 \<le> i \<Longrightarrow> i \<le> MAX_UINT64 \<Longrightarrow> 0 \<le> j \<Longrightarrow> j \<le> MAX_UINT64 \<Longrightarrow> 0 \<le> asUInt128 i j \<and> asUInt128 i j < 2 ^ 128"
  by (simp add: asUInt128_def push_bit_eq_mult MAX_UINT64_def)

lemma asUInt128_zero: "0 \<le> i \<Longrightarrow> 0 \<le> j \<Longrightarrow> asUInt128 i j = 0 \<longleftrightarrow> i = 0 \<and> j = 0"
  by (auto simp: asUInt128_def push_bit_eq_mult)

section \<open>Integer square roots\<close>

text \<open>
  Newton's iteration, for byte arrays. A number below zero has no root. The guard \<open>x1 \<le> 0\<close> is
  there for termination; the iteration from a positive number does not meet it.
\<close>

function sqrt_newton :: "int \<Rightarrow> int \<Rightarrow> int \<Rightarrow> int" where
  "sqrt_newton x x0 x1 =
     (if x0 \<le> x1 then x0 else if x1 \<le> 0 then 0 else sqrt_newton x x1 ((x1 + x div x1) div 2))"
  by pat_completeness auto

termination by (relation "measure (\<lambda>(x, x0, x1). nat x0)") auto

declare sqrt_newton.simps [simp del]

definition sqrtUInt :: "int \<Rightarrow> int option" where
  "sqrtUInt x =
     (if x < 0 then None else if x \<le> 1 then Some x
      else Some (sqrt_newton x (x div 2) ((x div 2 + x div (x div 2)) div 2)))"

text \<open>The digit-by-digit algorithm of the reference interpreter, on 64 bits.\<close>

function sqrt_digits :: "int \<Rightarrow> int \<Rightarrow> int \<Rightarrow> int \<Rightarrow> int" where
  "sqrt_digits sq rem rt i =
     (if i < 32 then
        (let rt' = push_bit 1 rt; rem' = push_bit 2 rem OR drop_bit (64 - 2) sq;
             sq' = push_bit 2 sq mod (MAX_UINT64 + 1)
         in if rt' < rem' then sqrt_digits sq' (rem' - (rt' OR 1)) (rt' + 2) (i + 1)
            else sqrt_digits sq' rem' rt' (i + 1))
      else drop_bit 1 rt)"
  by pat_completeness auto

termination by (relation "measure (\<lambda>(sq, rem, rt, i). nat (32 - i))") auto

declare sqrt_digits.simps [simp del]

definition sqrtTUInt64 :: "int \<Rightarrow> int option" where
  "sqrtTUInt64 sq = (if 0 \<le> sq \<and> sq \<le> MAX_UINT64 then Some (sqrt_digits sq 0 0 0) else None)"

text \<open>The largest number whose square is not above the argument.\<close>

definition is_sqrt :: "int \<Rightarrow> int \<Rightarrow> bool" where
  "is_sqrt x r \<longleftrightarrow> 0 \<le> r \<and> r * r \<le> x \<and> x < (r + 1) * (r + 1)"

lemma is_sqrt_below: "is_sqrt x r \<Longrightarrow> r \<le> x"
proof -
  assume r: "is_sqrt x r"
  then have "r \<le> r * r" by (cases "r = 0") (auto simp: is_sqrt_def)
  with r show ?thesis by (simp add: is_sqrt_def)
qed

section \<open>Bits\<close>

definition log2Int :: "int \<Rightarrow> int" where "log2Int i = bitlen i - 1"

definition setBitUInt8 :: "int \<Rightarrow> int \<Rightarrow> int \<Rightarrow> int option" where
  "setBitUInt8 x b v =
     (if 0 \<le> x \<and> x \<le> MAX_UINT8 \<and> 0 \<le> b \<and> b < 8 then
        (if v = 0 then Some (x AND NOT (push_bit (nat b) 1))
         else if v = 1 then Some (x OR push_bit (nat b) 1) else None)
      else None)"

definition setBitUInt64 :: "int \<Rightarrow> int \<Rightarrow> int \<Rightarrow> int option" where
  "setBitUInt64 x b v =
     (if 0 \<le> x \<and> x \<le> MAX_UINT64 \<and> 0 \<le> b \<and> b < 64 then
        (if v = 0 then Some (x AND NOT (push_bit (nat b) 1))
         else if v = 1 then Some (x OR push_bit (nat b) 1) else None)
      else None)"

definition setBitInBytes :: "bytes \<Rightarrow> int \<Rightarrow> int \<Rightarrow> bytes option" where
  "setBitInBytes a b v =
     Option.bind (byte_at a (b div 8)) (\<lambda>x.
     Option.bind (setBitUInt8 x (7 - b mod 8) v) (byte_update a (b div 8)))"

text \<open>K's \<open>bitRangeInt(i, b, 1)\<close>: the bit with number \<open>b\<close>.\<close>

definition bit_range_1 :: "int \<Rightarrow> int \<Rightarrow> int" where
  "bit_range_1 i b = drop_bit (nat b) i mod 2"

definition getBitFromBytes :: "bytes \<Rightarrow> int \<Rightarrow> int option" where
  "getBitFromBytes a b = map_option (\<lambda>x. bit_range_1 x (7 - b mod 8)) (byte_at a (b div 8))"

section \<open>Bitwise operations on byte arrays\<close>

datatype bytes_bitop = BytesOr | BytesAnd | BytesXor

fun int_bitop :: "bytes_bitop \<Rightarrow> int \<Rightarrow> int \<Rightarrow> int" where
  "int_bitop BytesOr i j = i OR j"
| "int_bitop BytesAnd i j = i AND j"
| "int_bitop BytesXor i j = i XOR j"

definition BytesBitwiseOp :: "bytes \<Rightarrow> bytes \<Rightarrow> bytes_bitop \<Rightarrow> bytes option" where
  "BytesBitwiseOp a b f =
     Option.bind (int_to_bytes (int_bitop f (be_int a) (be_int b))) (\<lambda>x.
     pad_left_bytes x (max (int (length a)) (int (length b))) 0)"

section \<open>Both algorithms compute the integer square root\<close>

lemma is_sqrt_unique:
  assumes "is_sqrt x r" and "0 \<le> y" and "y * y \<le> x"
  shows "y \<le> r"
proof (rule ccontr)
  assume "\<not> y \<le> r"
  then have "r + 1 \<le> y" by simp
  then have "(r + 1) * (r + 1) \<le> y * y" using assms(1) by (intro mult_mono) (simp_all add: is_sqrt_def)
  with assms(1,3) show False by (simp add: is_sqrt_def)
qed

lemma newton_step_above:
  fixes x y r :: int
  assumes "is_sqrt x r" and "0 < y"
  shows "r \<le> (y + x div y) div 2"
proof -
  have "r * r \<le> x" using assms(1) by (simp add: is_sqrt_def)
  moreover have "(2 * r - y) * y \<le> r * r" using zero_le_square [of "r - y"] by (simp add: algebra_simps)
  ultimately have "(2 * r - y) * y div y \<le> x div y" using assms(2) by (intro zdiv_mono1) simp_all
  then show ?thesis using assms(2) by simp
qed

lemma newton_stops:
  fixes x y :: int
  assumes "0 < y" and "y \<le> (y + x div y) div 2"
  shows "y * y \<le> x"
proof -
  have "y \<le> x div y" using assms(2) by simp
  then have "y * y \<le> x div y * y" using assms(1) by (intro mult_right_mono) simp_all
  also have "\<dots> \<le> x" using div_mult_mod_eq [of x y] pos_mod_sign [OF assms(1), of x] by linarith
  finally show ?thesis .
qed

lemma sqrt_newton_root:
  assumes "is_sqrt x r" and "0 < r" and "r \<le> x0" and "x1 = (x0 + x div x0) div 2"
  shows "sqrt_newton x x0 x1 = r"
  using assms(3,4)
proof (induction "nat x0" arbitrary: x0 x1 rule: less_induct)
  case less
  have x0: "0 < x0" using less.prems(1) assms(2) by simp
  have x1: "r \<le> x1" using newton_step_above [OF assms(1) x0] less.prems(2) by simp
  show ?case
  proof (cases "x0 \<le> x1")
    case True
    then have "x0 * x0 \<le> x" using newton_stops [OF x0] less.prems(2) by simp
    then have "x0 \<le> r" using is_sqrt_unique [OF assms(1)] x0 by simp
    with less.prems(1) True show ?thesis by (simp add: sqrt_newton.simps)
  next
    case False
    then have "sqrt_newton x x1 ((x1 + x div x1) div 2) = r"
      using x0 x1 by (intro less.hyps) simp_all
    with False x1 assms(2) show ?thesis by (subst sqrt_newton.simps) simp
  qed
qed

lemma is_sqrt_half: "1 < x \<Longrightarrow> is_sqrt x r \<Longrightarrow> 0 < r \<and> r \<le> x div 2"
proof
  assume x: "1 < x" and r: "is_sqrt x r"
  show "0 < r" using r x by (cases "r = 0") (auto simp: is_sqrt_def)
  then show "r \<le> x div 2"
  proof (cases "r = 1")
    case False
    then have "2 * r \<le> r * r" using \<open>0 < r\<close> by (intro mult_right_mono) simp_all
    moreover have "r * r \<le> x" using r by (simp add: is_sqrt_def)
    ultimately have "2 * r \<le> x" by (rule order_trans)
    then show ?thesis by simp
  qed (use x in simp)
qed

lemma sqrtUInt_root: "0 \<le> x \<Longrightarrow> is_sqrt x r \<Longrightarrow> sqrtUInt x = Some r"
proof (cases "x \<le> 1")
  case True
  assume x: "0 \<le> x" "is_sqrt x r"
  have "x = 0 \<or> x = 1" using x(1) True by auto
  then have "is_sqrt x x" by (auto simp: is_sqrt_def)
  then have "x = r" using is_sqrt_unique [OF x(2), of x] is_sqrt_below [OF x(2)] by (simp add: is_sqrt_def)
  with x True show ?thesis by (simp add: sqrtUInt_def)
next
  case False
  assume x: "0 \<le> x" "is_sqrt x r"
  then show ?thesis using False is_sqrt_half [of x r] sqrt_newton_root [OF x(2) _ _ refl] by (simp add: sqrtUInt_def)
qed

lemma is_sqrt_exists: "0 \<le> x \<Longrightarrow> \<exists>r. is_sqrt x r"
proof -
  assume "0 \<le> x"
  then have "is_sqrt x \<lfloor>sqrt (real_of_int x)\<rfloor>"
  proof -
    let ?s = "\<lfloor>sqrt (real_of_int x)\<rfloor>"
    have s: "0 \<le> ?s" using \<open>0 \<le> x\<close> by simp
    have "real_of_int ?s \<le> sqrt x" "sqrt x < real_of_int ?s + 1" by linarith+
    then have "real_of_int ?s * real_of_int ?s \<le> sqrt x * sqrt x"
      "sqrt x * sqrt x < (real_of_int ?s + 1) * (real_of_int ?s + 1)"
      using s \<open>0 \<le> x\<close> by (intro mult_mono mult_strict_mono; simp; linarith)+
    then have "real_of_int (?s * ?s) \<le> real_of_int x" "real_of_int x < real_of_int ((?s + 1) * (?s + 1))"
      using \<open>0 \<le> x\<close> by simp_all
    then have "?s * ?s \<le> x" "x < (?s + 1) * (?s + 1)" by (simp_all only: of_int_le_iff of_int_less_iff)
    with s show ?thesis by (simp add: is_sqrt_def)
  qed
  then show ?thesis by blast
qed

text \<open>One round of the digit-by-digit algorithm: two more bits of the number, one more of the root.\<close>

lemma or_low_bits:
  fixes m d :: int
  assumes "0 \<le> d" and "d < 4"
  shows "push_bit 2 m OR d = 4 * m + d"
proof -
  have d: "take_bit 2 d = d" using assms by (simp add: take_bit_eq_mod)
  have "\<not> bit d n" if "2 \<le> n" for n using d that by (metis bit_take_bit_iff not_le)
  then have "push_bit 2 m OR d = push_bit 2 m + d"
    by (intro disjunctive_add [symmetric]) (metis bit_push_bit_iff)
  then show ?thesis by (simp add: push_bit_eq_mult)
qed

lemma odd_bit: "push_bit 1 (push_bit 1 r) OR 1 = 4 * r + (1 :: int)"
  using or_low_bits [of 1 r] by (simp add: push_bit_eq_mult mult.commute)

lemma is_sqrt_digit:
  fixes y r d :: int
  assumes "is_sqrt y r" and "0 \<le> d" and "d < 4"
  shows "is_sqrt (4 * y + d) (if 4 * r < 4 * (y - r * r) + d then 2 * r + 1 else 2 * r)"
  using assms by (auto simp: is_sqrt_def algebra_simps)

lemma sqrt_digits_root:
  assumes "i \<le> 32" and "0 \<le> x" and "take_bit 64 x = x"
    and "is_sqrt (drop_bit (64 - 2 * i) x) r"
    and "sq = take_bit 64 (push_bit (2 * i) x)" and "rem = drop_bit (64 - 2 * i) x - r * r"
  shows "is_sqrt x (sqrt_digits sq rem (2 * r) (int i))"
  using assms
proof (induction "32 - i" arbitrary: i sq rem r)
  case 0
  then have "drop_bit 1 (2 * r) = r" by (simp add: drop_bit_eq_div)
  with 0 show ?case by (simp add: sqrt_digits.simps del: drop_bit_of_1)
next
  case (Suc n)
  then have i: "i < 32" by simp
  let ?y = "drop_bit (64 - 2 * i) x"
  define d where "d = drop_bit 62 sq"
  have d4: "d = take_bit 2 (drop_bit (62 - 2 * i) x)"
    using i by (simp add: d_def Suc.prems(5) drop_bit_take_bit drop_bit_push_bit)
  then have d: "0 \<le> d" "d < 4" by (simp_all add: take_bit_eq_mod)
  have y: "drop_bit (64 - 2 * Suc i) x = 4 * ?y + d"
  proof -
    have "?y = drop_bit (62 - 2 * i) x div 4"
    proof -
      have "2 + (62 - 2 * i) = 64 - 2 * i" using i by simp
      then have "?y = drop_bit 2 (drop_bit (62 - 2 * i) x)" by (simp only: drop_bit_drop_bit)
      then show ?thesis by (simp only: drop_bit_eq_div) simp
    qed
    then show ?thesis using i by (simp add: d4 take_bit_eq_mod)
  qed
  have sq: "push_bit 2 sq mod (MAX_UINT64 + 1) = take_bit 64 (push_bit (2 * Suc i) x)"
  proof -
    have "push_bit 2 sq mod (MAX_UINT64 + 1) = take_bit 64 (push_bit 2 sq)"
      by (simp add: take_bit_eq_mod MAX_UINT64_def)
    also have "\<dots> = push_bit 2 (take_bit 62 (take_bit 64 (push_bit (2 * i) x)))"
      by (simp only: take_bit_push_bit Suc.prems(5)) simp
    also have "\<dots> = take_bit 64 (push_bit 2 (push_bit (2 * i) x))"
      by (simp only: take_bit_push_bit [of 64 2] take_bit_take_bit) simp
    finally show ?thesis by (simp only: push_bit_push_bit) simp
  qed
  have rem: "push_bit 2 rem OR drop_bit (64 - 2) sq = 4 * (?y - r * r) + d"
    using or_low_bits [OF d, of rem] by (simp add: d_def Suc.prems(6))
  let ?r = "if 4 * r < 4 * (?y - r * r) + d then 2 * r + 1 else 2 * r"
  have root: "is_sqrt (drop_bit (64 - 2 * Suc i) x) ?r"
    unfolding y using Suc.prems(4) d by (rule is_sqrt_digit)
  let ?rem = "drop_bit (64 - 2 * Suc i) x - ?r * ?r"
  have "is_sqrt x (sqrt_digits (take_bit 64 (push_bit (2 * Suc i) x)) ?rem (2 * ?r) (int (Suc i)))"
    using Suc.hyps(2) i Suc.prems(2,3) root by (intro Suc.hyps(1) refl) simp_all
  moreover have "sqrt_digits sq rem (2 * r) (int i) =
      sqrt_digits (take_bit 64 (push_bit (2 * Suc i) x)) ?rem (2 * ?r) (int (Suc i))"
  proof -
    have r2: "push_bit 1 (2 * r) = 4 * r" "push_bit 1 (push_bit 1 r) = 4 * r" by (simp_all add: push_bit_eq_mult)
    have "4 * r OR 1 = 4 * r + 1" using odd_bit [of r] unfolding r2 .
    then show ?thesis
      using i by (subst sqrt_digits.simps) (simp only: Let_def rem r2 sq y, simp add: algebra_simps)
  qed
  ultimately show ?case by simp
qed

lemma sqrtTUInt64_root:
  assumes "0 \<le> x" and "x \<le> MAX_UINT64"
  shows "\<exists>r. is_sqrt x r \<and> sqrtTUInt64 x = Some r"
proof -
  have t: "take_bit 64 x = x" using assms by (simp add: take_bit_eq_mod MAX_UINT64_def)
  have "drop_bit 64 x = drop_bit 64 (take_bit 64 x)" by (simp only: t)
  then have "drop_bit (64 - 2 * 0) x = 0" by (simp add: drop_bit_take_bit del: drop_bit_eq_div)
  then have "is_sqrt x (sqrt_digits x 0 (2 * 0) (int 0))"
    using assms(1) t by (intro sqrt_digits_root) (simp_all add: is_sqrt_def)
  with assms show ?thesis by (simp add: sqrtTUInt64_def)
qed

lemma is_sqrt_inject: "is_sqrt x r \<Longrightarrow> is_sqrt x r' \<Longrightarrow> r = r'"
  using is_sqrt_unique [of x r r'] is_sqrt_unique [of x r' r] by (simp add: is_sqrt_def order_antisym)

text \<open>
  C29: the opcodes \<open>sqrt\<close> and \<open>bsqrt\<close> compute the integer square root, the largest number whose
  square is not above the argument: the digit-by-digit algorithm on 64 bits, with its shifts
  modulo \<open>2^64\<close>, for every \<open>uint64\<close>, and Newton's iteration on the number of a byte array of any
  length, which ends.
\<close>

theorem square_roots:
  assumes "0 \<le> x"
  shows "\<exists>r. is_sqrt x r \<and> sqrtUInt x = Some r \<and> (x \<le> MAX_UINT64 \<longrightarrow> sqrtTUInt64 x = Some r)"
proof -
  obtain r where r: "is_sqrt x r" using is_sqrt_exists assms by blast
  then have "sqrtTUInt64 x = Some r" if "x \<le> MAX_UINT64"
    using sqrtTUInt64_root [OF assms that] is_sqrt_inject by blast
  with r sqrtUInt_root [OF assms r] show ?thesis by blast
qed

theorem square_roots_witness:
  "sqrtTUInt64 1000001 = sqrtUInt 1000001 \<and> is_sqrt 1000001 (the (sqrtUInt 1000001))"
  using square_roots [of 1000001] by (auto simp: MAX_UINT64_def)

section \<open>Bitwise operations are bytewise\<close>

text \<open>The operation byte by byte, as the reference interpreter does it.\<close>

fun byte_bitop :: "bytes_bitop \<Rightarrow> 8 word \<Rightarrow> 8 word \<Rightarrow> 8 word" where
  "byte_bitop BytesOr x y = x OR y"
| "byte_bitop BytesAnd x y = x AND y"
| "byte_bitop BytesXor x y = x XOR y"

lemma be_int_bitop:
  assumes "length a = length b"
  shows "be_int (map2 (byte_bitop f) a b) = int_bitop f (be_int a) (be_int b)"
proof (cases f)
  case BytesOr
  have "be_int (map2 (OR) a b) = be_int a OR be_int b"
    by (rule be_int_map2 [OF assms, where g = "(\<or>)"]) (auto simp: bit_or_iff dest: bit_imp_le_length)
  with BytesOr show ?thesis by simp
next
  case BytesAnd
  have "be_int (map2 (AND) a b) = be_int a AND be_int b"
    by (rule be_int_map2 [OF assms, where g = "(\<and>)"]) (auto simp: bit_and_iff dest: bit_imp_le_length)
  with BytesAnd show ?thesis by simp
next
  case BytesXor
  have "be_int (map2 (XOR) a b) = be_int a XOR be_int b"
    by (rule be_int_map2 [OF assms, where g = "(\<noteq>)"]) (auto simp: bit_xor_iff dest: bit_imp_le_length)
  with BytesXor show ?thesis by simp
qed

lemma bytes_bitwise_bytes:
  "BytesBitwiseOp a b f =
     (let n = max (length a) (length b) in Some (map2 (byte_bitop f) (pad_left n 0 a) (pad_left n 0 b)))"
proof -
  let ?n = "max (length a) (length b)"
  let ?c = "map2 (byte_bitop f) (pad_left ?n 0 a) (pad_left ?n 0 b)"
  have c: "be_int ?c = int_bitop f (be_int a) (be_int b)" "length ?c = ?n"
    by (simp_all add: be_int_bitop)
  have "pad_left ?n 0 (be_bytes (nat (be_int ?c))) = ?c"
    using pad_be_bytes [of ?c] by (simp only: c(2))
  moreover have "0 \<le> int_bitop f (be_int a) (be_int b)" by (simp flip: c(1))
  ultimately show ?thesis
    by (simp add: BytesBitwiseOp_def int_to_bytes_def pad_left_bytes_def Let_def c(1) flip: of_nat_max)
qed

text \<open>
  C34: the detour of the bitwise opcodes on byte arrays over unbounded integers computes what the
  reference interpreter computes byte by byte: the shorter array is filled up with zeros on the
  left, the bytes are combined one by one, and the result has the length of the longer array.
\<close>

theorem bytes_bitwise_is_bytewise:
  "BytesBitwiseOp a b f =
     (let n = max (length a) (length b) in Some (map2 (byte_bitop f) (pad_left n 0 a) (pad_left n 0 b)))"
  by (rule bytes_bitwise_bytes)

end
