(* ===== verification/TealOpcodes.thy ===== *)
theory TealOpcodes
  imports TealValues
begin

text \<open>
  The opcodes of TEAL that work on the stack alone: the rewriting rules of
  \<open>lib/include/kframework/avm/teal/teal-driver.md\<close>, one introduction rule for each rule of the
  source, with the same patterns and side conditions. A variable that the source uses as an
  integer or as bytes matches only such values, and a function of K that has no value leaves a
  rule without a result. What no rule matches gets stuck. The hash functions of the package
  \<open>krypto\<close> are the record \<open>crypto\<close>.
\<close>

section \<open>Opcodes\<close>

text \<open>
  The sorts of opcodes in \<open>teal-syntax.md\<close>. Immediate constants are those the parser and
  \<open>normalize\<close> leave: numbers and bytes.
\<close>

datatype crypto_op = O_sha256 | O_keccak256 | O_sha512_256

datatype arith_op =
    O_sqrt | O_add | O_sub | O_div | O_mul | O_mod | O_exp | O_addw | O_divmodw | O_divw | O_mulw | O_expw

datatype bit_op = O_or | O_and | O_xor | O_shl | O_shr | O_not | O_bitlen | O_bsqrt | O_getbit | O_setbit

datatype relational_op = O_lt | O_gt | O_le | O_ge | O_eq | O_neq

datatype logical_op = O_land | O_lor | O_lnot

datatype byte_op =
    O_len | O_itob | O_btoi | O_substring int int | O_getbyte | O_setbyte | O_bzero | O_extract int int
  | O_concat | O_extract_uint16 | O_extract_uint32 | O_extract_uint64 | O_replace2 int
  | O_substring3 | O_extract3 | O_replace3

datatype math_byte_op =
    O_badd | O_bsub | O_bdiv | O_bmod | O_bmul | O_blt | O_bgt | O_ble | O_bge | O_beq | O_bneq
  | O_bbitop bytes_bitop | O_bnot

datatype scratch_op = O_load int | O_loads | O_store int | O_stores

type_synonym label = string

datatype branch_op =
    O_bnz label | O_bz label | O_b label | O_return | O_assert
  | O_callsub label | O_retsub | O_proto int int | O_dupn int | O_frame_dig int | O_frame_bury int

datatype stack_op =
    O_pushint int | O_pushbytes bytes | O_pop | O_dup | O_dup2 | O_swap | O_select
  | O_dig int | O_cover int | O_uncover int | O_bury int | O_popn int

datatype pseudo_op = O_int int | O_byte bytes | O_addr bytes | O_method bytes

datatype opcode =
    NoOpCode | Err | Crypto crypto_op | Arith arith_op | Bit bit_op | Relational relational_op | Logical logical_op
  | Byte byte_op | MathByte math_byte_op | Scratch scratch_op | Branch branch_op | Stack stack_op
  | Pseudo pseudo_op | LabelCode label

text \<open>The membership in the smaller sorts that the rules on ill-typed and missing arguments ask for.\<close>

fun isBinaryArithOpCode :: "opcode \<Rightarrow> bool" where
  "isBinaryArithOpCode (Arith f) = (f \<noteq> O_sqrt)" | "isBinaryArithOpCode _ = False"

fun isBinaryBitOpCode :: "opcode \<Rightarrow> bool" where
  "isBinaryBitOpCode (Bit f) = (f \<in> {O_or, O_and, O_xor, O_shl, O_shr})" | "isBinaryBitOpCode _ = False"

fun isInequalityOpCode :: "opcode \<Rightarrow> bool" where
  "isInequalityOpCode (Relational f) = (f \<in> {O_lt, O_gt, O_le, O_ge})" | "isInequalityOpCode _ = False"

fun isEqualityOpCode :: "opcode \<Rightarrow> bool" where
  "isEqualityOpCode (Relational f) = (f \<in> {O_eq, O_neq})" | "isEqualityOpCode _ = False"

fun isBinaryLogicalOpCode :: "opcode \<Rightarrow> bool" where
  "isBinaryLogicalOpCode (Logical f) = (f \<noteq> O_lnot)" | "isBinaryLogicalOpCode _ = False"

fun isUnaryLogicalOpCode :: "opcode \<Rightarrow> bool" where
  "isUnaryLogicalOpCode (Logical f) = (f = O_lnot)" | "isUnaryLogicalOpCode _ = False"

fun isBinaryByteOpCode :: "opcode \<Rightarrow> bool" where
  "isBinaryByteOpCode (Byte (O_replace2 s)) = True"
| "isBinaryByteOpCode (Byte f) = (f \<in> {O_concat, O_extract_uint16, O_extract_uint32, O_extract_uint64})"
| "isBinaryByteOpCode _ = False"

fun isTernaryByteOpCode :: "opcode \<Rightarrow> bool" where
  "isTernaryByteOpCode (Byte f) = (f \<in> {O_substring3, O_extract3, O_replace3})" | "isTernaryByteOpCode _ = False"

fun isUnaryLogicalMathByteOpCode :: "opcode \<Rightarrow> bool" where
  "isUnaryLogicalMathByteOpCode (MathByte f) = (f = O_bnot)" | "isUnaryLogicalMathByteOpCode _ = False"

fun isStoreOpCode :: "opcode \<Rightarrow> bool" where
  "isStoreOpCode (Scratch (O_store i)) = True" | "isStoreOpCode (Scratch O_stores) = True" | "isStoreOpCode _ = False"

fun isCondBranchOpCode :: "opcode \<Rightarrow> bool" where
  "isCondBranchOpCode (Branch (O_bnz l)) = True" | "isCondBranchOpCode (Branch (O_bz l)) = True"
| "isCondBranchOpCode _ = False"

fun isNullaryStackOpCode :: "opcode \<Rightarrow> bool" where
  "isNullaryStackOpCode (Stack (O_pushint i)) = True" | "isNullaryStackOpCode (Stack (O_pushbytes b)) = True"
| "isNullaryStackOpCode _ = False"

fun isBinaryStackOpCode :: "opcode \<Rightarrow> bool" where
  "isBinaryStackOpCode (Stack f) = (f \<in> {O_dup2, O_swap})" | "isBinaryStackOpCode _ = False"

text \<open>The larger sorts: opcodes with at least one argument on the stack.\<close>

fun takes_argument :: "opcode \<Rightarrow> bool" where
  "takes_argument (Crypto f) = True"
| "takes_argument (Arith f) = True"
| "takes_argument (Bit f) = True"
| "takes_argument (Relational f) = True"
| "takes_argument (Logical f) = True"
| "takes_argument (Byte f) = True"
| "takes_argument (MathByte f) = True"
| "takes_argument (Branch f) = (isCondBranchOpCode (Branch f) \<or> f = O_return)"
| "takes_argument (Stack f) = (\<not> isNullaryStackOpCode (Stack f))"
| "takes_argument op = isStoreOpCode op"

section \<open>Panics\<close>

datatype panic =
    ZERO_STACK | BAD_STACK | ERR_OPCODE | INT_OVERFLOW | INT_UNDERFLOW | DIV_BY_ZERO | BYTES_OVERFLOW
  | INVALID_SCRATCH_LOC | INDEX_OUT_OF_BOUNDS | ILLEGAL_JUMP | ILL_TYPED_STACK | INVALID_ARGUMENT
  | STACK_OVERFLOW | STACK_UNDERFLOW | ASSERTION_VIOLATION | DUPLICATE_LABEL | IMPOSSIBLE_NEGATIVE_NUMBER
  | CALLSTACK_UNDERFLOW | CALLSTACK_OVERFLOW | MATH_BYTES_ARG_TOO_LONG | MISSING_APP_CREATOR | APP_ALREADY_ACTIVE

fun panic_code :: "panic \<Rightarrow> int" where
  "panic_code ZERO_STACK = 1" | "panic_code BAD_STACK = 2" | "panic_code ERR_OPCODE = 7"
| "panic_code INT_OVERFLOW = 8" | "panic_code INT_UNDERFLOW = 9" | "panic_code DIV_BY_ZERO = 10"
| "panic_code BYTES_OVERFLOW = 11" | "panic_code INVALID_SCRATCH_LOC = 14" | "panic_code INDEX_OUT_OF_BOUNDS = 17"
| "panic_code ILLEGAL_JUMP = 18" | "panic_code ILL_TYPED_STACK = 19" | "panic_code INVALID_ARGUMENT = 26"
| "panic_code STACK_OVERFLOW = 27" | "panic_code STACK_UNDERFLOW = 28" | "panic_code ASSERTION_VIOLATION = 29"
| "panic_code DUPLICATE_LABEL = 30" | "panic_code IMPOSSIBLE_NEGATIVE_NUMBER = 31"
| "panic_code CALLSTACK_UNDERFLOW = 32" | "panic_code CALLSTACK_OVERFLOW = 33" | "panic_code MATH_BYTES_ARG_TOO_LONG = 35"
| "panic_code MISSING_APP_CREATOR = 55" | "panic_code APP_ALREADY_ACTIVE = 56"

text \<open>
  What an opcode leaves: a stack and the content of the cell \<open>stacksize\<close>, or a panic and the
  content of that cell. The first argument of the rules is the opcode, the others the stack, its
  top first, and the cell \<open>stacksize\<close>.
\<close>

datatype outcome = Next "teal_value list" int | Panic panic int

section \<open>Arithmetic\<close>

text \<open>\<open>_/Int_\<close> and \<open>_%Int_\<close> round to zero; \<open>_^Int_\<close> has no value for a negative exponent.\<close>

inductive arith_rule :: "arith_op \<Rightarrow> teal_value list \<Rightarrow> int \<Rightarrow> outcome \<Rightarrow> bool" where
  add: "i1 + i2 \<le> MAX_UINT64 \<Longrightarrow> arith_rule O_add (TInt i2 # TInt i1 # xs) s (Next (TInt (i1 + i2) # xs) (s - 1))"
| add_overflow: "i1 + i2 > MAX_UINT64 \<Longrightarrow> arith_rule O_add (TInt i2 # TInt i1 # xs) s (Panic INT_OVERFLOW s)"
| sub: "i1 \<ge> i2 \<Longrightarrow> arith_rule O_sub (TInt i2 # TInt i1 # xs) s (Next (TInt (i1 - i2) # xs) (s - 1))"
| sub_underflow: "i1 < i2 \<Longrightarrow> arith_rule O_sub (TInt i2 # TInt i1 # xs) s (Panic INT_UNDERFLOW s)"
| mul: "i1 * i2 \<le> MAX_UINT64 \<Longrightarrow> arith_rule O_mul (TInt i2 # TInt i1 # xs) s (Next (TInt (i1 * i2) # xs) (s - 1))"
| mul_overflow: "i1 * i2 > MAX_UINT64 \<Longrightarrow> arith_rule O_mul (TInt i2 # TInt i1 # xs) s (Panic INT_OVERFLOW s)"
| div: "i2 > 0 \<Longrightarrow> arith_rule O_div (TInt i2 # TInt i1 # xs) s (Next (TInt (i1 sdiv i2) # xs) (s - 1))"
| div_zero: "i2 \<le> 0 \<Longrightarrow> arith_rule O_div (TInt i2 # v # xs) s (Panic DIV_BY_ZERO s)"
| mod: "i2 > 0 \<Longrightarrow> arith_rule O_mod (TInt i2 # TInt i1 # xs) s (Next (TInt (i1 smod i2) # xs) (s - 1))"
| mod_zero: "i2 \<le> 0 \<Longrightarrow> arith_rule O_mod (TInt i2 # v # xs) s (Panic DIV_BY_ZERO s)"
| exp: "0 \<le> i2 \<Longrightarrow> i1 ^ nat i2 \<le> MAX_UINT64 \<Longrightarrow> \<not> (i1 = 0 \<and> i2 = 0) \<Longrightarrow>
    arith_rule O_exp (TInt i2 # TInt i1 # xs) s (Next (TInt (i1 ^ nat i2) # xs) (s - 1))"
| exp_zero: "i1 = 0 \<Longrightarrow> i2 = 0 \<Longrightarrow> arith_rule O_exp (TInt i2 # TInt i1 # xs) s (Panic INVALID_ARGUMENT s)"
| exp_overflow: "0 \<le> i2 \<Longrightarrow> i1 ^ nat i2 > MAX_UINT64 \<Longrightarrow>
    arith_rule O_exp (TInt i2 # TInt i1 # xs) s (Panic INT_OVERFLOW s)"
| divmodw: "\<not> (i4 = 0 \<and> i3 = 0) \<Longrightarrow> n = asUInt128 i1 i2 \<Longrightarrow> d = asUInt128 i3 i4 \<Longrightarrow>
    q = n sdiv d \<Longrightarrow> r = n smod d \<Longrightarrow>
    arith_rule O_divmodw (TInt i4 # TInt i3 # TInt i2 # TInt i1 # xs) s
      (Next (TInt (lowerU64 r) # TInt (upperU64 r) # TInt (lowerU64 q) # TInt (upperU64 q) # xs) s)"
| divmodw_zero: "i4 = 0 \<Longrightarrow> i3 = 0 \<Longrightarrow>
    arith_rule O_divmodw (TInt i4 # TInt i3 # v2 # v1 # xs) s (Panic DIV_BY_ZERO s)"
| divw: "i3 \<noteq> 0 \<Longrightarrow> asUInt128 i1 i2 sdiv i3 \<le> MAX_UINT64 \<Longrightarrow>
    arith_rule O_divw (TInt i3 # TInt i2 # TInt i1 # xs) s (Next (TInt (asUInt128 i1 i2 sdiv i3) # xs) (s - 2))"
| divw_overflow: "i3 \<noteq> 0 \<Longrightarrow> asUInt128 i1 i2 sdiv i3 > MAX_UINT64 \<Longrightarrow>
    arith_rule O_divw (TInt i3 # TInt i2 # TInt i1 # xs) s (Panic INT_OVERFLOW s)"
| divw_zero: "arith_rule O_divw (TInt 0 # v2 # v1 # xs) s (Panic DIV_BY_ZERO s)"
| divw_ill_typed: "is_bytes v1 \<or> is_bytes v2 \<or> is_bytes v3 \<Longrightarrow>
    arith_rule O_divw (v3 # v2 # v1 # xs) s (Panic ILL_TYPED_STACK s)"
| addw: "arith_rule O_addw (TInt i2 # TInt i1 # xs) s (Next (TInt (lowerU64 (i1 + i2)) # TInt (upperU64 (i1 + i2)) # xs) s)"
| mulw: "arith_rule O_mulw (TInt i2 # TInt i1 # xs) s (Next (TInt (lowerU64 (i1 * i2)) # TInt (upperU64 (i1 * i2)) # xs) s)"
| expw: "0 \<le> i2 \<Longrightarrow> i1 ^ nat i2 \<le> MAX_UINT128 \<Longrightarrow> \<not> (i1 = 0 \<and> i2 = 0) \<Longrightarrow>
    arith_rule O_expw (TInt i2 # TInt i1 # xs) s
      (Next (TInt (lowerU64 (i1 ^ nat i2)) # TInt (upperU64 (i1 ^ nat i2)) # xs) s)"
| expw_zero: "i1 = 0 \<Longrightarrow> i2 = 0 \<Longrightarrow> arith_rule O_expw (TInt i2 # TInt i1 # xs) s (Panic INVALID_ARGUMENT s)"
| expw_overflow: "0 \<le> i2 \<Longrightarrow> i1 ^ nat i2 > MAX_UINT128 \<Longrightarrow>
    arith_rule O_expw (TInt i2 # TInt i1 # xs) s (Panic INT_OVERFLOW s)"
| sqrt: "0 \<le> x \<Longrightarrow> x \<le> MAX_UINT64 \<Longrightarrow> sqrtTUInt64 x = Some r \<Longrightarrow>
    arith_rule O_sqrt (TInt x # xs) s (Next (TInt r # xs) s)"
| sqrt_invalid: "\<not> (0 \<le> x \<and> x \<le> MAX_UINT64) \<Longrightarrow> arith_rule O_sqrt (TInt x # xs) s (Panic INVALID_ARGUMENT s)"

section \<open>Relational and logical opcodes\<close>

inductive relational_rule :: "relational_op \<Rightarrow> teal_value list \<Rightarrow> int \<Rightarrow> outcome \<Rightarrow> bool" where
  lt: "relational_rule O_lt (TInt i2 # TInt i1 # xs) s (Next (TInt (bool2Int (i1 < i2)) # xs) (s - 1))"
| gt: "relational_rule O_gt (TInt i2 # TInt i1 # xs) s (Next (TInt (bool2Int (i1 > i2)) # xs) (s - 1))"
| le: "relational_rule O_le (TInt i2 # TInt i1 # xs) s (Next (TInt (bool2Int (i1 \<le> i2)) # xs) (s - 1))"
| ge: "relational_rule O_ge (TInt i2 # TInt i1 # xs) s (Next (TInt (bool2Int (i1 \<ge> i2)) # xs) (s - 1))"
| eq_int: "relational_rule O_eq (TInt i2 # TInt i1 # xs) s (Next (TInt (bool2Int (i1 = i2)) # xs) (s - 1))"
| eq_bytes: "relational_rule O_eq (TBytes b2 # TBytes b1 # xs) s (Next (TInt (bool2Int (b1 = b2)) # xs) (s - 1))"
| neq_int: "relational_rule O_neq (TInt i2 # TInt i1 # xs) s (Next (TInt (bool2Int (i1 \<noteq> i2)) # xs) (s - 1))"
| neq_bytes: "relational_rule O_neq (TBytes b2 # TBytes b1 # xs) s (Next (TInt (bool2Int (b1 \<noteq> b2)) # xs) (s - 1))"

inductive logical_rule :: "logical_op \<Rightarrow> teal_value list \<Rightarrow> int \<Rightarrow> outcome \<Rightarrow> bool" where
  land: "logical_rule O_land (TInt i2 # TInt i1 # xs) s (Next (TInt (bool2Int (i1 > 0 \<and> i2 > 0)) # xs) (s - 1))"
| lor: "logical_rule O_lor (TInt i2 # TInt i1 # xs) s (Next (TInt (bool2Int (i1 > 0 \<or> i2 > 0)) # xs) (s - 1))"
| lnot: "logical_rule O_lnot (TInt i # xs) s (Next (TInt (bool2Int (i = 0)) # xs) s)"

section \<open>Bits\<close>

text \<open>
  The panic of \<open>getbit\<close> on bytes is not among the rules: in the source it has no \<open>...\<close> and
  applies only when nothing follows the opcode.
\<close>

inductive bit_rule :: "bit_op \<Rightarrow> teal_value list \<Rightarrow> int \<Rightarrow> outcome \<Rightarrow> bool" where
  bor: "bit_rule O_or (TInt i2 # TInt i1 # xs) s (Next (TInt (i1 OR i2) # xs) (s - 1))"
| band: "bit_rule O_and (TInt i2 # TInt i1 # xs) s (Next (TInt (i1 AND i2) # xs) (s - 1))"
| bxor: "bit_rule O_xor (TInt i2 # TInt i1 # xs) s (Next (TInt (i1 XOR i2) # xs) (s - 1))"
| shl: "0 \<le> i2 \<Longrightarrow> i2 < 64 \<Longrightarrow>
    bit_rule O_shl (TInt i2 # TInt i1 # xs) s (Next (TInt (push_bit (nat i2) i1 mod (MAX_UINT64 + 1)) # xs) (s - 1))"
| shl_invalid: "\<not> (0 \<le> i2 \<and> i2 < 64) \<Longrightarrow> bit_rule O_shl (TInt i2 # v # xs) s (Panic INVALID_ARGUMENT s)"
| shr: "0 \<le> i2 \<Longrightarrow> i2 < 64 \<Longrightarrow>
    bit_rule O_shr (TInt i2 # TInt i1 # xs) s (Next (TInt (drop_bit (nat i2) i1) # xs) (s - 1))"
| shr_invalid: "\<not> (0 \<le> i2 \<and> i2 < 64) \<Longrightarrow> bit_rule O_shr (TInt i2 # v # xs) s (Panic INVALID_ARGUMENT s)"
| bnot: "bit_rule O_not (TInt i # xs) s (Next (TInt (i XOR MAX_UINT64) # xs) s)"
| not_ill_typed: "bit_rule O_not (TBytes b # xs) s (Panic ILL_TYPED_STACK s)"
| bitlen_zero: "bit_rule O_bitlen (TInt 0 # xs) s (Next (TInt 0 # xs) s)"
| bitlen: "0 < i \<Longrightarrow> i \<le> MAX_UINT64 \<Longrightarrow> bit_rule O_bitlen (TInt i # xs) s (Next (TInt (log2Int i + 1) # xs) s)"
| bitlen_bytes_zero: "int (length b) \<le> MAX_BYTEARRAY_LEN \<Longrightarrow> be_int b = 0 \<Longrightarrow>
    bit_rule O_bitlen (TBytes b # xs) s (Next (TInt 0 # xs) s)"
| bitlen_bytes: "int (length b) \<le> MAX_BYTEARRAY_LEN \<Longrightarrow> be_int b > 0 \<Longrightarrow>
    bit_rule O_bitlen (TBytes b # xs) s (Next (TInt (log2Int (be_int b) + 1) # xs) s)"
| bsqrt: "sqrtUInt (be_int b) = Some r \<Longrightarrow> int_to_bytes r = Some c \<Longrightarrow>
    bit_rule O_bsqrt (TBytes b # xs) s (Next (TBytes c # xs) s)"
| bsqrt_invalid: "bit_rule O_bsqrt (TInt i # xs) s (Panic INVALID_ARGUMENT s)"
| setbit_bytes: "0 \<le> b \<Longrightarrow> b < int (length a) * 8 \<Longrightarrow> 0 \<le> c \<Longrightarrow> c < 2 \<Longrightarrow> setBitInBytes a b c = Some a' \<Longrightarrow>
    bit_rule O_setbit (TInt c # TInt b # TBytes a # xs) s (Next (TBytes a' # xs) (s - 2))"
| setbit_bytes_ill_typed: "\<not> (0 \<le> c \<and> c < 2) \<Longrightarrow>
    bit_rule O_setbit (TInt c # v # TBytes a # xs) s (Panic ILL_TYPED_STACK s)"
| setbit_bytes_index: "\<not> (0 \<le> b \<and> b < int (length a) * 8) \<Longrightarrow>
    bit_rule O_setbit (v # TInt b # TBytes a # xs) s (Panic INDEX_OUT_OF_BOUNDS s)"
| setbit_int: "0 \<le> i \<Longrightarrow> i \<le> MAX_UINT64 \<Longrightarrow> 0 \<le> b \<Longrightarrow> b < 64 \<Longrightarrow> 0 \<le> c \<Longrightarrow> c < 2 \<Longrightarrow> setBitUInt64 i b c = Some i' \<Longrightarrow>
    bit_rule O_setbit (TInt c # TInt b # TInt i # xs) s (Next (TInt i' # xs) (s - 2))"
| setbit_int_ill_typed: "\<not> (0 \<le> c \<and> c < 2) \<Longrightarrow>
    bit_rule O_setbit (TInt c # v # TInt i # xs) s (Panic ILL_TYPED_STACK s)"
| setbit_int_index: "\<not> (0 \<le> b \<and> b < 64) \<Longrightarrow>
    bit_rule O_setbit (v # TInt b # TInt i # xs) s (Panic INDEX_OUT_OF_BOUNDS s)"
| getbit_bytes: "0 \<le> b \<Longrightarrow> b < int (length a) * 8 \<Longrightarrow> getBitFromBytes a b = Some i \<Longrightarrow>
    bit_rule O_getbit (TInt b # TBytes a # xs) s (Next (TInt i # xs) (s - 1))"
| getbit_int: "0 \<le> i \<Longrightarrow> i \<le> MAX_UINT64 \<Longrightarrow> 0 \<le> b \<Longrightarrow> b < 64 \<Longrightarrow>
    bit_rule O_getbit (TInt b # TInt i # xs) s (Next (TInt (bit_range_1 i b) # xs) (s - 1))"
| getbit_int_index: "\<not> (0 \<le> b \<and> b < 64) \<Longrightarrow>
    bit_rule O_getbit (TInt b # TInt i # xs) s (Panic INDEX_OUT_OF_BOUNDS s)"

section \<open>Byte arrays\<close>

text \<open>
  \<open>substring3\<close> takes its operands in the order of the source, the array on top, and the index
  panic of \<open>setbyte\<close> looks for the index on top.
\<close>

inductive byte_rule :: "byte_op \<Rightarrow> teal_value list \<Rightarrow> int \<Rightarrow> outcome \<Rightarrow> bool" where
  len: "byte_rule O_len (TBytes b # xs) s (Next (TInt (int (length b)) # xs) s)"
| itob: "int_to_bytes i = Some x \<Longrightarrow> pad_left_bytes x 8 0 = Some y \<Longrightarrow>
    byte_rule O_itob (TInt i # xs) s (Next (TBytes y # xs) s)"
| btoi: "be_int b \<le> MAX_UINT64 \<Longrightarrow> byte_rule O_btoi (TBytes b # xs) s (Next (TInt (be_int b) # xs) s)"
| btoi_overflow: "be_int b > MAX_UINT64 \<Longrightarrow> byte_rule O_btoi (TBytes b # xs) s (Panic INT_OVERFLOW s)"
| concat: "int (length (b1 @ b2)) \<le> MAX_BYTEARRAY_LEN \<Longrightarrow>
    byte_rule O_concat (TBytes b2 # TBytes b1 # xs) s (Next (TBytes (b1 @ b2) # xs) (s - 1))"
| concat_overflow: "int (length (b1 @ b2)) > MAX_BYTEARRAY_LEN \<Longrightarrow>
    byte_rule O_concat (TBytes b2 # TBytes b1 # xs) s (Panic BYTES_OVERFLOW s)"
| substring: "0 \<le> st \<Longrightarrow> st \<le> en \<Longrightarrow> en \<le> int (length b) \<Longrightarrow> substr_bytes b st en = Some x \<Longrightarrow>
    byte_rule (O_substring st en) (TBytes b # xs) s (Next (TBytes x # xs) s)"
| substring_index: "0 > st \<or> st > en \<or> en > int (length b) \<Longrightarrow>
    byte_rule (O_substring st en) (TBytes b # xs) s (Panic INDEX_OUT_OF_BOUNDS s)"
| substring3: "0 \<le> st \<Longrightarrow> st \<le> en \<Longrightarrow> en \<le> int (length b) \<Longrightarrow> substr_bytes b st en = Some x \<Longrightarrow>
    byte_rule O_substring3 (TBytes b # TInt st # TInt en # xs) s (Next (TBytes x # xs) (s - 2))"
| substring3_index: "0 > st \<or> st > en \<or> en > int (length b) \<Longrightarrow>
    byte_rule O_substring3 (TBytes b # TInt st # TInt en # xs) s (Panic INDEX_OUT_OF_BOUNDS s)"
| bzero: "n \<le> MAX_BYTEARRAY_LEN \<Longrightarrow> pad_left_bytes [] n 0 = Some x \<Longrightarrow>
    byte_rule O_bzero (TInt n # xs) s (Next (TBytes x # xs) s)"
| bzero_invalid: "n > MAX_BYTEARRAY_LEN \<Longrightarrow> byte_rule O_bzero (TInt n # xs) s (Panic INVALID_ARGUMENT s)"
| extract_part: "0 \<le> st \<Longrightarrow> st \<le> 255 \<Longrightarrow> 0 < l \<Longrightarrow> l \<le> 255 \<Longrightarrow> l \<le> int (length a) \<Longrightarrow> st + l \<le> int (length a) \<Longrightarrow>
    substr_bytes a st (st + l) = Some x \<Longrightarrow>
    byte_rule (O_extract st l) (TBytes a # xs) s (Next (TBytes x # xs) s)"
| extract_to_end: "0 \<le> st \<Longrightarrow> st \<le> 255 \<Longrightarrow> 0 = l \<Longrightarrow> st \<le> int (length a) \<Longrightarrow>
    substr_bytes a st (int (length a)) = Some x \<Longrightarrow>
    byte_rule (O_extract st l) (TBytes a # xs) s (Next (TBytes x # xs) s)"
| extract_index: "st > int (length a) \<or> st + l > int (length a) \<Longrightarrow>
    byte_rule (O_extract st l) (TBytes a # xs) s (Panic INDEX_OUT_OF_BOUNDS s)"
| extract_invalid: "0 > st \<or> st > MAX_UINT8 \<or> 0 > l \<or> l > MAX_UINT8 \<Longrightarrow>
    byte_rule (O_extract st l) xs s (Panic INVALID_ARGUMENT s)"
| extract3: "b \<le> int (length a) \<Longrightarrow> b + c \<le> int (length a) \<Longrightarrow> substr_bytes a b (b + c) = Some x \<Longrightarrow>
    byte_rule O_extract3 (TInt c # TInt b # TBytes a # xs) s (Next (TBytes x # xs) (s - 2))"
| extract3_index: "b > int (length a) \<or> b + c > int (length a) \<Longrightarrow>
    byte_rule O_extract3 (TInt c # TInt b # TBytes a # xs) s (Panic INDEX_OUT_OF_BOUNDS s)"
| extract_uint16: "b \<le> int (length a) \<Longrightarrow> b + 2 \<le> int (length a) \<Longrightarrow> substr_bytes a b (b + 2) = Some x \<Longrightarrow>
    byte_rule O_extract_uint16 (TInt b # TBytes a # xs) s (Next (TInt (be_int x) # xs) (s - 1))"
| extract_uint16_index: "b > int (length a) \<or> b + 2 > int (length a) \<Longrightarrow>
    byte_rule O_extract_uint16 (TInt b # TBytes a # xs) s (Panic INDEX_OUT_OF_BOUNDS s)"
| extract_uint32: "b \<le> int (length a) \<Longrightarrow> b + 4 \<le> int (length a) \<Longrightarrow> substr_bytes a b (b + 4) = Some x \<Longrightarrow>
    byte_rule O_extract_uint32 (TInt b # TBytes a # xs) s (Next (TInt (be_int x) # xs) (s - 1))"
| extract_uint32_index: "b > int (length a) \<or> b + 4 > int (length a) \<Longrightarrow>
    byte_rule O_extract_uint32 (TInt b # TBytes a # xs) s (Panic INDEX_OUT_OF_BOUNDS s)"
| extract_uint64: "b \<le> int (length a) \<Longrightarrow> b + 8 \<le> int (length a) \<Longrightarrow> substr_bytes a b (b + 8) = Some x \<Longrightarrow>
    byte_rule O_extract_uint64 (TInt b # TBytes a # xs) s (Next (TInt (be_int x) # xs) (s - 1))"
| extract_uint64_index: "b > int (length a) \<or> b + 8 > int (length a) \<Longrightarrow>
    byte_rule O_extract_uint64 (TInt b # TBytes a # xs) s (Panic INDEX_OUT_OF_BOUNDS s)"
| replace2: "st + int (length b) \<le> int (length a) \<Longrightarrow> replace_at_bytes a st b = Some x \<Longrightarrow>
    byte_rule (O_replace2 st) (TBytes b # TBytes a # xs) s (Next (TBytes x # xs) (s - 1))"
| replace2_overflow: "st + int (length b) > int (length a) \<Longrightarrow>
    byte_rule (O_replace2 st) (TBytes b # TBytes a # xs) s (Panic BYTES_OVERFLOW s)"
| replace3: "st + int (length b) \<le> int (length a) \<Longrightarrow> replace_at_bytes a st b = Some x \<Longrightarrow>
    byte_rule O_replace3 (TBytes b # TInt st # TBytes a # xs) s (Next (TBytes x # xs) (s - 2))"
| replace3_overflow: "st + int (length b) > int (length a) \<Longrightarrow>
    byte_rule O_replace3 (TBytes b # TInt st # TBytes a # xs) s (Panic BYTES_OVERFLOW s)"
| getbyte: "0 \<le> b \<Longrightarrow> b < int (length a) \<Longrightarrow> byte_at a b = Some i \<Longrightarrow>
    byte_rule O_getbyte (TInt b # TBytes a # xs) s (Next (TInt i # xs) (s - 1))"
| getbyte_index: "0 > b \<or> b \<ge> int (length a) \<Longrightarrow>
    byte_rule O_getbyte (TInt b # TBytes a # xs) s (Panic INDEX_OUT_OF_BOUNDS s)"
| setbyte: "0 \<le> b \<Longrightarrow> b < int (length a) \<Longrightarrow> 0 \<le> c \<Longrightarrow> c \<le> MAX_UINT8 \<Longrightarrow> byte_update a b c = Some x \<Longrightarrow>
    byte_rule O_setbyte (TInt c # TInt b # TBytes a # xs) s (Next (TBytes x # xs) (s - 2))"
| setbyte_index: "0 > b \<or> b \<ge> int (length a) \<Longrightarrow>
    byte_rule O_setbyte (TInt b # TBytes a # xs) s (Panic INDEX_OUT_OF_BOUNDS s)"
| setbyte_ill_typed: "0 > c \<or> c > MAX_UINT8 \<Longrightarrow>
    byte_rule O_setbyte (TInt c # v # w # xs) s (Panic ILL_TYPED_STACK s)"

section \<open>Byte arrays as numbers\<close>

text \<open>
  The two rules on long arguments also count the cell \<open>stacksize\<close> down. The bitwise opcodes
  themselves do not look at the lengths.
\<close>

definition math_sized :: "bytes \<Rightarrow> bytes \<Rightarrow> bool" where
  "math_sized a b \<longleftrightarrow> int (length a) \<le> MAX_BYTE_MATH_SIZE \<and> int (length b) \<le> MAX_BYTE_MATH_SIZE"

inductive math_byte_rule :: "math_byte_op \<Rightarrow> teal_value list \<Rightarrow> int \<Rightarrow> outcome \<Rightarrow> bool" where
  too_long: "f \<noteq> O_bnot \<Longrightarrow> int (length a) > MAX_BYTE_MATH_SIZE \<or> int (length b) > MAX_BYTE_MATH_SIZE \<Longrightarrow>
    math_byte_rule f (TBytes b # TBytes a # xs) s (Panic MATH_BYTES_ARG_TOO_LONG (s - 1))"
| bnot_too_long: "int (length a) > MAX_BYTE_MATH_SIZE \<Longrightarrow>
    math_byte_rule O_bnot (TBytes a # xs) s (Panic MATH_BYTES_ARG_TOO_LONG (s - 1))"
| badd: "math_sized a b \<Longrightarrow> int_to_bytes (be_int a + be_int b) = Some x \<Longrightarrow>
    math_byte_rule O_badd (TBytes b # TBytes a # xs) s (Next (TBytes x # xs) (s - 1))"
| bsub: "math_sized a b \<Longrightarrow> be_int a - be_int b \<ge> 0 \<Longrightarrow> int_to_bytes (be_int a - be_int b) = Some x \<Longrightarrow>
    math_byte_rule O_bsub (TBytes b # TBytes a # xs) s (Next (TBytes x # xs) (s - 1))"
| bsub_underflow: "be_int a - be_int b < 0 \<Longrightarrow>
    math_byte_rule O_bsub (TBytes b # TBytes a # xs) s (Panic INT_UNDERFLOW s)"
| bdiv: "math_sized a b \<Longrightarrow> be_int b > 0 \<Longrightarrow> int_to_bytes (be_int a sdiv be_int b) = Some x \<Longrightarrow>
    math_byte_rule O_bdiv (TBytes b # TBytes a # xs) s (Next (TBytes x # xs) (s - 1))"
| bdiv_zero: "be_int b = 0 \<Longrightarrow> math_byte_rule O_bdiv (TBytes b # TBytes a # xs) s (Panic DIV_BY_ZERO s)"
| bmod: "math_sized a b \<Longrightarrow> be_int b > 0 \<Longrightarrow> int_to_bytes (be_int a smod be_int b) = Some x \<Longrightarrow>
    math_byte_rule O_bmod (TBytes b # TBytes a # xs) s (Next (TBytes x # xs) (s - 1))"
| bmod_zero: "be_int b = 0 \<Longrightarrow> math_byte_rule O_bmod (TBytes b # TBytes a # xs) s (Panic DIV_BY_ZERO s)"
| bmul: "math_sized a b \<Longrightarrow> int_to_bytes (be_int a * be_int b) = Some x \<Longrightarrow>
    math_byte_rule O_bmul (TBytes b # TBytes a # xs) s (Next (TBytes x # xs) (s - 1))"
| blt: "math_sized a b \<Longrightarrow>
    math_byte_rule O_blt (TBytes b # TBytes a # xs) s (Next (TInt (bool2Int (be_int a < be_int b)) # xs) (s - 1))"
| bgt: "math_sized a b \<Longrightarrow>
    math_byte_rule O_bgt (TBytes b # TBytes a # xs) s (Next (TInt (bool2Int (be_int a > be_int b)) # xs) (s - 1))"
| ble: "math_sized a b \<Longrightarrow>
    math_byte_rule O_ble (TBytes b # TBytes a # xs) s (Next (TInt (bool2Int (be_int a \<le> be_int b)) # xs) (s - 1))"
| bge: "math_sized a b \<Longrightarrow>
    math_byte_rule O_bge (TBytes b # TBytes a # xs) s (Next (TInt (bool2Int (be_int a \<ge> be_int b)) # xs) (s - 1))"
| beq: "math_sized a b \<Longrightarrow>
    math_byte_rule O_beq (TBytes b # TBytes a # xs) s (Next (TInt (bool2Int (be_int a = be_int b)) # xs) (s - 1))"
| bneq: "math_sized a b \<Longrightarrow>
    math_byte_rule O_bneq (TBytes b # TBytes a # xs) s (Next (TInt (bool2Int (be_int a \<noteq> be_int b)) # xs) (s - 1))"
| bbitop: "BytesBitwiseOp a b f = Some x \<Longrightarrow>
    math_byte_rule (O_bbitop f) (TBytes b # TBytes a # xs) s (Next (TBytes x # xs) (s - 1))"
| bnot: "pad_left_bytes [] (int (length a)) 255 = Some m \<Longrightarrow> BytesBitwiseOp a m BytesXor = Some x \<Longrightarrow>
    math_byte_rule O_bnot (TBytes a # xs) s (Next (TBytes x # xs) s)"

section \<open>Constants\<close>

record crypto =
  Sha256raw :: "bytes \<Rightarrow> bytes"
  Keccak256raw :: "bytes \<Rightarrow> bytes"
  Sha512_256raw :: "bytes \<Rightarrow> bytes"

inductive crypto_rule :: "crypto \<Rightarrow> crypto_op \<Rightarrow> teal_value list \<Rightarrow> int \<Rightarrow> outcome \<Rightarrow> bool" for C where
  sha256: "crypto_rule C O_sha256 (TBytes b # xs) s (Next (TBytes (Sha256raw C b) # xs) s)"
| keccak256: "crypto_rule C O_keccak256 (TBytes b # xs) s (Next (TBytes (Keccak256raw C b) # xs) s)"
| sha512_256: "crypto_rule C O_sha512_256 (TBytes b # xs) s (Next (TBytes (Sha512_256raw C b) # xs) s)"

definition methodSelector :: "crypto \<Rightarrow> bytes \<Rightarrow> bytes option" where
  "methodSelector C m = substr_bytes (Sha512_256raw C m) 0 4"

inductive pseudo_rule :: "crypto \<Rightarrow> pseudo_op \<Rightarrow> teal_value list \<Rightarrow> int \<Rightarrow> outcome \<Rightarrow> bool" for C where
  int_const: "s < MAX_STACK_DEPTH \<Longrightarrow> pseudo_rule C (O_int i) xs s (Next (TInt i # xs) (s + 1))"
| byte_const: "s < MAX_STACK_DEPTH \<Longrightarrow> pseudo_rule C (O_byte b) xs s (Next (TBytes b # xs) (s + 1))"
| addr_const: "s < MAX_STACK_DEPTH \<Longrightarrow> pseudo_rule C (O_addr b) xs s (Next (TBytes b # xs) (s + 1))"
| method_const: "s < MAX_STACK_DEPTH \<Longrightarrow> methodSelector C m = Some b \<Longrightarrow>
    pseudo_rule C (O_method m) xs s (Next (TBytes b # xs) (s + 1))"
| pseudo_overflow: "s \<ge> MAX_STACK_DEPTH \<Longrightarrow> pseudo_rule C f xs s (Panic STACK_OVERFLOW s)"

section \<open>The stack\<close>

text \<open>
  \<open>#take\<close> and \<open>#drop\<close> of \<open>teal-stack.md\<close>, the element with a number counted from the top,
  \<open>S [ N ]\<close>, and from the bottom, \<open>S { N }\<close>, and the update \<open>S { N <- M }\<close>, which has no
  condition on the number.
\<close>

definition take_stack :: "int \<Rightarrow> teal_value list \<Rightarrow> teal_value list" where "take_stack n xs = take (nat n) xs"

definition drop_stack :: "int \<Rightarrow> teal_value list \<Rightarrow> teal_value list" where "drop_stack n xs = drop (nat n) xs"

definition stack_top :: "teal_value list \<Rightarrow> int \<Rightarrow> teal_value option" where
  "stack_top xs n = (if 0 \<le> n \<and> n < int (length xs) then Some (xs ! nat n) else None)"

definition stack_bottom :: "teal_value list \<Rightarrow> int \<Rightarrow> teal_value option" where
  "stack_bottom xs n =
     (if n < int (length xs) then stack_top (drop_stack (int (length xs) - n - 1) xs) 0 else None)"

definition stack_set :: "teal_value list \<Rightarrow> int \<Rightarrow> teal_value \<Rightarrow> teal_value list" where
  "stack_set xs n m = take_stack (int (length xs) - n - 1) xs @ m # drop_stack (int (length xs) - n) xs"

inductive stack_rule :: "stack_op \<Rightarrow> teal_value list \<Rightarrow> int \<Rightarrow> outcome \<Rightarrow> bool" where
  pushint: "s < MAX_STACK_DEPTH \<Longrightarrow> stack_rule (O_pushint i) xs s (Next (TInt i # xs) (s + 1))"
| pushbytes: "s < MAX_STACK_DEPTH \<Longrightarrow> stack_rule (O_pushbytes b) xs s (Next (TBytes b # xs) (s + 1))"
| pop: "stack_rule O_pop (v # xs) s (Next xs (s - 1))"
| dup: "s < MAX_STACK_DEPTH \<Longrightarrow> stack_rule O_dup (x # xs) s (Next (x # x # xs) (s + 1))"
| dup_overflow: "s \<ge> MAX_STACK_DEPTH \<Longrightarrow> stack_rule O_dup xs s (Panic STACK_OVERFLOW s)"
| dup2: "s + 1 < MAX_STACK_DEPTH \<Longrightarrow> stack_rule O_dup2 (v2 # v1 # xs) s (Next (v2 # v1 # v2 # v1 # xs) (s + 2))"
| dup2_overflow: "s + 1 \<ge> MAX_STACK_DEPTH \<Longrightarrow> stack_rule O_dup2 xs s (Panic STACK_OVERFLOW s)"
| dig: "s < MAX_STACK_DEPTH \<Longrightarrow> 0 \<le> n \<Longrightarrow> n < s \<Longrightarrow> stack_top xs n = Some v \<Longrightarrow>
    stack_rule (O_dig n) xs s (Next (v # xs) (s + 1))"
| dig_overflow: "s \<ge> MAX_STACK_DEPTH \<Longrightarrow> stack_rule (O_dig n) xs s (Panic STACK_OVERFLOW s)"
| dig_underflow: "\<not> (0 \<le> n \<and> n < s) \<Longrightarrow> stack_rule (O_dig n) xs s (Panic STACK_UNDERFLOW s)"
| cover: "0 \<le> n \<Longrightarrow> n < s \<Longrightarrow> stack_rule (O_cover n) (x # xs) s (Next (take_stack n xs @ x # drop_stack n xs) s)"
| cover_underflow: "\<not> (0 \<le> n \<and> n < s) \<Longrightarrow> stack_rule (O_cover n) xs s (Panic STACK_UNDERFLOW s)"
| uncover: "0 \<le> n \<Longrightarrow> n < s \<Longrightarrow> stack_top xs n = Some v \<Longrightarrow>
    stack_rule (O_uncover n) xs s (Next (v # take_stack n xs @ drop_stack (n + 1) xs) s)"
| uncover_underflow: "\<not> (0 \<le> n \<and> n < s) \<Longrightarrow> stack_rule (O_uncover n) xs s (Panic STACK_UNDERFLOW s)"
| swap: "stack_rule O_swap (x # y # xs) s (Next (y # x # xs) s)"
| swap_underflow: "stack_rule O_swap [v] s (Panic STACK_UNDERFLOW s)"
| select_second: "int2Bool a \<Longrightarrow> stack_rule O_select (TInt a # b # c # xs) s (Next (b # xs) (s - 2))"
| select_third: "\<not> int2Bool a \<Longrightarrow> stack_rule O_select (TInt a # b # c # xs) s (Next (c # xs) (s - 2))"
| bury: "0 < n \<Longrightarrow> n < s \<Longrightarrow> stack_rule (O_bury n) (a # xs) s (Next (take_stack (n - 1) xs @ a # drop_stack n xs) (s - 1))"
| bury_underflow: "\<not> (0 < n \<and> n < s) \<Longrightarrow> stack_rule (O_bury n) xs s (Panic STACK_UNDERFLOW s)"
| popn: "n \<le> s \<Longrightarrow> stack_rule (O_popn n) xs s (Next (drop_stack n xs) (s - n))"
| popn_underflow: "n > s \<Longrightarrow> stack_rule (O_popn n) xs s (Panic STACK_UNDERFLOW s)"

section \<open>Ill-typed and missing arguments\<close>

inductive ill_typed_rule :: "opcode \<Rightarrow> teal_value list \<Rightarrow> int \<Rightarrow> outcome \<Rightarrow> bool" where
  binary: "isBinaryArithOpCode op \<or> isInequalityOpCode op \<or> isBinaryLogicalOpCode op \<or> isBinaryBitOpCode op \<Longrightarrow>
    is_bytes v2 \<or> is_bytes v1 \<Longrightarrow> ill_typed_rule op (v2 # v1 # xs) s (Panic ILL_TYPED_STACK s)"
| unary: "isUnaryLogicalOpCode op \<Longrightarrow> ill_typed_rule op (TBytes b # xs) s (Panic ILL_TYPED_STACK s)"
| equality: "isEqualityOpCode op \<Longrightarrow> is_bytes v1 \<and> \<not> is_bytes v2 \<or> is_bytes v2 \<and> \<not> is_bytes v1 \<Longrightarrow>
    ill_typed_rule op (v2 # v1 # xs) s (Panic ILL_TYPED_STACK s)"
| math: "\<not> is_bytes a \<or> \<not> is_bytes b \<Longrightarrow> f \<noteq> O_bnot \<Longrightarrow>
    ill_typed_rule (MathByte f) (a # b # xs) s (Panic ILL_TYPED_STACK s)"
| bnot: "ill_typed_rule (MathByte O_bnot) (TInt i # xs) s (Panic ILL_TYPED_STACK s)"
| len: "ill_typed_rule (Byte O_len) (TInt i # xs) s (Panic ILL_TYPED_STACK s)"
| itob: "ill_typed_rule (Byte O_itob) (TBytes b # xs) s (Panic ILL_TYPED_STACK s)"
| btoi: "ill_typed_rule (Byte O_btoi) (TInt i # xs) s (Panic ILL_TYPED_STACK s)"
| concat: "\<not> is_bytes v2 \<or> \<not> is_bytes v1 \<Longrightarrow>
    ill_typed_rule (Byte O_concat) (v2 # v1 # xs) s (Panic ILL_TYPED_STACK s)"
| substring: "ill_typed_rule (Byte (O_substring st en)) (TInt i # xs) s (Panic ILL_TYPED_STACK s)"
| substring3: "\<not> is_bytes v \<or> is_bytes st \<or> is_bytes en \<Longrightarrow>
    ill_typed_rule (Byte O_substring3) (v # st # en # xs) s (Panic ILL_TYPED_STACK s)"
| branch: "isCondBranchOpCode op \<or> op = Branch O_return \<Longrightarrow>
    ill_typed_rule op (TBytes b # xs) s (Panic ILL_TYPED_STACK s)"

inductive underflow_rule :: "opcode \<Rightarrow> teal_value list \<Rightarrow> int \<Rightarrow> outcome \<Rightarrow> bool" where
  three: "isTernaryByteOpCode op \<or> op = Stack O_select \<Longrightarrow> underflow_rule op [v, w] 2 (Panic STACK_UNDERFLOW 2)"
| two: "isBinaryArithOpCode op \<or> isBinaryBitOpCode op \<or> isInequalityOpCode op \<or> isEqualityOpCode op \<or>
    isBinaryLogicalOpCode op \<or> isBinaryByteOpCode op \<or> isTernaryByteOpCode op \<or> isBinaryStackOpCode op \<Longrightarrow>
    underflow_rule op [v] 1 (Panic STACK_UNDERFLOW 1)"
| one: "takes_argument op \<Longrightarrow> underflow_rule op [] 0 (Panic STACK_UNDERFLOW 0)"

section \<open>All opcodes of the stack\<close>

text \<open>
  The remaining opcodes that need nothing but the stack, and the rules of the opcode's group
  together with the two general kinds of panic.
\<close>

inductive op_rule :: "crypto \<Rightarrow> opcode \<Rightarrow> teal_value list \<Rightarrow> int \<Rightarrow> outcome \<Rightarrow> bool" for C where
  noop: "op_rule C NoOpCode xs s (Next xs s)"
| label: "op_rule C (LabelCode l) xs s (Next xs s)"
| err: "op_rule C Err xs s (Panic ERR_OPCODE s)"
| assert: "x > 0 \<Longrightarrow> op_rule C (Branch O_assert) (TInt x # xs) s (Next xs (s - 1))"
| assert_violation: "x = 0 \<Longrightarrow> op_rule C (Branch O_assert) (TInt x # xs) s (Panic ASSERTION_VIOLATION s)"
| assert_negative: "x < 0 \<Longrightarrow> op_rule C (Branch O_assert) (TInt x # xs) s (Panic IMPOSSIBLE_NEGATIVE_NUMBER s)"
| crypto: "crypto_rule C f xs s r \<Longrightarrow> op_rule C (Crypto f) xs s r"
| arith: "arith_rule f xs s r \<Longrightarrow> op_rule C (Arith f) xs s r"
| bit: "bit_rule g xs s r \<Longrightarrow> op_rule C (Bit g) xs s r"
| relational: "relational_rule e xs s r \<Longrightarrow> op_rule C (Relational e) xs s r"
| logical: "logical_rule l xs s r \<Longrightarrow> op_rule C (Logical l) xs s r"
| byte: "byte_rule b xs s r \<Longrightarrow> op_rule C (Byte b) xs s r"
| math_byte: "math_byte_rule m xs s r \<Longrightarrow> op_rule C (MathByte m) xs s r"
| pseudo: "pseudo_rule C p xs s r \<Longrightarrow> op_rule C (Pseudo p) xs s r"
| stack: "stack_rule t xs s r \<Longrightarrow> op_rule C (Stack t) xs s r"
| ill_typed: "ill_typed_rule op xs s r \<Longrightarrow> op_rule C op xs s r"
| underflow: "underflow_rule op xs s r \<Longrightarrow> op_rule C op xs s r"

end
