(* ===== verification/TealTyping.thy ===== *)
theory TealTyping
  imports TealOpcodes
begin

text \<open>
  What an opcode keeps of the stack: values within the bounds of the AVM, at most 1000 of them,
  and the cell \<open>stacksize\<close> equal to their number.
\<close>

section \<open>Well-formed stacks\<close>

definition stack_ok :: "teal_value list \<Rightarrow> int \<Rightarrow> bool" where
  "stack_ok xs s \<longleftrightarrow> s = int (length xs) \<and> s \<le> MAX_STACK_DEPTH \<and> list_all tvalue_ok xs"

text \<open>Immediate arguments that the assembler accepts, and hash functions with results of 32 bytes.\<close>

fun op_ok :: "opcode \<Rightarrow> bool" where
  "op_ok (Pseudo (O_int i)) = tvalue_ok (TInt i)"
| "op_ok (Pseudo (O_byte b)) = tvalue_ok (TBytes b)"
| "op_ok (Pseudo (O_addr b)) = tvalue_ok (TBytes b)"
| "op_ok (Stack (O_pushint i)) = tvalue_ok (TInt i)"
| "op_ok (Stack (O_pushbytes b)) = tvalue_ok (TBytes b)"
| "op_ok (Stack (O_popn n)) = (0 \<le> n)"
| "op_ok _ = True"

definition crypto_law :: "crypto \<Rightarrow> bool" where
  "crypto_law C \<longleftrightarrow> (\<forall>b. length (Sha256raw C b) = 32 \<and> length (Keccak256raw C b) = 32 \<and> length (Sha512_256raw C b) = 32)"

lemma stack_ok_Cons [simp]:
  "stack_ok (v # xs) s \<longleftrightarrow> tvalue_ok v \<and> s \<le> MAX_STACK_DEPTH \<and> stack_ok xs (s - 1)"
  by (auto simp: stack_ok_def)

lemma stack_ok_size: "stack_ok xs s \<Longrightarrow> s \<le> MAX_STACK_DEPTH \<and> 0 \<le> s"
  by (simp add: stack_ok_def)

section \<open>Bounds of the values the rules compute\<close>

text \<open>Conditional rules that the simplifier discharges with the bounds of the arguments.\<close>

named_theorems teal_bounds

lemma sdiv_nonneg: "0 \<le> a \<Longrightarrow> 0 \<le> b \<Longrightarrow> a sdiv b = a div (b :: int)"
  by (cases "a = 0 \<or> b = 0") (auto simp: signed_divide_int_def)

lemma smod_nonneg: "0 \<le> a \<Longrightarrow> 0 \<le> b \<Longrightarrow> a smod b = a mod (b :: int)"
  by (cases "a = 0") (auto simp: signed_modulo_int_def)

lemma bool2Int_range [teal_bounds]: "0 \<le> bool2Int b" "bool2Int b \<le> MAX_UINT64"
  by (simp_all add: bool2Int_def MAX_UINT64_def)

lemma uint64_bits: "0 \<le> i \<and> i \<le> MAX_UINT64 \<longleftrightarrow> take_bit 64 i = i"
  by (auto simp: take_bit_int_eq_self_iff MAX_UINT64_def)

lemma bitop_range [teal_bounds]:
  assumes "0 \<le> i" "i \<le> MAX_UINT64" "0 \<le> j" "j \<le> MAX_UINT64"
  shows "i OR j \<le> MAX_UINT64" "i AND j \<le> MAX_UINT64" "i XOR j \<le> MAX_UINT64"
proof -
  have ij: "take_bit 64 i = i" "take_bit 64 j = j" using assms uint64_bits by blast+
  have "take_bit 64 (i OR j) = i OR j" "take_bit 64 (i AND j) = i AND j" "take_bit 64 (i XOR j) = i XOR j"
    by (simp_all only: take_bit_or take_bit_and take_bit_xor ij)
  then show "i OR j \<le> MAX_UINT64" "i AND j \<le> MAX_UINT64" "i XOR j \<le> MAX_UINT64"
    using uint64_bits by blast+
qed

lemma max_uint64_nonneg [teal_bounds]: "0 \<le> MAX_UINT64"
  by (simp add: MAX_UINT64_def)

lemma sqrtTUInt64_range [teal_bounds]:
  assumes "sqrtTUInt64 x = Some r"
  shows "0 \<le> r" "r \<le> MAX_UINT64"
proof -
  from assms have x: "0 \<le> x" "x \<le> MAX_UINT64" by (auto simp: sqrtTUInt64_def split: if_splits)
  then have "is_sqrt x r" using sqrtTUInt64_root assms by fastforce
  then show "0 \<le> r" "r \<le> MAX_UINT64" using is_sqrt_below [of x r] x(2) by (auto simp: is_sqrt_def)
qed

lemma div_below: "0 \<le> a \<Longrightarrow> 0 < b \<Longrightarrow> a div b \<le> (a :: int)"
  using int_div_less_self [of a b] by (cases "b = 1 \<or> a = 0") (auto simp: order_less_imp_le)

lemma sdiv_range [teal_bounds]:
  "0 \<le> a \<Longrightarrow> 0 \<le> b \<Longrightarrow> 0 \<le> a sdiv (b :: int)"
  "0 \<le> a \<Longrightarrow> a \<le> m \<Longrightarrow> 0 < b \<Longrightarrow> a sdiv b \<le> (m :: int)"
  by (cases "b = 0", simp_all add: sdiv_nonneg pos_imp_zdiv_nonneg_iff order_trans [OF div_below])

lemma smod_range [teal_bounds]:
  "0 \<le> a \<Longrightarrow> 0 < b \<Longrightarrow> 0 \<le> a smod (b :: int)"
  "0 \<le> a \<Longrightarrow> a \<le> m \<Longrightarrow> 0 < b \<Longrightarrow> a smod b \<le> (m :: int)"
  using zmod_le_nonneg_dividend [of a b] by (simp_all add: smod_nonneg)

lemma wide_range [teal_bounds]:
  "0 \<le> lowerU64 i" "lowerU64 i \<le> MAX_UINT64"
  "0 \<le> i \<Longrightarrow> 0 \<le> upperU64 i"
  "0 \<le> i \<Longrightarrow> i \<le> MAX_UINT128 \<Longrightarrow> upperU64 i \<le> MAX_UINT64"
  using lowerU64_ok [of i] upperU64_ok [of i] by (simp_all add: MAX_UINT128_def upperU64_div pos_imp_zdiv_nonneg_iff)

lemma wide_arith_range [teal_bounds]:
  assumes "0 \<le> i" "i \<le> MAX_UINT64" "0 \<le> j" "j \<le> MAX_UINT64"
  shows "i + j \<le> MAX_UINT128" "i * j \<le> MAX_UINT128" "0 \<le> asUInt128 i j" "asUInt128 i j \<le> MAX_UINT128"
proof -
  have "i * j \<le> MAX_UINT64 * MAX_UINT64" using assms by (intro mult_mono) simp_all
  then show "i * j \<le> MAX_UINT128" by (simp add: MAX_UINT64_def MAX_UINT128_def)
  show "i + j \<le> MAX_UINT128" using assms by (simp add: MAX_UINT64_def MAX_UINT128_def)
  show "0 \<le> asUInt128 i j" "asUInt128 i j \<le> MAX_UINT128"
    using asUInt128_bounds [OF assms] by (simp_all add: MAX_UINT128_def)
qed

lemma asUInt128_positive [teal_bounds]:
  "0 \<le> i \<Longrightarrow> 0 \<le> j \<Longrightarrow> (i = 0 \<longrightarrow> j \<noteq> 0) \<Longrightarrow> 0 < asUInt128 i j"
  using asUInt128_zero [of i j] by (auto simp: asUInt128_def push_bit_eq_mult)

lemma arith_rule_ok:
  assumes "arith_rule f xs s (Next ys t)" and "stack_ok xs s"
  shows "stack_ok ys t"
  using assms by cases (auto simp: teal_bounds)

lemma relational_rule_ok:
  assumes "relational_rule f xs s (Next ys t)" and "stack_ok xs s"
  shows "stack_ok ys t"
  using assms by cases (auto simp: teal_bounds)

lemma logical_rule_ok:
  assumes "logical_rule f xs s (Next ys t)" and "stack_ok xs s"
  shows "stack_ok ys t"
  using assms by cases (auto simp: teal_bounds)

lemma bytes_number_range [teal_bounds]: "int (length b) \<le> MAX_BYTEARRAY_LEN \<Longrightarrow> be_int b < 2 ^ 32768"
proof -
  assume "int (length b) \<le> MAX_BYTEARRAY_LEN"
  then have "length b \<le> 4096" by (simp add: MAX_BYTEARRAY_LEN_def)
  then have "(256 :: int) ^ length b \<le> 256 ^ 4096" by (intro power_increasing) simp_all
  also have "(256 :: int) ^ 4096 = 2 ^ 32768"
  proof -
    have "(256 :: int) = 2 ^ 8" by simp
    then have "(256 :: int) ^ 4096 = 2 ^ (8 * 4096)" by (simp only: power_mult)
    then show ?thesis by (simp only: mult_numeral_1 arith_simps numeral_times_numeral)
  qed
  finally show ?thesis using be_int_bounds(2) [of b] by (rule less_le_trans [rotated])
qed

lemma log2Int_range: "0 < i \<Longrightarrow> i < 2 ^ n \<Longrightarrow> 0 \<le> log2Int i + 1 \<and> log2Int i + 1 \<le> int n"
  using bitlen_le_iff_power [of i n] by (simp add: log2Int_def bitlen_nonneg)

lemma shift_range [teal_bounds]:
  "0 \<le> j mod (MAX_UINT64 + 1)" "j mod (MAX_UINT64 + 1) \<le> MAX_UINT64"
  "0 \<le> i \<Longrightarrow> i \<le> MAX_UINT64 \<Longrightarrow> drop_bit n i \<le> MAX_UINT64"
proof -
  have "0 < MAX_UINT64 + 1" by (simp add: MAX_UINT64_def)
  then show "0 \<le> j mod (MAX_UINT64 + 1)" "j mod (MAX_UINT64 + 1) \<le> MAX_UINT64"
    using pos_mod_bound [of "MAX_UINT64 + 1" j] by simp_all
  show "drop_bit n i \<le> MAX_UINT64" if "0 \<le> i" "i \<le> MAX_UINT64"
    using div_below [of i "2 ^ n"] that by (simp add: drop_bit_eq_div)
qed

lemma bitlen_range [teal_bounds]:
  "0 < i \<Longrightarrow> 0 \<le> log2Int i + 1"
  "0 < i \<Longrightarrow> i \<le> MAX_UINT64 \<Longrightarrow> log2Int i + 1 \<le> MAX_UINT64"
  "0 < be_int b \<Longrightarrow> int (length b) \<le> MAX_BYTEARRAY_LEN \<Longrightarrow> log2Int (be_int b) + 1 \<le> MAX_UINT64"
proof -
  show "0 \<le> log2Int i + 1" if "0 < i" using bitlen_nonneg [of i] by (simp add: log2Int_def)
  show "log2Int i + 1 \<le> MAX_UINT64" if "0 < i" "i \<le> MAX_UINT64"
    using log2Int_range [of i 64] that by (simp add: MAX_UINT64_def)
  show "log2Int (be_int b) + 1 \<le> MAX_UINT64" if "0 < be_int b" "int (length b) \<le> MAX_BYTEARRAY_LEN"
    using log2Int_range [OF that(1) bytes_number_range [OF that(2)]] by (simp add: MAX_UINT64_def)
qed

lemma bsqrt_length [teal_bounds]:
  assumes "sqrtUInt (be_int b) = Some r" and "int_to_bytes r = Some c" and "int (length b) \<le> m"
  shows "int (length c) \<le> m"
proof -
  obtain r' where "is_sqrt (be_int b) r'" using is_sqrt_exists [of "be_int b"] by auto
  then have "is_sqrt (be_int b) r" using sqrtUInt_root [of "be_int b" r'] assms(1) by simp
  then have "r < 256 ^ length b" using is_sqrt_below be_int_bounds(2) [of b] by fastforce
  with assms(2) have "length c \<le> length b" by (rule int_to_bytes_length)
  with assms(3) show ?thesis by simp
qed

lemma set_bit_range [teal_bounds]:
  "setBitUInt64 i b c = Some j \<Longrightarrow> 0 \<le> j"
  "setBitUInt64 i b c = Some j \<Longrightarrow> j \<le> MAX_UINT64"
  "setBitInBytes a b c = Some a' \<Longrightarrow> length a' = length a"
proof -
  assume j: "setBitUInt64 i b c = Some j"
  then have i: "0 \<le> i" "i \<le> MAX_UINT64" and b: "nat b < 64" by (auto simp: setBitUInt64_def split: if_splits)
  have p: "0 \<le> push_bit (nat b) (1 :: int)" "push_bit (nat b) (1 :: int) \<le> MAX_UINT64"
  proof -
    have "(2 :: int) ^ nat b \<le> 2 ^ 63" using b by (intro power_increasing) simp_all
    then show "0 \<le> push_bit (nat b) (1 :: int)" "push_bit (nat b) (1 :: int) \<le> MAX_UINT64"
      by (simp_all add: push_bit_eq_mult MAX_UINT64_def)
  qed
  have "i AND k \<le> i" for k using i(1) by (rule AND_upper1)
  then show "0 \<le> j" "j \<le> MAX_UINT64"
    using j i bitop_range(1) [OF i p] by (auto simp: setBitUInt64_def intro: order_trans split: if_splits)
next
  assume "setBitInBytes a b c = Some a'"
  then show "length a' = length a"
    by (auto simp: setBitInBytes_def bind_eq_Some_conv byte_update_length)
qed

lemma get_bit_range [teal_bounds]:
  "0 \<le> bit_range_1 i b" "bit_range_1 i b \<le> MAX_UINT64"
  "getBitFromBytes a b = Some i \<Longrightarrow> 0 \<le> i" "getBitFromBytes a b = Some i \<Longrightarrow> i \<le> MAX_UINT64"
proof -
  have r: "0 \<le> bit_range_1 i b" "bit_range_1 i b \<le> MAX_UINT64" for i b
    using pos_mod_bound [of 2 "drop_bit (nat b) i"] by (simp_all add: bit_range_1_def MAX_UINT64_def)
  then show "0 \<le> bit_range_1 i b" "bit_range_1 i b \<le> MAX_UINT64" by blast+
  show "0 \<le> i" "i \<le> MAX_UINT64" if "getBitFromBytes a b = Some i"
    using that r by (auto simp: getBitFromBytes_def)
qed

lemma bit_rule_ok:
  assumes "bit_rule f xs s (Next ys t)" and "stack_ok xs s"
  shows "stack_ok ys t"
  using assms by cases (auto simp: teal_bounds)

lemma bytes_math_length [teal_bounds]:
  assumes "length a \<le> 64" "length b \<le> 64"
  shows "be_int a + be_int b < 256 ^ 128" "be_int a * be_int b < 256 ^ 128" "be_int a < 256 ^ 128"
proof -
  have p: "(256 :: int) ^ n \<le> 256 ^ 64" if "n \<le> 64" for n using that by (intro power_increasing) simp_all
  have ab: "be_int a < 256 ^ 64" "be_int b < 256 ^ 64"
    using be_int_bounds(2) [of a] be_int_bounds(2) [of b] p [OF assms(1)] p [OF assms(2)] by simp_all
  show "be_int a + be_int b < 256 ^ 128" "be_int a < 256 ^ 128" using ab by simp_all
  show "be_int a * be_int b < 256 ^ 128" using mult_strict_mono [OF ab] by simp
qed

lemma part_length [teal_bounds]:
  "substr_bytes b st en = Some x \<Longrightarrow> int (length b) \<le> m \<Longrightarrow> int (length x) \<le> m"
  "replace_at_bytes a st b = Some x \<Longrightarrow> length x = length a"
  "byte_update a i v = Some x \<Longrightarrow> length x = length a"
  "pad_left_bytes [] n p = Some x \<Longrightarrow> int (length x) = n"
  "pad_left_bytes [] (int k) p = Some x \<Longrightarrow> length x = k"
  using substr_bytes_length [of b st en x] replace_at_bytes_length byte_update_length
  by (auto simp: pad_left_bytes_Some)

lemma part_range [teal_bounds]:
  "byte_at a i = Some v \<Longrightarrow> 0 \<le> v" "byte_at a i = Some v \<Longrightarrow> v \<le> MAX_UINT64"
  "substr_bytes a b (b + 2) = Some x \<Longrightarrow> be_int x \<le> MAX_UINT64"
  "substr_bytes a b (b + 4) = Some x \<Longrightarrow> be_int x \<le> MAX_UINT64"
  "substr_bytes a b (b + 8) = Some x \<Longrightarrow> be_int x \<le> MAX_UINT64"
proof -
  show "0 \<le> v" "v \<le> MAX_UINT64" if "byte_at a i = Some v"
    using byte_at_bounds [OF that] by (simp_all add: MAX_UINT64_def)
  have "be_int x \<le> MAX_UINT64" if "substr_bytes a b (b + int n) = Some x" "n \<le> 8" for n
  proof -
    have "(256 :: int) ^ length x \<le> 256 ^ 8"
      using substr_bytes_length [OF that(1)] that(2) by (intro power_increasing) simp_all
    with be_int_bounds(2) [of x] show ?thesis by (simp add: MAX_UINT64_def)
  qed
  from this [of 2] this [of 4] this [of 8]
  show "substr_bytes a b (b + 2) = Some x \<Longrightarrow> be_int x \<le> MAX_UINT64"
    "substr_bytes a b (b + 4) = Some x \<Longrightarrow> be_int x \<le> MAX_UINT64"
    "substr_bytes a b (b + 8) = Some x \<Longrightarrow> be_int x \<le> MAX_UINT64" by simp_all
qed

lemma itob_bytes_length [teal_bounds]:
  assumes "int_to_bytes i = Some x" and "pad_left_bytes x 8 0 = Some y" and "i \<le> MAX_UINT64"
  shows "int (length y) \<le> MAX_BYTEARRAY_LEN"
proof -
  have "length x \<le> 8" by (rule int_to_bytes_length [OF assms(1)]) (use assms(3) in \<open>simp add: MAX_UINT64_def\<close>)
  with assms(2) show ?thesis by (simp add: pad_left_bytes_Some MAX_BYTEARRAY_LEN_def)
qed

lemma length_range [teal_bounds]: "int (length b) \<le> MAX_BYTEARRAY_LEN \<Longrightarrow> int (length b) \<le> MAX_UINT64"
  by (simp add: MAX_BYTEARRAY_LEN_def MAX_UINT64_def)

lemma byte_rule_ok:
  assumes "byte_rule f xs s (Next ys t)" and "stack_ok xs s"
  shows "stack_ok ys t"
  using assms by cases (auto simp: teal_bounds)

lemma math_result_length [teal_bounds]:
  assumes "math_sized a b"
  shows "int_to_bytes (be_int a + be_int b) = Some x \<Longrightarrow> int (length x) \<le> MAX_BYTEARRAY_LEN"
    "int_to_bytes (be_int a - be_int b) = Some x \<Longrightarrow> int (length x) \<le> MAX_BYTEARRAY_LEN"
    "int_to_bytes (be_int a * be_int b) = Some x \<Longrightarrow> int (length x) \<le> MAX_BYTEARRAY_LEN"
    "0 < be_int b \<Longrightarrow> int_to_bytes (be_int a sdiv be_int b) = Some x \<Longrightarrow> int (length x) \<le> MAX_BYTEARRAY_LEN"
    "0 < be_int b \<Longrightarrow> int_to_bytes (be_int a smod be_int b) = Some x \<Longrightarrow> int (length x) \<le> MAX_BYTEARRAY_LEN"
proof -
  have l: "length a \<le> 64" "length b \<le> 64" using assms by (simp_all add: math_sized_def MAX_BYTE_MATH_SIZE_def)
  note bounds = bytes_math_length [OF l]
  have r: "int (length x) \<le> MAX_BYTEARRAY_LEN" if "int_to_bytes i = Some x" "i < 256 ^ 128" for i
    using int_to_bytes_length [OF that] by (simp add: MAX_BYTEARRAY_LEN_def)
  show "int_to_bytes (be_int a + be_int b) = Some x \<Longrightarrow> int (length x) \<le> MAX_BYTEARRAY_LEN"
    "int_to_bytes (be_int a * be_int b) = Some x \<Longrightarrow> int (length x) \<le> MAX_BYTEARRAY_LEN"
    using r bounds(1,2) by blast+
  show "int_to_bytes (be_int a - be_int b) = Some x \<Longrightarrow> int (length x) \<le> MAX_BYTEARRAY_LEN"
    by (erule r, rule le_less_trans [OF _ bounds(3)]) simp
  show "int (length x) \<le> MAX_BYTEARRAY_LEN"
    if "0 < be_int b" "int_to_bytes (be_int a sdiv be_int b) = Some x"
    using that(2) by (rule r) (rule le_less_trans [OF _ bounds(3)], simp add: sdiv_range that)
  show "int (length x) \<le> MAX_BYTEARRAY_LEN"
    if "0 < be_int b" "int_to_bytes (be_int a smod be_int b) = Some x"
    using that(2) by (rule r) (rule le_less_trans [OF _ bounds(3)], simp add: smod_range that)
qed

lemma bitwise_length [teal_bounds]: "BytesBitwiseOp a b f = Some x \<Longrightarrow> length x = max (length a) (length b)"
  by (auto simp: bytes_bitwise_bytes Let_def)

lemma math_byte_rule_ok:
  assumes "math_byte_rule f xs s (Next ys t)" and "stack_ok xs s"
  shows "stack_ok ys t"
  using assms by cases (auto simp: teal_bounds)

lemma crypto_rule_ok:
  assumes "crypto_rule C f xs s (Next ys t)" and "stack_ok xs s" and "crypto_law C"
  shows "stack_ok ys t"
  using assms by cases (auto simp: crypto_law_def MAX_BYTEARRAY_LEN_def)

lemma pseudo_rule_ok:
  assumes "pseudo_rule C f xs s (Next ys t)" and "stack_ok xs s" and "op_ok (Pseudo f)"
  shows "stack_ok ys t"
  using assms by cases (auto simp: methodSelector_def MAX_BYTEARRAY_LEN_def dest: substr_bytes_length)

lemma stack_parts [teal_bounds]:
  "list_all tvalue_ok xs \<Longrightarrow> list_all tvalue_ok (take_stack n xs)"
  "list_all tvalue_ok xs \<Longrightarrow> list_all tvalue_ok (drop_stack n xs)"
  "length (take_stack n xs) = min (nat n) (length xs)"
  "length (drop_stack n xs) = length xs - nat n"
  "list_all tvalue_ok xs \<Longrightarrow> stack_top xs n = Some v \<Longrightarrow> tvalue_ok v"
  by (auto simp: take_stack_def drop_stack_def stack_top_def list_all_iff dest: in_set_takeD in_set_dropD split: if_splits)

lemma stack_rule_ok:
  assumes "stack_rule f xs s (Next ys t)" and "stack_ok xs s" and "op_ok (Stack f)"
  shows "stack_ok ys t"
  using assms by cases (auto simp: stack_ok_def teal_bounds)

lemma op_rule_ok:
  assumes "op_rule C op xs s (Next ys t)" and "stack_ok xs s" and "op_ok op" and "crypto_law C"
  shows "stack_ok ys t"
  using assms(1)
proof cases
  case ill_typed
  then show ?thesis by cases
next
  case underflow
  then show ?thesis by cases
qed (use assms arith_rule_ok bit_rule_ok relational_rule_ok logical_rule_ok byte_rule_ok math_byte_rule_ok
    crypto_rule_ok pseudo_rule_ok stack_rule_ok in \<open>auto simp: stack_ok_Cons\<close>)

section \<open>An opcode that succeeds has one result\<close>

lemma arith_rule_unique: "arith_rule f xs s (Next ys t) \<Longrightarrow> arith_rule f xs s r \<Longrightarrow> r = Next ys t"
  by (erule arith_rule.cases) (auto elim: arith_rule.cases simp: is_bytes_def)

lemma relational_rule_unique: "relational_rule f xs s (Next ys t) \<Longrightarrow> relational_rule f xs s r \<Longrightarrow> r = Next ys t"
  by (erule relational_rule.cases) (auto elim: relational_rule.cases)

lemma logical_rule_unique: "logical_rule f xs s (Next ys t) \<Longrightarrow> logical_rule f xs s r \<Longrightarrow> r = Next ys t"
  by (erule logical_rule.cases) (auto elim: logical_rule.cases)

lemma bit_rule_unique: "bit_rule f xs s (Next ys t) \<Longrightarrow> bit_rule f xs s r \<Longrightarrow> r = Next ys t"
  by (erule bit_rule.cases) (auto elim: bit_rule.cases)

lemma byte_rule_unique: "byte_rule f xs s (Next ys t) \<Longrightarrow> byte_rule f xs s r \<Longrightarrow> r = Next ys t"
  by (erule byte_rule.cases) (auto elim: byte_rule.cases simp: MAX_UINT8_def)

lemma pseudo_rule_unique: "pseudo_rule C f xs s (Next ys t) \<Longrightarrow> pseudo_rule C f xs s r \<Longrightarrow> r = Next ys t"
  by (erule pseudo_rule.cases) (auto elim: pseudo_rule.cases)

lemma crypto_rule_unique: "crypto_rule C f xs s (Next ys t) \<Longrightarrow> crypto_rule C f xs s r \<Longrightarrow> r = Next ys t"
  by (erule crypto_rule.cases) (auto elim: crypto_rule.cases)

lemma stack_rule_unique: "stack_rule f xs s (Next ys t) \<Longrightarrow> stack_rule f xs s r \<Longrightarrow> r = Next ys t"
  by (erule stack_rule.cases) (auto elim: stack_rule.cases)

text \<open>The bitwise opcodes on long byte arrays succeed by one rule and panic by another.\<close>

definition long_bitop :: "opcode \<Rightarrow> teal_value list \<Rightarrow> bool" where
  "long_bitop op xs \<longleftrightarrow> (case (op, xs) of
       (MathByte (O_bbitop f), TBytes b # TBytes a # _) \<Rightarrow> \<not> math_sized a b
     | (MathByte O_bnot, TBytes a # _) \<Rightarrow> int (length a) > MAX_BYTE_MATH_SIZE
     | _ \<Rightarrow> False)"

lemma math_byte_rule_unique:
  "math_byte_rule f xs s (Next ys t) \<Longrightarrow> math_byte_rule f xs s r \<Longrightarrow> \<not> long_bitop (MathByte f) xs \<Longrightarrow> r = Next ys t"
  by (erule math_byte_rule.cases) (auto elim!: math_byte_rule.cases simp: long_bitop_def math_sized_def)

lemma general_rules_panic [simp]: "\<not> ill_typed_rule op xs s (Next ys t)" "\<not> underflow_rule op xs s (Next ys t)"
  by (auto elim: ill_typed_rule.cases underflow_rule.cases)

lemma success_well_typed: "op_rule C op xs s (Next ys t) \<Longrightarrow> \<not> ill_typed_rule op xs s r"
proof
  assume "op_rule C op xs s (Next ys t)" and "ill_typed_rule op xs s r"
  then show False
  proof cases
    case (arith f)
    then show ?thesis using \<open>ill_typed_rule op xs s r\<close>
      by (auto elim!: arith_rule.cases elim: ill_typed_rule.cases simp: is_bytes_def)
  next
    case (bit g)
    then show ?thesis using \<open>ill_typed_rule op xs s r\<close>
      by (auto elim!: bit_rule.cases elim: ill_typed_rule.cases simp: is_bytes_def)
  next
    case (relational e)
    then show ?thesis using \<open>ill_typed_rule op xs s r\<close>
      by (auto elim!: relational_rule.cases elim: ill_typed_rule.cases simp: is_bytes_def)
  next
    case (logical l)
    then show ?thesis using \<open>ill_typed_rule op xs s r\<close>
      by (auto elim!: logical_rule.cases elim: ill_typed_rule.cases simp: is_bytes_def)
  next
    case (byte b)
    then show ?thesis using \<open>ill_typed_rule op xs s r\<close>
      by (auto elim!: byte_rule.cases elim: ill_typed_rule.cases simp: is_bytes_def)
  next
    case (math_byte m)
    then show ?thesis using \<open>ill_typed_rule op xs s r\<close>
      by (auto elim!: math_byte_rule.cases elim: ill_typed_rule.cases simp: is_bytes_def)
  qed (auto elim!: ill_typed_rule.cases)
qed

text \<open>\<open>popn 0\<close> on an empty stack does nothing by one rule and panics by another.\<close>

lemma success_no_underflow:
  assumes "op_rule C op xs s (Next ys t)" and "op \<noteq> Stack (O_popn 0)" and "op_ok op"
  shows "\<not> underflow_rule op xs s r"
  using assms(1)
proof cases
  case (arith f)
  then show ?thesis by (auto elim!: arith_rule.cases elim: underflow_rule.cases)
next
  case (bit g)
  then show ?thesis by (auto elim!: bit_rule.cases elim: underflow_rule.cases)
next
  case (relational e)
  then show ?thesis by (auto elim!: relational_rule.cases elim: underflow_rule.cases)
next
  case (logical l)
  then show ?thesis by (auto elim!: logical_rule.cases elim: underflow_rule.cases)
next
  case (byte b)
  then show ?thesis by (auto elim!: byte_rule.cases elim: underflow_rule.cases)
next
  case (math_byte m)
  then show ?thesis by (auto elim!: math_byte_rule.cases elim: underflow_rule.cases)
next
  case (crypto f)
  then show ?thesis by (auto elim!: crypto_rule.cases elim: underflow_rule.cases)
next
  case (pseudo p)
  then show ?thesis by (auto elim!: underflow_rule.cases)
next
  case (stack f)
  with assms(2,3) show ?thesis by (auto elim!: stack_rule.cases elim: underflow_rule.cases)
qed (auto elim: underflow_rule.cases)

lemma op_rule_unique:
  assumes n: "op_rule C op xs s (Next ys t)" and r: "op_rule C op xs s r" and "op_ok op"
    and "\<not> long_bitop op xs" and "op \<noteq> Stack (O_popn 0)"
  shows "r = Next ys t"
proof -
  have no: "\<not> ill_typed_rule op xs s r" "\<not> underflow_rule op xs s r" for r
    using success_well_typed [OF n] success_no_underflow [OF n assms(5,3)] by blast+
  show ?thesis
    using n
  proof cases
    case (crypto f)
    then show ?thesis using r no crypto_rule_unique by (auto elim: op_rule.cases)
  next
    case (math_byte m)
    then show ?thesis using r no assms(4) math_byte_rule_unique by (auto elim: op_rule.cases)
  qed (use r no arith_rule_unique bit_rule_unique relational_rule_unique logical_rule_unique byte_rule_unique
      pseudo_rule_unique stack_rule_unique in \<open>auto elim: op_rule.cases\<close>)
qed

end
