(* ===== verification/TealMachine.thy ===== *)
theory TealMachine
  imports TealTyping "HOL-Library.Transitive_Closure_Table"
begin

text \<open>
  The TEAL interpreter: the cell \<open>teal\<close> and the items of the cell \<open>k\<close> that control it, with
  the rules of \<open>teal-execution.md\<close>, \<open>panics.md\<close> and of the opcodes in \<open>teal-driver.md\<close> that use
  more than the stack (jumps, subroutines, scratch space). A rule rewrites the head of the cell
  \<open>k\<close>. The program is the list of its opcodes, whose addresses are 0, 1, and so on.
\<close>

section \<open>The configuration\<close>

text \<open>\<open>frame(next PC, stack pointer)\<close>, after \<open>proto\<close> also with the numbers of arguments and results.\<close>

datatype frame = CallFrame int int | ProtoFrame int int int int

datatype kitem =
    InitApp int | EvalTeal | LoadInputPgm "opcode list" | CheckDuplicateLabels | StartExecution | FetchOpcode | IncrementPC
  | Op opcode | Jump label | CallSubroutine label | ReturnSubroutine
  | FinalizeExecution | SaveScratch | DeactivateApp | CheckStack
  | PanicItem panic | StopIfError

text \<open>
  \<open>labels\<close> is \<open>None\<close> for \<open>duplicate-label\<close>. Of the cells outside \<open>teal\<close>, those the rules change:
  the exit code, the saved scratch space of the transaction, the applications on the call stack.
\<close>

record config =
  k_cell :: "kitem list"
  pc_cell :: int
  program_cell :: "opcode list"
  stack_cell :: "teal_value list"
  stacksize :: int
  jumped :: bool
  labels_cell :: "(label \<Rightarrow> int option) option"
  callStack :: "frame list"
  scratch_cell :: "int \<Rightarrow> teal_value option"
  returncode_cell :: int
  txScratch :: "int \<Rightarrow> teal_value option"
  activeApps :: "int set"
  appCreator :: "int \<Rightarrow> bytes option"
  currentApplicationID :: int

text \<open>\<open>#initContext\<close>.\<close>

definition init_context :: "config \<Rightarrow> config" where
  "init_context c = c\<lparr>pc_cell := 0, program_cell := [], stack_cell := [], stacksize := 0, jumped := False,
     labels_cell := Some (\<lambda>l. None), callStack := [], scratch_cell := (\<lambda>i. None)\<rparr>"

fun load_labels :: "opcode list \<Rightarrow> int \<Rightarrow> (label \<Rightarrow> int option) \<Rightarrow> (label \<Rightarrow> int option) option" where
  "load_labels [] a ls = Some ls"
| "load_labels (LabelCode l # pgm) a ls =
     (if ls l \<noteq> None then None else load_labels pgm (a + 1) (ls(l \<mapsto> a)))"
| "load_labels (op # pgm) a ls = load_labels pgm (a + 1) ls"

definition label_address :: "config \<Rightarrow> label \<Rightarrow> int option" where
  "label_address c l = Option.bind (labels_cell c) (\<lambda>ls. ls l)"

definition valid_address :: "config \<Rightarrow> bool" where
  "valid_address c \<longleftrightarrow> 0 \<le> pc_cell c \<and> pc_cell c < int (length (program_cell c))"

fun stack_pointer :: "frame list \<Rightarrow> int option" where
  "stack_pointer (CallFrame a p # fs) = Some p"
| "stack_pointer (ProtoFrame a p n r # fs) = Some p"
| "stack_pointer [] = None"

section \<open>Jumps and subroutines\<close>

text \<open>\<open>ks\<close> is the rest of the cell \<open>k\<close>.\<close>

inductive branch_step :: "branch_op \<Rightarrow> kitem list \<Rightarrow> config \<Rightarrow> config \<Rightarrow> bool" where
  bnz_jump: "stack_cell c = TInt i # xs \<Longrightarrow> i > 0 \<Longrightarrow>
    branch_step (O_bnz l) ks c (c\<lparr>k_cell := Jump l # ks, stack_cell := xs, stacksize := stacksize c - 1\<rparr>)"
| bnz_next: "stack_cell c = TInt i # xs \<Longrightarrow> i \<le> 0 \<Longrightarrow>
    branch_step (O_bnz l) ks c (c\<lparr>k_cell := ks, stack_cell := xs, stacksize := stacksize c - 1\<rparr>)"
| bz_jump: "stack_cell c = TInt i # xs \<Longrightarrow> i \<le> 0 \<Longrightarrow>
    branch_step (O_bz l) ks c (c\<lparr>k_cell := Jump l # ks, stack_cell := xs, stacksize := stacksize c - 1\<rparr>)"
| bz_next: "stack_cell c = TInt i # xs \<Longrightarrow> i > 0 \<Longrightarrow>
    branch_step (O_bz l) ks c (c\<lparr>k_cell := ks, stack_cell := xs, stacksize := stacksize c - 1\<rparr>)"
| b: "branch_step (O_b l) ks c (c\<lparr>k_cell := Jump l # ks\<rparr>)"
| return: "stack_cell c = TInt i # xs \<Longrightarrow>
    branch_step O_return (IncrementPC # FetchOpcode # ks) c
      (c\<lparr>k_cell := FinalizeExecution # ks, stack_cell := [TInt i], stacksize := 1\<rparr>)"
| callsub: "branch_step (O_callsub l) ks c (c\<lparr>k_cell := CallSubroutine l # ks\<rparr>)"
| retsub: "branch_step O_retsub ks c (c\<lparr>k_cell := ReturnSubroutine # ks\<rparr>)"
| proto_again: "callStack c = ProtoFrame a p n r # fs \<Longrightarrow> args \<ge> 0 \<Longrightarrow> rets \<ge> 0 \<Longrightarrow>
    branch_step (O_proto args rets) ks c (c\<lparr>k_cell := ks, callStack := ProtoFrame a p args rets # fs\<rparr>)"
| proto: "callStack c = CallFrame a p # fs \<Longrightarrow> args \<ge> 0 \<Longrightarrow> rets \<ge> 0 \<Longrightarrow>
    branch_step (O_proto args rets) ks c (c\<lparr>k_cell := ks, callStack := ProtoFrame a p args rets # fs\<rparr>)"
| frame_dig: "stack_pointer (callStack c) = Some p \<Longrightarrow> stack_bottom (stack_cell c) (p + n) = Some v \<Longrightarrow>
    stacksize c < MAX_STACK_DEPTH \<Longrightarrow>
    branch_step (O_frame_dig n) ks c (c\<lparr>k_cell := ks, stack_cell := v # stack_cell c, stacksize := stacksize c + 1\<rparr>)"
| frame_bury: "stack_cell c = x # xs \<Longrightarrow> stack_pointer (callStack c) = Some p \<Longrightarrow>
    branch_step (O_frame_bury n) ks c
      (c\<lparr>k_cell := ks, stack_cell := stack_set xs (p + n) x, stacksize := stacksize c - 1\<rparr>)"
| dupn: "stack_cell c = x # xs \<Longrightarrow> n > 0 \<Longrightarrow> stacksize c < MAX_STACK_DEPTH \<Longrightarrow>
    branch_step (O_dupn n) ks c
      (c\<lparr>k_cell := Op (Branch (O_dupn (n - 1))) # ks, stack_cell := x # x # xs, stacksize := stacksize c + 1\<rparr>)"
| dupn_done: "branch_step (O_dupn 0) ks c (c\<lparr>k_cell := ks\<rparr>)"
| dupn_overflow: "stacksize c + n > MAX_STACK_DEPTH \<Longrightarrow>
    branch_step (O_dupn n) ks c (c\<lparr>k_cell := PanicItem STACK_OVERFLOW # ks\<rparr>)"

inductive jump_step :: "kitem \<Rightarrow> kitem list \<Rightarrow> config \<Rightarrow> config \<Rightarrow> bool" where
  jump: "label_address c l = Some a \<Longrightarrow> jump_step (Jump l) ks c (c\<lparr>k_cell := ks, pc_cell := a, jumped := True\<rparr>)"
| illegal_jump: "label_address c l = None \<Longrightarrow> jump_step (Jump l) ks c (c\<lparr>k_cell := PanicItem ILLEGAL_JUMP # ks\<rparr>)"
| call: "label_address c l = Some a \<Longrightarrow> int (length (callStack c)) < MAX_CALLSTACK_DEPTH \<Longrightarrow>
    jump_step (CallSubroutine l) ks c
      (c\<lparr>k_cell := ks, pc_cell := a, jumped := True, callStack := CallFrame (pc_cell c + 1) (int (length (stack_cell c))) # callStack c\<rparr>)"
| call_overflow: "int (length (callStack c)) \<ge> MAX_CALLSTACK_DEPTH \<Longrightarrow>
    jump_step (CallSubroutine l) ks c (c\<lparr>k_cell := PanicItem CALLSTACK_OVERFLOW # ks\<rparr>)"
| illegal_call: "label_address c l = None \<Longrightarrow>
    jump_step (CallSubroutine l) ks c (c\<lparr>k_cell := PanicItem ILLEGAL_JUMP # ks\<rparr>)"
| return_proto: "callStack c = ProtoFrame a p args rets # fs \<Longrightarrow> n = int (length (stack_cell c)) \<Longrightarrow>
    xs = drop_stack (n - p - rets) (stack_cell c) \<Longrightarrow>
    jump_step ReturnSubroutine ks c
      (c\<lparr>k_cell := ks, pc_cell := a, jumped := True, stack_cell := take_stack rets xs @ drop_stack (args + rets) xs,
         stacksize := stacksize c - (n - p) - rets, callStack := fs\<rparr>)"
| return_call: "callStack c = CallFrame a p # fs \<Longrightarrow>
    jump_step ReturnSubroutine ks c (c\<lparr>k_cell := ks, pc_cell := a, jumped := True, callStack := fs\<rparr>)"
| return_underflow: "callStack c = [] \<Longrightarrow>
    jump_step ReturnSubroutine ks c (c\<lparr>k_cell := PanicItem CALLSTACK_UNDERFLOW # ks\<rparr>)"

section \<open>Scratch space\<close>

inductive scratch_step :: "scratch_op \<Rightarrow> kitem list \<Rightarrow> config \<Rightarrow> config \<Rightarrow> bool" where
  load: "0 \<le> i \<Longrightarrow> i < MAX_SCRATCH_SIZE \<Longrightarrow> scratch_cell c i = Some v \<Longrightarrow> stacksize c < MAX_STACK_DEPTH \<Longrightarrow>
    scratch_step (O_load i) ks c (c\<lparr>k_cell := ks, stack_cell := v # stack_cell c, stacksize := stacksize c + 1\<rparr>)"
| load_unset: "0 \<le> i \<Longrightarrow> i < MAX_SCRATCH_SIZE \<Longrightarrow> scratch_cell c i = None \<Longrightarrow> stacksize c < MAX_STACK_DEPTH \<Longrightarrow>
    scratch_step (O_load i) ks c
      (c\<lparr>k_cell := ks, stack_cell := TInt 0 # stack_cell c, stacksize := stacksize c + 1, scratch_cell := (scratch_cell c)(i \<mapsto> TInt 0)\<rparr>)"
| store: "stack_cell c = v # xs \<Longrightarrow> 0 \<le> i \<Longrightarrow> i < MAX_SCRATCH_SIZE \<Longrightarrow>
    scratch_step (O_store i) ks c
      (c\<lparr>k_cell := ks, stack_cell := xs, stacksize := stacksize c - 1, scratch_cell := (scratch_cell c)(i \<mapsto> v)\<rparr>)"
| load_invalid: "i < 0 \<or> i \<ge> MAX_SCRATCH_SIZE \<Longrightarrow>
    scratch_step (O_load i) ks c (c\<lparr>k_cell := PanicItem INVALID_SCRATCH_LOC # ks\<rparr>)"
| load_overflow: "stacksize c \<ge> MAX_STACK_DEPTH \<Longrightarrow>
    scratch_step (O_load i) ks c (c\<lparr>k_cell := PanicItem STACK_OVERFLOW # ks\<rparr>)"
| store_invalid: "i < 0 \<or> i \<ge> MAX_SCRATCH_SIZE \<Longrightarrow>
    scratch_step (O_store i) ks c (c\<lparr>k_cell := PanicItem INVALID_SCRATCH_LOC # ks\<rparr>)"
| loads: "stack_cell c = TInt i # xs \<Longrightarrow> 0 \<le> i \<Longrightarrow> i < MAX_SCRATCH_SIZE \<Longrightarrow> scratch_cell c i = Some v \<Longrightarrow>
    scratch_step O_loads ks c (c\<lparr>k_cell := ks, stack_cell := v # xs\<rparr>)"
| loads_unset: "stack_cell c = TInt i # xs \<Longrightarrow> 0 \<le> i \<Longrightarrow> i < MAX_SCRATCH_SIZE \<Longrightarrow> scratch_cell c i = None \<Longrightarrow>
    scratch_step O_loads ks c (c\<lparr>k_cell := ks, stack_cell := TInt 0 # xs\<rparr>)"
| loads_invalid: "stack_cell c = TInt i # xs \<Longrightarrow> i < 0 \<or> i \<ge> MAX_SCRATCH_SIZE \<Longrightarrow>
    scratch_step O_loads ks c (c\<lparr>k_cell := PanicItem INVALID_SCRATCH_LOC # ks\<rparr>)"
| stores: "stack_cell c = v # TInt i # xs \<Longrightarrow> 0 \<le> i \<Longrightarrow> i < MAX_SCRATCH_SIZE \<Longrightarrow>
    scratch_step O_stores ks c
      (c\<lparr>k_cell := ks, stack_cell := xs, stacksize := stacksize c - 2, scratch_cell := (scratch_cell c)(i \<mapsto> v)\<rparr>)"
| stores_invalid: "stack_cell c = v # TInt i # xs \<Longrightarrow> i < 0 \<or> i \<ge> MAX_SCRATCH_SIZE \<Longrightarrow>
    scratch_step O_stores ks c (c\<lparr>k_cell := PanicItem INVALID_SCRATCH_LOC # ks\<rparr>)"

section \<open>Control\<close>

text \<open>
  The rules on the items that are no opcodes, for an application call. After a panic the rest of
  the cell \<open>k\<close> is dropped item by item; the items of a test are not among those here.
\<close>

inductive control_step :: "kitem \<Rightarrow> kitem list \<Rightarrow> config \<Rightarrow> config \<Rightarrow> bool" where
  init_app: "a \<notin> activeApps c \<Longrightarrow> appCreator c a \<noteq> None \<Longrightarrow>
    control_step (InitApp a) ks c (c\<lparr>k_cell := ks, activeApps := insert a (activeApps c), currentApplicationID := a\<rparr>)"
| already_active: "a \<in> activeApps c \<Longrightarrow>
    control_step (InitApp a) ks c (c\<lparr>k_cell := PanicItem APP_ALREADY_ACTIVE # ks\<rparr>)"
| missing_creator: "appCreator c a = None \<Longrightarrow>
    control_step (InitApp a) ks c (c\<lparr>k_cell := PanicItem MISSING_APP_CREATOR # ks\<rparr>)"
| eval_teal: "control_step EvalTeal ks c (c\<lparr>k_cell := StartExecution # ks\<rparr>)"
| load_pgm: "control_step (LoadInputPgm pgm) ks c
    (c\<lparr>k_cell := CheckDuplicateLabels # ks, program_cell := pgm, labels_cell := load_labels pgm 0 (\<lambda>l. None)\<rparr>)"
| duplicate_labels: "labels_cell c = None \<Longrightarrow>
    control_step CheckDuplicateLabels ks c (c\<lparr>k_cell := PanicItem DUPLICATE_LABEL # ks\<rparr>)"
| labels_checked: "labels_cell c \<noteq> None \<Longrightarrow> control_step CheckDuplicateLabels ks c (c\<lparr>k_cell := ks\<rparr>)"
| start: "control_step StartExecution ks c (c\<lparr>k_cell := FetchOpcode # ks\<rparr>)"
| fetch: "valid_address c \<Longrightarrow> returncode_cell c = 4 \<Longrightarrow>
    control_step FetchOpcode ks c (c\<lparr>k_cell := Op (program_cell c ! nat (pc_cell c)) # IncrementPC # FetchOpcode # ks\<rparr>)"
| fetch_stop: "valid_address c \<Longrightarrow> returncode_cell c \<noteq> 4 \<Longrightarrow> control_step FetchOpcode ks c (c\<lparr>k_cell := ks\<rparr>)"
| fetch_end: "pc_cell c = int (length (program_cell c)) \<Longrightarrow>
    control_step FetchOpcode ks c (c\<lparr>k_cell := FinalizeExecution # ks\<rparr>)"
| increment: "control_step IncrementPC ks c
    (c\<lparr>k_cell := ks, pc_cell := pc_cell c + (if jumped c then 0 else 1), jumped := False\<rparr>)"
| finalize: "control_step FinalizeExecution ks c (c\<lparr>k_cell := SaveScratch # DeactivateApp # CheckStack # ks\<rparr>)"
| save_scratch: "control_step SaveScratch ks c (c\<lparr>k_cell := ks, txScratch := scratch_cell c\<rparr>)"
| deactivate: "currentApplicationID c \<in> activeApps c \<Longrightarrow>
    control_step DeactivateApp ks c (c\<lparr>k_cell := ks, activeApps := activeApps c - {currentApplicationID c}\<rparr>)"
| accept: "stack_cell c = [TInt i] \<Longrightarrow> i > 0 \<Longrightarrow> stacksize c = 1 \<Longrightarrow> control_step CheckStack ks c (c\<lparr>k_cell := ks\<rparr>)"
| zero_stack: "stack_cell c = [TInt i] \<Longrightarrow> 0 \<ge> i \<Longrightarrow> control_step CheckStack ks c (c\<lparr>k_cell := PanicItem ZERO_STACK # ks\<rparr>)"
| big_stack: "stacksize c > 1 \<Longrightarrow> control_step CheckStack ks c (c\<lparr>k_cell := PanicItem BAD_STACK # ks\<rparr>)"
| empty_stack: "stack_cell c = [] \<Longrightarrow> control_step CheckStack ks c (c\<lparr>k_cell := PanicItem BAD_STACK # ks\<rparr>)"
| bytes_stack: "stack_cell c = [TBytes b] \<Longrightarrow> control_step CheckStack ks c (c\<lparr>k_cell := PanicItem BAD_STACK # ks\<rparr>)"
| panic: "control_step (PanicItem p) ks c (c\<lparr>k_cell := StopIfError # ks, returncode_cell := panic_code p\<rparr>)"
| drop_item: "returncode_cell c \<noteq> 0 \<Longrightarrow> control_step StopIfError (item # ks) c (c\<lparr>k_cell := StopIfError # ks\<rparr>)"
| stopped: "returncode_cell c \<noteq> 0 \<Longrightarrow> control_step StopIfError [] c (c\<lparr>k_cell := []\<rparr>)"
| no_error: "returncode_cell c = 0 \<Longrightarrow> control_step StopIfError ks c (c\<lparr>k_cell := ks\<rparr>)"

text \<open>
  One step of the interpreter. The panic of \<open>getbit\<close> on bytes applies only to an opcode that
  is alone in the cell \<open>k\<close>.
\<close>

inductive step :: "crypto \<Rightarrow> config \<Rightarrow> config \<Rightarrow> bool" for C where
  op_next: "k_cell c = Op op # ks \<Longrightarrow> op_rule C op (stack_cell c) (stacksize c) (Next ys t) \<Longrightarrow>
    step C c (c\<lparr>k_cell := ks, stack_cell := ys, stacksize := t\<rparr>)"
| op_panic: "k_cell c = Op op # ks \<Longrightarrow> op_rule C op (stack_cell c) (stacksize c) (Panic p t) \<Longrightarrow>
    step C c (c\<lparr>k_cell := PanicItem p # ks, stacksize := t\<rparr>)"
| getbit_panic: "k_cell c = [Op (Bit O_getbit)] \<Longrightarrow> stack_cell c = TInt b # TBytes a # xs \<Longrightarrow>
    \<not> (0 \<le> b \<and> b < int (length a) * 8) \<Longrightarrow> step C c (c\<lparr>k_cell := [PanicItem INDEX_OUT_OF_BOUNDS]\<rparr>)"
| branch: "k_cell c = Op (Branch f) # ks \<Longrightarrow> branch_step f ks c c' \<Longrightarrow> step C c c'"
| scratch: "k_cell c = Op (Scratch g) # ks \<Longrightarrow> scratch_step g ks c c' \<Longrightarrow> step C c c'"
| jump: "k_cell c = i # ks \<Longrightarrow> jump_step i ks c c' \<Longrightarrow> step C c c'"
| control: "k_cell c = i # ks \<Longrightarrow> control_step i ks c c' \<Longrightarrow> step C c c'"

text \<open>
  The items of \<open>#executeAppl\<close> for a \<open>NoOp\<close> call of an application, after \<open>#initContext\<close> and
  with the exit code of the start.
\<close>

definition execute_appl :: "int \<Rightarrow> opcode list \<Rightarrow> config \<Rightarrow> config" where
  "execute_appl a pgm c = (init_context c)\<lparr>k_cell := [InitApp a, LoadInputPgm pgm, EvalTeal], returncode_cell := 4\<rparr>"

end
