(* ===== verification/TealRuns.thy ===== *)
theory TealRuns
  imports TealMachine
begin

text \<open>
  Runs of the TEAL interpreter through a whole program: from the first item of an application
  call to acceptance, for programs without jumps.
\<close>

section \<open>Straight-line programs\<close>

text \<open>The opcodes of a program without jumps, one after the other, each of them successful.\<close>

inductive runs_ops :: "crypto \<Rightarrow> opcode list \<Rightarrow> teal_value list \<Rightarrow> int \<Rightarrow> teal_value list \<Rightarrow> int \<Rightarrow> bool" for C where
  Nil: "runs_ops C [] xs s xs s"
| Cons: "op_rule C op xs s (Next ys t) \<Longrightarrow> runs_ops C ops ys t zs u \<Longrightarrow> runs_ops C (op # ops) xs s zs u"

lemma step_then: "step C c d \<Longrightarrow> (step C)\<^sup>*\<^sup>* d e \<Longrightarrow> (step C)\<^sup>*\<^sup>* c e"
  by (rule converse_rtranclp_into_rtranclp)

lemma run_ops:
  assumes "runs_ops C ops xs s ys t"
    and "k_cell c = [FetchOpcode]" "stack_cell c = xs" "stacksize c = s" "\<not> jumped c" "returncode_cell c = 4"
    and "program_cell c = pre @ ops" "pc_cell c = int (length pre)"
  shows "(step C)\<^sup>*\<^sup>* c (c\<lparr>stack_cell := ys, stacksize := t, pc_cell := int (length (pre @ ops))\<rparr>)"
  using assms
proof (induction arbitrary: c pre rule: runs_ops.induct)
  case (Nil xs s)
  then have "c\<lparr>stack_cell := xs, stacksize := s, pc_cell := int (length (pre @ []))\<rparr> = c" by (cases c) simp
  then show ?case by simp
next
  case (Cons op xs s ys t ops zs u)
  let ?c1 = "c\<lparr>k_cell := [Op op, IncrementPC, FetchOpcode]\<rparr>"
  let ?c2 = "?c1\<lparr>k_cell := [IncrementPC, FetchOpcode], stack_cell := ys, stacksize := t\<rparr>"
  let ?c3 = "?c2\<lparr>k_cell := [FetchOpcode], pc_cell := pc_cell ?c2 + 1, jumped := False\<rparr>"
  have v: "valid_address c" "program_cell c ! nat (pc_cell c) = op"
    using Cons.prems by (simp_all add: valid_address_def nth_append)
  have s1: "step C c ?c1"
    using control_step.fetch [OF v(1) Cons.prems(5), of "[]"] v(2) Cons.prems(1) by (intro step.control) simp_all
  have s2: "step C ?c1 ?c2" using step.op_next [of ?c1 op] Cons.hyps(1) Cons.prems(2,3) by simp
  have s3: "step C ?c2 ?c3"
    using control_step.increment [of "[FetchOpcode]" ?c2] Cons.prems(4) by (intro step.control) simp_all
  have s4: "(step C)\<^sup>*\<^sup>* ?c3 (?c3\<lparr>stack_cell := zs, stacksize := u, pc_cell := int (length ((pre @ [op]) @ ops))\<rparr>)"
    using Cons.prems by (intro Cons.IH) simp_all
  have e: "?c3\<lparr>stack_cell := zs, stacksize := u, pc_cell := int (length ((pre @ [op]) @ ops))\<rparr> =
      c\<lparr>stack_cell := zs, stacksize := u, pc_cell := int (length (pre @ op # ops))\<rparr>"
    using Cons.prems by (cases c) simp
  show ?case by (rule step_then [OF s1 step_then [OF s2 step_then [OF s3 s4 [unfolded e]]]])
qed

text \<open>What an accepted call leaves.\<close>

definition accepted :: "config \<Rightarrow> bool" where
  "accepted c \<longleftrightarrow> (\<exists>i. stack_cell c = [TInt i] \<and> i > 0) \<and> stacksize c = 1 \<and>
     txScratch c = scratch_cell c \<and> currentApplicationID c \<notin> activeApps c"

definition finished :: "config \<Rightarrow> bool" where
  "finished c \<longleftrightarrow> k_cell c = []"

lemma step_controlI: "control_step i ks c d' \<Longrightarrow> k_cell c = i # ks \<Longrightarrow> d' = d \<Longrightarrow> step C c d"
  by (auto intro: step.control)

lemma run_to_program:
  assumes "a \<notin> activeApps c0" "appCreator c0 a \<noteq> None" "load_labels pgm 0 (\<lambda>l. None) \<noteq> None"
  obtains c where "(step C)\<^sup>*\<^sup>* (execute_appl a pgm c0) c" "k_cell c = [FetchOpcode]" "returncode_cell c = 4"
    "currentApplicationID c \<in> activeApps c" "program_cell c = pgm" "pc_cell c = 0" "stack_cell c = []" "stacksize c = 0"
    "\<not> jumped c"
proof -
  let ?c0 = "execute_appl a pgm c0"
  let ?c1 = "?c0\<lparr>k_cell := [LoadInputPgm pgm, EvalTeal], activeApps := insert a (activeApps ?c0), currentApplicationID := a\<rparr>"
  let ?c2 = "?c1\<lparr>k_cell := [CheckDuplicateLabels, EvalTeal], program_cell := pgm, labels_cell := load_labels pgm 0 (\<lambda>l. None)\<rparr>"
  let ?c3 = "?c2\<lparr>k_cell := [EvalTeal]\<rparr>"
  let ?c4 = "?c3\<lparr>k_cell := [StartExecution]\<rparr>"
  let ?c5 = "?c4\<lparr>k_cell := [FetchOpcode]\<rparr>"
  have s1: "step C ?c0 ?c1"
    by (rule step_controlI [OF control_step.init_app]) (use assms in \<open>simp_all add: execute_appl_def init_context_def\<close>)
  have s2: "step C ?c1 ?c2" by (rule step_controlI [OF control_step.load_pgm]) simp_all
  have s3: "step C ?c2 ?c3" by (rule step_controlI [OF control_step.labels_checked]) (use assms in simp_all)
  have s4: "step C ?c3 ?c4" by (rule step_controlI [OF control_step.eval_teal]) simp_all
  have s5: "step C ?c4 ?c5" by (rule step_controlI [OF control_step.start]) simp_all
  have "(step C)\<^sup>*\<^sup>* ?c5 ?c5" by simp
  from step_then [OF s1 step_then [OF s2 step_then [OF s3 step_then [OF s4 step_then [OF s5 this]]]]]
  show ?thesis by (rule that) (simp_all add: execute_appl_def init_context_def)
qed

lemma run_to_end:
  assumes "k_cell c = [FetchOpcode]" "pc_cell c = int (length (program_cell c))"
    and "stack_cell c = [TInt i]" "i > 0" "stacksize c = 1" "currentApplicationID c \<in> activeApps c"
  obtains c' where "(step C)\<^sup>*\<^sup>* c c'" "finished c'" "accepted c'" "returncode_cell c' = returncode_cell c" "stack_cell c' = [TInt i]"
proof -
  let ?c1 = "c\<lparr>k_cell := [FinalizeExecution]\<rparr>"
  let ?c2 = "?c1\<lparr>k_cell := [SaveScratch, DeactivateApp, CheckStack]\<rparr>"
  let ?c3 = "?c2\<lparr>k_cell := [DeactivateApp, CheckStack], txScratch := scratch_cell ?c2\<rparr>"
  let ?c4 = "?c3\<lparr>k_cell := [CheckStack], activeApps := activeApps ?c3 - {currentApplicationID ?c3}\<rparr>"
  let ?c5 = "?c4\<lparr>k_cell := []\<rparr>"
  have s1: "step C c ?c1" by (rule step_controlI [OF control_step.fetch_end]) (use assms in simp_all)
  have s2: "step C ?c1 ?c2" by (rule step_controlI [OF control_step.finalize]) simp_all
  have s3: "step C ?c2 ?c3" by (rule step_controlI [OF control_step.save_scratch]) simp_all
  have s4: "step C ?c3 ?c4" by (rule step_controlI [OF control_step.deactivate]) (use assms in simp_all)
  have s5: "step C ?c4 ?c5" by (rule step_controlI [OF control_step.accept]) (use assms in simp_all)
  have "(step C)\<^sup>*\<^sup>* ?c5 ?c5" by simp
  from step_then [OF s1 step_then [OF s2 step_then [OF s3 step_then [OF s4 step_then [OF s5 this]]]]]
  show ?thesis by (rule that) (use assms in \<open>simp_all add: finished_def accepted_def\<close>)
qed

lemma straight_line_run:
  assumes "runs_ops C pgm [] 0 [TInt i] 1" "i > 0"
    and "load_labels pgm 0 (\<lambda>l. None) \<noteq> None" "a \<notin> activeApps c0" "appCreator c0 a \<noteq> None"
  shows "\<exists>c. (step C)\<^sup>*\<^sup>* (execute_appl a pgm c0) c \<and> finished c \<and> returncode_cell c = 4 \<and> accepted c \<and> stack_cell c = [TInt i]"
proof -
  from run_to_program [OF assms(4,5,3)] obtain c where c: "(step C)\<^sup>*\<^sup>* (execute_appl a pgm c0) c"
    "k_cell c = [FetchOpcode]" "returncode_cell c = 4" "currentApplicationID c \<in> activeApps c" "program_cell c = pgm"
    "pc_cell c = 0" "stack_cell c = []" "stacksize c = 0" "\<not> jumped c" by blast
  define d where "d = c\<lparr>stack_cell := [TInt i], stacksize := 1, pc_cell := int (length pgm)\<rparr>"
  have "(step C)\<^sup>*\<^sup>* c d"
    using run_ops [OF assms(1) c(2,7,8,9,3), of "[]"] c(5,6) by (simp add: d_def)
  moreover from run_to_end [of d i C] obtain e where "(step C)\<^sup>*\<^sup>* d e" "finished e" "accepted e"
    "returncode_cell e = returncode_cell d" "stack_cell e = [TInt i]" using assms(2) c by (auto simp: d_def)
  ultimately have "(step C)\<^sup>*\<^sup>* (execute_appl a pgm c0) e \<and> finished e \<and> returncode_cell e = 4 \<and> accepted e \<and> stack_cell e = [TInt i]"
    using c(1,3) by (auto simp: d_def)
  then show ?thesis by blast
qed

text \<open>Hash functions with results of the right length, and a blockchain with one application.\<close>

definition sample_crypto :: crypto where
  "sample_crypto = \<lparr>Sha256raw = \<lambda>b. replicate 32 1, Keccak256raw = \<lambda>b. replicate 32 2, Sha512_256raw = \<lambda>b. replicate 32 3\<rparr>"

definition sample_config :: config where
  "sample_config = \<lparr>k_cell = [], pc_cell = 9, program_cell = [], stack_cell = [TInt 5], stacksize = 1, jumped = True,
     labels_cell = None, callStack = [], scratch_cell = (\<lambda>i. None), returncode_cell = 0, txScratch = (\<lambda>i. None),
     activeApps = {}, appCreator = [7 \<mapsto> [1, 2]], currentApplicationID = 0\<rparr>"

definition sample_program :: "opcode list" where
  "sample_program = [Pseudo (O_int 3), LabelCode ''top'', Stack (O_pushint 4), Arith O_add, Stack O_dup, Relational O_eq]"

lemma sample_crypto_law: "crypto_law sample_crypto"
  by (simp add: crypto_law_def sample_crypto_def)

lemma sample_runs: "runs_ops sample_crypto sample_program [] 0 [TInt 1] 1"
proof -
  have o1: "op_rule sample_crypto (Pseudo (O_int 3)) [] 0 (Next [TInt 3] 1)"
    using pseudo_rule.int_const [of 0 sample_crypto 3 "[]"] by (simp add: op_rule.pseudo MAX_STACK_DEPTH_def)
  have o2: "op_rule sample_crypto (LabelCode ''top'') [TInt 3] 1 (Next [TInt 3] 1)" by (rule op_rule.label)
  have o3: "op_rule sample_crypto (Stack (O_pushint 4)) [TInt 3] 1 (Next [TInt 4, TInt 3] 2)"
    using stack_rule.pushint [of 1 4 "[TInt 3]"] by (simp add: op_rule.stack MAX_STACK_DEPTH_def)
  have o4: "op_rule sample_crypto (Arith O_add) [TInt 4, TInt 3] 2 (Next [TInt 7] 1)"
    using arith_rule.add [of 3 4 "[]" 2] by (simp add: op_rule.arith MAX_UINT64_def)
  have o5: "op_rule sample_crypto (Stack O_dup) [TInt 7] 1 (Next [TInt 7, TInt 7] 2)"
    using stack_rule.dup [of 1 "TInt 7" "[]"] by (simp add: op_rule.stack MAX_STACK_DEPTH_def)
  have o6: "op_rule sample_crypto (Relational O_eq) [TInt 7, TInt 7] 2 (Next [TInt 1] 1)"
    using relational_rule.eq_int [of 7 7 "[]" 2] by (simp add: op_rule.relational bool2Int_def)
  show ?thesis unfolding sample_program_def
    by (rule runs_ops.Cons [OF o1 runs_ops.Cons [OF o2 runs_ops.Cons [OF o3 runs_ops.Cons [OF o4
          runs_ops.Cons [OF o5 runs_ops.Cons [OF o6 runs_ops.Nil]]]]]])
qed

lemma sample_start:
  "load_labels sample_program 0 (\<lambda>l. None) \<noteq> None" "7 \<notin> activeApps sample_config" "appCreator sample_config 7 \<noteq> None"
  by (simp_all add: sample_program_def sample_config_def)

text \<open>
  C19: a program whose opcodes, executed one after the other on an empty stack, all succeed and
  leave one positive number is accepted, when its labels are distinct, the application exists
  and is not active yet: the interpreter has a run that ends, with the exit code 4, that number
  on the stack and the scratch space saved.
\<close>

theorem straight_line_accepts:
  assumes "runs_ops C pgm [] 0 [TInt i] 1" "i > 0"
    and "load_labels pgm 0 (\<lambda>l. None) \<noteq> None" "a \<notin> activeApps c0" "appCreator c0 a \<noteq> None"
  shows "\<exists>c. (step C)\<^sup>*\<^sup>* (execute_appl a pgm c0) c \<and> finished c \<and> returncode_cell c = 4 \<and> accepted c \<and> stack_cell c = [TInt i]"
  by (rule straight_line_run [OF assms])

theorem straight_line_accepts_witness:
  "\<exists>c. (step sample_crypto)\<^sup>*\<^sup>* (execute_appl 7 sample_program sample_config) c \<and> finished c \<and> returncode_cell c = 4 \<and>
     accepted c \<and> stack_cell c = [TInt 1]"
  using straight_line_accepts [OF sample_runs _ sample_start] by simp

end
