(* ===== verification/TealSafety.thy ===== *)
theory TealSafety
  imports TealRuns
begin

text \<open>
  What holds of every run of the TEAL interpreter: the bounds of the AVM, what acceptance means,
  and the end of programs that only jump forward.
\<close>

section \<open>Bounds of every configuration\<close>

text \<open>
  Programs without \<open>proto\<close> and \<open>frame_bury\<close>, whose rules count the cell \<open>stacksize\<close> wrongly or
  may, and with immediate arguments the assembler accepts.
\<close>

fun plain_op :: "opcode \<Rightarrow> bool" where
  "plain_op (Branch (O_proto a r)) = False"
| "plain_op (Branch (O_frame_bury n)) = False"
| "plain_op op = op_ok op"

fun item_ok :: "kitem \<Rightarrow> bool" where
  "item_ok (Op op) = plain_op op"
| "item_ok (LoadInputPgm pgm) = list_all plain_op pgm"
| "item_ok _ = True"

fun is_call_frame :: "frame \<Rightarrow> bool" where
  "is_call_frame (CallFrame a p) = True"
| "is_call_frame (ProtoFrame a p n r) = False"

definition cells_ok :: "config \<Rightarrow> bool" where
  "cells_ok c \<longleftrightarrow> stack_ok (stack_cell c) (stacksize c) \<and>
     (\<forall>i v. scratch_cell c i = Some v \<longrightarrow> tvalue_ok v) \<and> list_all plain_op (program_cell c) \<and>
     list_all item_ok (k_cell c) \<and> list_all is_call_frame (callStack c)"

text \<open>A program has panicked when the exit code says so or the panic is the next item.\<close>

definition panicked :: "config \<Rightarrow> bool" where
  "panicked c \<longleftrightarrow> returncode_cell c \<noteq> 4 \<or> (\<exists>p ks. k_cell c = PanicItem p # ks)"

lemma plain_op_ok: "plain_op op \<Longrightarrow> op_ok op"
  by (cases op rule: plain_op.cases) simp_all

lemma panic_code_not_4 [simp]: "panic_code p \<noteq> 4"
  by (cases p) simp_all

lemma stack_ok_Nil [simp]: "stack_ok [] s = (s = 0)"
  by (auto simp: stack_ok_def MAX_STACK_DEPTH_def)

lemma stack_ok_push: "stack_ok xs s \<Longrightarrow> tvalue_ok v \<Longrightarrow> s < MAX_STACK_DEPTH \<Longrightarrow> stack_ok (v # xs) (s + 1)"
  by (simp add: stack_ok_def)

lemma tvalue_ok_zero: "0 \<le> MAX_UINT64"
  by (simp add: MAX_UINT64_def)

lemma fetched_ok: "valid_address c \<Longrightarrow> list_all P (program_cell c) \<Longrightarrow> P (program_cell c ! nat (pc_cell c))"
  by (auto simp: valid_address_def list_all_length)

lemma stack_bottom_ok: "stack_ok xs s \<Longrightarrow> stack_bottom xs n = Some v \<Longrightarrow> tvalue_ok v"
  by (auto simp: stack_ok_def stack_bottom_def stack_top_def drop_stack_def list_all_length split: if_splits)

lemma branch_step_ok:
  assumes "branch_step f ks c c'" and "k_cell c = Op (Branch f) # ks" and "cells_ok c"
  shows "cells_ok c'"
  using assms
  by cases (auto simp: cells_ok_def MAX_STACK_DEPTH_def intro!: stack_ok_push stack_bottom_ok)

lemma jump_step_ok:
  assumes "jump_step i ks c c'" and "k_cell c = i # ks" and "cells_ok c"
  shows "cells_ok c'"
  using assms by cases (auto simp: cells_ok_def)

lemma scratch_step_ok:
  assumes "scratch_step f ks c c'" and "k_cell c = Op (Scratch f) # ks" and "cells_ok c"
  shows "cells_ok c'"
  using assms by cases (auto simp: cells_ok_def tvalue_ok_zero intro!: stack_ok_push)

lemma control_step_ok:
  assumes "control_step i ks c c'" and "k_cell c = i # ks" and "cells_ok c"
  shows "cells_ok c'"
  using assms by cases (auto simp: cells_ok_def fetched_ok)

lemma step_ok:
  assumes "step C c c'" and "cells_ok c" and "crypto_law C"
  shows "cells_ok c' \<or> panicked c'"
  using assms(1)
proof cases
  case (op_next op ks ys t)
  then have "plain_op op" using assms(2) by (simp add: cells_ok_def)
  then have "stack_ok ys t" using op_rule_ok [OF op_next(3)] assms plain_op_ok by (simp add: cells_ok_def)
  with op_next assms(2) show ?thesis by (simp add: cells_ok_def)
next
  case (op_panic op ks p t)
  then show ?thesis by (simp add: panicked_def)
next
  case (getbit_panic b a xs)
  then show ?thesis by (simp add: panicked_def)
qed (use assms(2) branch_step_ok jump_step_ok scratch_step_ok control_step_ok in blast)+

lemma step_returncode:
  assumes "step C c c'"
  shows "returncode_cell c' = returncode_cell c \<or> (\<exists>p. returncode_cell c' = panic_code p)"
  using assms
proof cases
  case (branch f ks)
  from branch(2) show ?thesis by cases auto
next
  case (scratch f ks)
  from scratch(2) show ?thesis by cases auto
next
  case (jump i ks)
  from jump(2) show ?thesis by cases auto
next
  case (control i ks)
  from control(2) show ?thesis by cases auto
qed auto

lemma step_panic_item: "step C c c' \<Longrightarrow> k_cell c = PanicItem p # ks \<Longrightarrow> returncode_cell c' = panic_code p"
  by (erule step.cases) (auto elim: jump_step.cases control_step.cases)

lemma step_panicked: "step C c c' \<Longrightarrow> panicked c \<Longrightarrow> panicked c'"
  using step_returncode [of C c c'] step_panic_item [of C c c'] by (force simp: panicked_def)

section \<open>Runs\<close>

lemma execute_appl_ok: "list_all plain_op pgm \<Longrightarrow> cells_ok (execute_appl a pgm c)"
  by (simp add: cells_ok_def execute_appl_def init_context_def)

text \<open>
  C8: in every configuration that the execution of an application's program reaches, unless the
  program has panicked, the stack holds at most 1000 values, the cell that counts them is
  right, and every value on the stack and in the scratch space is a 64-bit number or a byte
  array of at most 4096 bytes. (The programs are those without \<open>proto\<close> and \<open>frame_bury\<close>.)
\<close>

theorem run_within_bounds:
  assumes "(step C)\<^sup>*\<^sup>* (execute_appl a pgm c0) c" and "list_all plain_op pgm" and "crypto_law C"
    and "\<not> panicked c"
  shows "stacksize c = int (length (stack_cell c)) \<and> length (stack_cell c) \<le> 1000 \<and>
    list_all tvalue_ok (stack_cell c) \<and> (\<forall>i v. scratch_cell c i = Some v \<longrightarrow> tvalue_ok v)"
proof -
  have "cells_ok c \<or> panicked c"
    using assms(1)
  proof (induction rule: rtranclp_induct)
    case (step c c')
    then show ?case using step_ok assms(3) step_panicked by blast
  qed (simp add: execute_appl_ok assms(2))
  with assms(4) show ?thesis by (auto simp: cells_ok_def stack_ok_def MAX_STACK_DEPTH_def)
qed

theorem run_within_bounds_witness:
  "\<exists>c. (step sample_crypto)\<^sup>*\<^sup>* (execute_appl 7 sample_program sample_config) c \<and> finished c \<and>
     stacksize c = int (length (stack_cell c)) \<and> length (stack_cell c) \<le> 1000"
proof -
  from straight_line_run [OF sample_runs _ sample_start] obtain c where
    c: "(step sample_crypto)\<^sup>*\<^sup>* (execute_appl 7 sample_program sample_config) c" "finished c" "returncode_cell c = 4" by auto
  have "list_all plain_op sample_program" by (simp add: sample_program_def MAX_UINT64_def)
  moreover have "\<not> panicked c" using c(2,3) by (simp add: panicked_def finished_def)
  ultimately show ?thesis using c run_within_bounds [OF c(1) _ sample_crypto_law] by blast
qed

section \<open>Acceptance\<close>

text \<open>The contents of the cell \<open>k\<close> on the way through a program, without a panic.\<close>

inductive on_track :: "kitem list \<Rightarrow> config \<Rightarrow> bool" where
  "on_track [InitApp a, LoadInputPgm pgm, EvalTeal] c"
| "on_track [LoadInputPgm pgm, EvalTeal] c"
| "on_track [CheckDuplicateLabels, EvalTeal] c"
| "on_track [EvalTeal] c"
| "on_track [StartExecution] c"
| "on_track [FetchOpcode] c"
| "i \<in> {Jump l, CallSubroutine l, ReturnSubroutine, Op op} \<Longrightarrow> on_track [i, IncrementPC, FetchOpcode] c"
| "on_track [IncrementPC, FetchOpcode] c"
| "on_track [FinalizeExecution] c"
| "on_track [SaveScratch, DeactivateApp, CheckStack] c"
| "txScratch c = scratch_cell c \<Longrightarrow> on_track [DeactivateApp, CheckStack] c"
| "txScratch c = scratch_cell c \<Longrightarrow> currentApplicationID c \<notin> activeApps c \<Longrightarrow> on_track [CheckStack] c"
| "accepted c \<Longrightarrow> on_track [] c"

declare on_track.intros [intro]

lemma branch_step_on_track:
  assumes "branch_step f [IncrementPC, FetchOpcode] c c'" and "k_cell c = [Op (Branch f), IncrementPC, FetchOpcode]"
  shows "on_track (k_cell c') c' \<or> panicked c'"
  using assms by cases (auto simp: panicked_def)

lemma scratch_step_on_track:
  assumes "scratch_step f [IncrementPC, FetchOpcode] c c'"
  shows "on_track (k_cell c') c' \<or> panicked c'"
  using assms by cases (auto simp: panicked_def)

lemma jump_step_on_track:
  assumes "jump_step i [IncrementPC, FetchOpcode] c c'"
  shows "on_track (k_cell c') c' \<or> panicked c'"
  using assms by cases (auto simp: panicked_def)

lemma control_step_on_track:
  assumes "control_step i ks c c'" and "on_track (i # ks) c" and "\<not> panicked c"
  shows "on_track (k_cell c') c' \<or> panicked c'"
  using assms(1)
proof cases
  case (accept n)
  with assms(2) show ?thesis by (auto elim!: on_track.cases simp: accepted_def)
qed (use assms(2,3) in \<open>auto elim!: on_track.cases simp: panicked_def\<close>)

lemma step_on_track:
  assumes "step C c c'" and "on_track (k_cell c) c" and "\<not> panicked c"
  shows "on_track (k_cell c') c' \<or> panicked c'"
  using assms(1)
proof cases
  case (op_next op ks ys t)
  with assms(2) have "ks = [IncrementPC, FetchOpcode]" by (auto elim: on_track.cases)
  with op_next show ?thesis by auto
next
  case (op_panic op ks p t)
  then show ?thesis by (simp add: panicked_def)
next
  case (getbit_panic b a xs)
  then show ?thesis by (simp add: panicked_def)
next
  case (branch f ks)
  with assms(2) have "ks = [IncrementPC, FetchOpcode]" by (auto elim: on_track.cases)
  with branch branch_step_on_track show ?thesis by simp
next
  case (scratch f ks)
  with assms(2) have "ks = [IncrementPC, FetchOpcode]" by (auto elim: on_track.cases)
  with scratch scratch_step_on_track show ?thesis by simp
next
  case (jump i ks)
  with assms(2) have "ks = [IncrementPC, FetchOpcode]" by (auto elim!: on_track.cases elim: jump_step.cases)
  with jump jump_step_on_track show ?thesis by simp
next
  case (control i ks)
  with assms(2,3) control_step_on_track show ?thesis by simp
qed



section \<open>Programs that only jump forward end\<close>

fun jump_label :: "opcode \<Rightarrow> label option" where
  "jump_label (Branch (O_bnz l)) = Some l"
| "jump_label (Branch (O_bz l)) = Some l"
| "jump_label (Branch (O_b l)) = Some l"
| "jump_label op = None"

fun is_callsub :: "opcode \<Rightarrow> bool" where
  "is_callsub (Branch (O_callsub l)) = True"
| "is_callsub op = False"

text \<open>Every label an opcode jumps to stands behind the opcode, and there are no subroutine calls.\<close>

definition forward :: "opcode list \<Rightarrow> bool" where
  "forward pgm \<longleftrightarrow> (\<forall>i < length pgm. \<not> is_callsub (pgm ! i) \<and>
     (case (jump_label (pgm ! i), load_labels pgm 0 (\<lambda>l. None)) of
        (Some l, Some ls) \<Rightarrow> (case ls l of Some a \<Rightarrow> int i < a | None \<Rightarrow> True)
      | _ \<Rightarrow> True))"

lemma load_labels_bounds:
  "load_labels pgm a ls = Some ls' \<Longrightarrow> ls' l = Some b \<Longrightarrow> ls l = Some b \<or> a \<le> b \<and> b < a + int (length pgm)"
proof (induction pgm a ls rule: load_labels.induct)
  case (2 l' pgm a ls)
  then have "load_labels pgm (a + 1) (ls(l' \<mapsto> a)) = Some ls'" "ls l' = None" by (auto split: if_splits)
  with 2 have "(ls(l' \<mapsto> a)) l = Some b \<or> a + 1 \<le> b \<and> b < a + 1 + int (length pgm)" by blast
  then show ?case by (auto split: if_splits)
qed auto

inductive running :: "kitem list \<Rightarrow> config \<Rightarrow> bool" where
  fetch: "0 \<le> pc_cell c \<Longrightarrow> pc_cell c \<le> int (length (program_cell c)) \<Longrightarrow> \<not> jumped c \<Longrightarrow> running [FetchOpcode] c"
| op: "valid_address c \<Longrightarrow> \<not> jumped c \<Longrightarrow> op = program_cell c ! nat (pc_cell c) \<or> (\<exists>n. op = Branch (O_dupn n)) \<Longrightarrow>
    running [Op op, IncrementPC, FetchOpcode] c"
| jump: "valid_address c \<Longrightarrow> \<not> jumped c \<Longrightarrow>
    \<forall>a. label_address c l = Some a \<longrightarrow> pc_cell c < a \<and> a < int (length (program_cell c)) \<Longrightarrow>
    running [Jump l, IncrementPC, FetchOpcode] c"
| return: "running [ReturnSubroutine, IncrementPC, FetchOpcode] c"
| increment: "valid_address c \<Longrightarrow> running [IncrementPC, FetchOpcode] c"
| finalize: "running [FinalizeExecution] c"
| save: "running [SaveScratch, DeactivateApp, CheckStack] c"
| deactivate: "running [DeactivateApp, CheckStack] c"
| check: "running [CheckStack] c"

text \<open>The items before the program runs, and those after it ended or panicked.\<close>

inductive booting :: "opcode list \<Rightarrow> kitem list \<Rightarrow> config \<Rightarrow> bool" for pgm where
  init: "booting pgm [InitApp a, LoadInputPgm pgm, EvalTeal] c"
| load: "booting pgm [LoadInputPgm pgm, EvalTeal] c"
| labels: "program_cell c = pgm \<Longrightarrow> labels_cell c = load_labels pgm 0 (\<lambda>l. None) \<Longrightarrow>
    booting pgm [CheckDuplicateLabels, EvalTeal] c"
| eval: "program_cell c = pgm \<Longrightarrow> labels_cell c = load_labels pgm 0 (\<lambda>l. None) \<Longrightarrow> booting pgm [EvalTeal] c"
| start: "program_cell c = pgm \<Longrightarrow> labels_cell c = load_labels pgm 0 (\<lambda>l. None) \<Longrightarrow> booting pgm [StartExecution] c"

definition halting :: "config \<Rightarrow> bool" where
  "halting c \<longleftrightarrow> k_cell c = [] \<or> (\<exists>p ks. k_cell c = PanicItem p # ks) \<or>
     (\<exists>ks. k_cell c = StopIfError # ks \<and> returncode_cell c \<noteq> 0)"

definition forward_state :: "opcode list \<Rightarrow> config \<Rightarrow> bool" where
  "forward_state pgm c \<longleftrightarrow> halting c \<or>
     callStack c = [] \<and> (booting pgm (k_cell c) c \<and> pc_cell c = 0 \<and> \<not> jumped c \<or>
       running (k_cell c) c \<and> program_cell c = pgm \<and> labels_cell c = load_labels pgm 0 (\<lambda>l. None))"

text \<open>What decreases: the part of the execution, the way to the end of the program, the phase, a count.\<close>

fun phase :: "kitem list \<Rightarrow> nat \<times> nat \<times> nat" where
  "phase (InitApp a # ks) = (6, 0, 0)"
| "phase (LoadInputPgm pgm # ks) = (5, 0, 0)"
| "phase (CheckDuplicateLabels # ks) = (4, 0, 0)"
| "phase (EvalTeal # ks) = (3, 0, 0)"
| "phase (StartExecution # ks) = (2, 0, 0)"
| "phase (FetchOpcode # ks) = (1, 9, 0)"
| "phase (Op (Branch (O_dupn n)) # ks) = (1, 8, nat n)"
| "phase (Op op # ks) = (1, 8, 0)"
| "phase (Jump l # ks) = (1, 7, 0)"
| "phase (CallSubroutine l # ks) = (1, 7, 0)"
| "phase (ReturnSubroutine # ks) = (1, 7, 0)"
| "phase (IncrementPC # ks) = (1, 6, 0)"
| "phase (FinalizeExecution # ks) = (1, 5, 0)"
| "phase (SaveScratch # ks) = (1, 4, 0)"
| "phase (DeactivateApp # ks) = (1, 3, 0)"
| "phase (CheckStack # ks) = (1, 2, 0)"
| "phase (PanicItem p # ks) = (0, 1, 0)"
| "phase (StopIfError # ks) = (0, 0, length ks + 1)"
| "phase [] = (0, 0, 0)"

definition distance :: "config \<Rightarrow> nat" where
  "distance c = nat (2 * (int (length (program_cell c)) + 1) - 2 * pc_cell c + (if jumped c then 1 else 0))"

definition progress :: "config \<Rightarrow> nat \<times> nat \<times> nat \<times> nat" where
  "progress c = (fst (phase (k_cell c)), if fst (phase (k_cell c)) = 1 then distance c else 0, snd (phase (k_cell c)))"

definition less4 :: "((nat \<times> nat \<times> nat \<times> nat) \<times> (nat \<times> nat \<times> nat \<times> nat)) set" where
  "less4 = less_than <*lex*> less_than <*lex*> less_than <*lex*> less_than"

lemma wf_less4: "wf less4"
  by (simp add: less4_def wf_lex_prod)

lemma less4_simp [simp]: "((a, b, x, d), (a', b', x', d')) \<in> less4 \<longleftrightarrow>
  a < a' \<or> a = a' \<and> (b < b' \<or> b = b' \<and> (x < x' \<or> x = x' \<and> d < d'))"
  by (auto simp: less4_def)

lemma panic_code_not_0 [simp]: "panic_code p \<noteq> 0"
  by (cases p) simp_all

text \<open>A step of a halting configuration.\<close>

lemma halting_step:
  assumes "step C c c'" and "halting c"
  shows "halting c' \<and> (progress c', progress c) \<in> less4"
  using assms(1)
proof cases
  case (control i ks)
  from control(2) show ?thesis
    by cases (use control(1) assms(2) in \<open>auto simp: halting_def progress_def\<close>)
next
  case (jump i ks)
  from jump(2) show ?thesis
    by cases (use jump(1) assms(2) in \<open>auto simp: halting_def\<close>)
qed (use assms(2) in \<open>auto simp: halting_def\<close>)

lemma forward_jump:
  assumes "forward pgm" and "program_cell c = pgm" and "labels_cell c = load_labels pgm 0 (\<lambda>l. None)"
    and "valid_address c" and "jump_label (pgm ! nat (pc_cell c)) = Some l" and "label_address c l = Some a"
  shows "pc_cell c < a \<and> a < int (length pgm)"
proof -
  from assms(3,6) obtain ls where ls: "load_labels pgm 0 (\<lambda>l. None) = Some ls" "ls l = Some a"
    by (auto simp: label_address_def bind_eq_Some_conv)
  have i: "nat (pc_cell c) < length pgm" "int (nat (pc_cell c)) = pc_cell c"
    using assms(2,4) by (auto simp: valid_address_def)
  have "int (nat (pc_cell c)) < a" using assms(1,5) i(1) ls by (force simp: forward_def)
  with load_labels_bounds [OF ls] i(2) show ?thesis by simp
qed

lemma forward_no_call:
  "forward pgm \<Longrightarrow> program_cell c = pgm \<Longrightarrow> valid_address c \<Longrightarrow> pgm ! nat (pc_cell c) \<noteq> Branch (O_callsub l)"
  by (auto simp: forward_def valid_address_def dest!: spec [of _ "nat (pc_cell c)"])

lemma phase_op: "\<exists>d. phase (Op op # ks) = (1, 8, d)"
  by (cases "Op op # ks" rule: phase.cases) simp_all

lemma control_step_forward:
  assumes "control_step i ks c c'" and "k_cell c = i # ks" and "forward_state pgm c" and "\<not> halting c"
  shows "forward_state pgm c' \<and> (progress c', progress c) \<in> less4"
  using assms(1)
proof cases
  case fetch
  obtain d where "phase (Op (program_cell c ! nat (pc_cell c)) # IncrementPC # FetchOpcode # ks) = (1, 8, d)"
    using phase_op by blast
  with fetch show ?thesis using assms(2-4)
    by (auto simp: forward_state_def progress_def distance_def valid_address_def
        elim!: running.cases booting.cases intro!: running.op)
qed (use assms(2-4) in \<open>auto simp: forward_state_def halting_def progress_def distance_def valid_address_def
    elim!: running.cases booting.cases intro!: running.intros booting.intros\<close>)

lemma op_forward:
  assumes "running (Op op # ks) c"
  shows "ks = [IncrementPC, FetchOpcode] \<and> valid_address c \<and> \<not> jumped c \<and>
    (op = program_cell c ! nat (pc_cell c) \<or> (\<exists>n. op = Branch (O_dupn n)))"
  using assms by (auto elim: running.cases)

lemma not_booting_op: "\<not> booting pgm (Op op # ks) c"
  by (auto elim: booting.cases)

text \<open>An opcode that leaves the control to the next one.\<close>

lemma next_op_forward:
  assumes "k_cell c = Op op # ks" and "forward_state pgm c" and "k_cell c' = ks"
    and "pc_cell c' = pc_cell c" "jumped c' = jumped c" "program_cell c' = program_cell c" "labels_cell c' = labels_cell c"
      "callStack c' = callStack c"
  shows "forward_state pgm c' \<and> (progress c', progress c) \<in> less4"
proof -
  obtain d where d: "phase (Op op # ks) = (1, 8, d)" using phase_op by blast
  have r: "running (Op op # ks) c" "callStack c = []" "program_cell c = pgm" "labels_cell c = load_labels pgm 0 (\<lambda>l. None)"
    using assms(1,2) not_booting_op by (auto simp: forward_state_def halting_def)
  note op = op_forward [OF r(1)]
  have "running (k_cell c') c'" using op assms(3-8) by (simp add: valid_address_def running.increment)
  with r op assms d show ?thesis
    by (auto simp: forward_state_def progress_def distance_def valid_address_def intro!: running.increment)
qed

text \<open>An item that panics.\<close>

lemma panic_forward:
  assumes "k_cell c = i # ks" and "\<not> halting c" and "i \<noteq> StopIfError" and "k_cell c' = PanicItem p # ks'"
  shows "forward_state pgm c' \<and> (progress c', progress c) \<in> less4"
proof -
  obtain x y z where p: "phase (i # ks) = (x, y, z)" by (cases "phase (i # ks)")
  have "0 < fst (phase (i # ks)) \<or> (\<exists>ks. i # ks = StopIfError # ks) \<or> (\<exists>p ks. i # ks = PanicItem p # ks)"
    by (cases "i # ks" rule: phase.cases) simp_all
  with assms p show ?thesis by (auto simp: forward_state_def halting_def progress_def)
qed

text \<open>An opcode that becomes a jump, and one that is repeated.\<close>

lemma jump_op_forward:
  assumes "k_cell c = Op op # ks" and "forward_state pgm c" and "forward pgm" and "jump_label op = Some l"
    and "k_cell c' = Jump l # ks" and "pc_cell c' = pc_cell c" "jumped c' = jumped c"
      "program_cell c' = program_cell c" "labels_cell c' = labels_cell c" "callStack c' = callStack c"
  shows "forward_state pgm c' \<and> (progress c', progress c) \<in> less4"
proof -
  obtain d where d: "phase (Op op # ks) = (1, 8, d)" using phase_op by blast
  have r: "running (Op op # ks) c" "callStack c = []" "program_cell c = pgm" "labels_cell c = load_labels pgm 0 (\<lambda>l. None)"
    using assms(1,2) not_booting_op by (auto simp: forward_state_def halting_def)
  note op = op_forward [OF r(1)]
  have "op = program_cell c ! nat (pc_cell c)" using op assms(4) by auto
  then have "\<forall>a. label_address c l = Some a \<longrightarrow> pc_cell c < a \<and> a < int (length (program_cell c))"
    using forward_jump [OF assms(3) r(3,4)] op assms(4) r(3) by simp
  then have "running (k_cell c') c'"
    using op assms(5-9) by (simp add: valid_address_def label_address_def running.jump)
  with r assms d show ?thesis by (simp add: forward_state_def progress_def distance_def)
qed

lemma running_op_cells:
  "k_cell c = Op op # ks \<Longrightarrow> forward_state pgm c \<Longrightarrow> running (Op op # ks) c \<and> callStack c = [] \<and> program_cell c = pgm \<and>
     labels_cell c = load_labels pgm 0 (\<lambda>l. None)"
  using not_booting_op by (auto simp: forward_state_def halting_def)

lemma branch_step_forward:
  assumes "branch_step f ks c c'" and "k_cell c = Op (Branch f) # ks" and "forward_state pgm c" and "\<not> halting c"
    and "forward pgm"
  shows "forward_state pgm c' \<and> (progress c', progress c) \<in> less4"
proof -
  note r = running_op_cells [OF assms(2,3)]
  then have op: "ks = [IncrementPC, FetchOpcode]" "valid_address c" "\<not> jumped c"
    "Branch f = program_cell c ! nat (pc_cell c) \<or> (\<exists>n. f = O_dupn n)" using op_forward [of "Branch f" ks c] by auto
  have no_call: "f \<noteq> O_callsub l" for l using forward_no_call [of pgm c l] assms(5) r op by auto
  note same = next_op_forward [OF assms(2,3)] and jump = jump_op_forward [OF assms(2,3,5)]
  show ?thesis
    using assms(1)
  proof cases
    case (return i xs ks')
    then show ?thesis using r assms(2) op(1-3)
      by (simp add: forward_state_def progress_def distance_def running.finalize)
  next
    case retsub
    then show ?thesis using r assms(2) op(1-3)
      by (simp add: forward_state_def progress_def distance_def running.return)
  next
    case (callsub l)
    then show ?thesis using no_call by simp
  next
    case (dupn x xs n)
    have "running (k_cell c') c'" unfolding dupn using op by (simp add: valid_address_def running.op)
    then show ?thesis using dupn r assms(2) by (simp add: forward_state_def progress_def distance_def)
  next
    case (dupn_overflow n)
    then show ?thesis using panic_forward [OF assms(2,4)] by simp
  qed (use r in \<open>simp_all add: same jump\<close>)
qed

lemma scratch_step_forward:
  assumes "scratch_step f ks c c'" and "k_cell c = Op (Scratch f) # ks" and "forward_state pgm c" and "\<not> halting c"
  shows "forward_state pgm c' \<and> (progress c', progress c) \<in> less4"
  using assms(1)
  by cases (use next_op_forward [OF assms(2,3)] panic_forward [OF assms(2,4)] in \<open>simp_all\<close>)

lemma jump_step_forward:
  assumes "jump_step i ks c c'" and "k_cell c = i # ks" and "forward_state pgm c" and "\<not> halting c"
  shows "forward_state pgm c' \<and> (progress c', progress c) \<in> less4"
  using assms(1)
proof cases
  case (jump l a)
  then show ?thesis using assms(2-4)
    by (auto simp: forward_state_def progress_def distance_def valid_address_def
        elim!: running.cases booting.cases intro!: running.increment)
next
  case (call l a)
  then show ?thesis using assms(2-4) by (auto simp: forward_state_def elim: running.cases booting.cases)
next
  case (return_proto a p args rets fs n xs)
  then show ?thesis using assms(3,4) by (auto simp: forward_state_def)
next
  case (return_call a p fs)
  then show ?thesis using assms(3,4) by (auto simp: forward_state_def)
qed (use panic_forward [OF assms(2,4)] in simp_all)

lemma step_forward:
  assumes "step C c c'" and "forward_state pgm c" and "forward pgm"
  shows "forward_state pgm c' \<and> (progress c', progress c) \<in> less4"
proof (cases "halting c")
  case True
  with halting_step [OF assms(1)] show ?thesis by (simp add: forward_state_def)
next
  case False
  from assms(1) show ?thesis
  proof cases
    case (op_next op ks ys t)
    then show ?thesis by (intro next_op_forward [OF op_next(2) assms(2)]) simp_all
  next
    case (op_panic op ks p t)
    then have "k_cell c' = PanicItem p # ks" by simp
    with panic_forward [OF op_panic(2) False] show ?thesis by simp
  next
    case (getbit_panic b a xs)
    then have "k_cell c' = [PanicItem INDEX_OUT_OF_BOUNDS]" by simp
    with panic_forward [OF getbit_panic(2) False] show ?thesis by simp
  next
    case (branch f ks)
    then show ?thesis using branch_step_forward assms(2,3) False by blast
  next
    case (scratch f ks)
    then show ?thesis using scratch_step_forward assms(2) False by blast
  next
    case (jump i ks)
    then show ?thesis using jump_step_forward assms(2) False by blast
  next
    case (control i ks)
    then show ?thesis using control_step_forward assms(2) False by blast
  qed
qed

text \<open>
  C18: a program whose jumps all lead forward and that calls no subroutine comes to an end,
  whatever the state of the application: there is no infinite run, even one that chooses between
  rules that apply together.
\<close>

theorem forward_programs_end:
  assumes "forward pgm"
  shows "\<not> (\<exists>f. f 0 = execute_appl a pgm c \<and> (\<forall>n. step C (f n) (f (Suc n))))"
proof
  assume "\<exists>f. f 0 = execute_appl a pgm c \<and> (\<forall>n. step C (f n) (f (Suc n)))"
  then obtain f where f: "f 0 = execute_appl a pgm c" "\<And>n. step C (f n) (f (Suc n))" by blast
  have s: "forward_state pgm (f n)" for n
  proof (induction n)
    case 0
    show ?case by (simp add: f(1) forward_state_def execute_appl_def init_context_def booting.init)
  next
    case (Suc n)
    then show ?case using step_forward [OF f(2) _ assms] by blast
  qed
  have "(progress (f (Suc n)), progress (f n)) \<in> less4" for n using step_forward [OF f(2) s assms] by blast
  then have "\<exists>g. \<forall>n. (g (Suc n), g n) \<in> less4" by (intro exI [of _ "\<lambda>n. progress (f n)"]) simp
  with wf_less4 show False unfolding wf_iff_no_infinite_down_chain by contradiction
qed

definition jumping_program :: "opcode list" where
  "jumping_program = [Pseudo (O_int 1), Branch (O_bnz ''ok''), Err, LabelCode ''ok'', Pseudo (O_int 7)]"

lemma jumping_program_forward: "forward jumping_program"
  by code_simp

theorem forward_programs_end_witness:
  "forward jumping_program \<and>
     \<not> (\<exists>f. f 0 = execute_appl 7 jumping_program sample_config \<and> (\<forall>n. step sample_crypto (f n) (f (Suc n))))"
  using jumping_program_forward forward_programs_end [OF jumping_program_forward] by blast

end
