(* ===== verification/TealProgress.thy ===== *)
theory TealProgress
  imports TealRuns
begin

text \<open>
  Which opcodes always have a rule, whatever the stack, and where the rules leave a gap: a
  program that reaches such a state gets stuck instead of panicking.
\<close>

section \<open>Opcodes that always have a rule\<close>

fun total_op :: "opcode \<Rightarrow> bool" where
  "total_op (Arith f) = (f \<notin> {O_sqrt, O_divmodw, O_divw})"
| "total_op (Bit f) = (f \<notin> {O_getbit, O_setbit})"
| "total_op (Relational f) = True"
| "total_op (Logical f) = True"
| "total_op (MathByte f) = (f = O_bnot)"
| "total_op (Byte (O_substring st en)) = True"
| "total_op (Byte f) = (f \<in> {O_len, O_itob, O_btoi, O_concat, O_substring3})"
| "total_op (Stack (O_pushint i)) = False"
| "total_op (Stack (O_pushbytes b)) = False"
| "total_op (Stack f) = (f \<noteq> O_select)"
| "total_op (Pseudo p) = True"
| "total_op (Crypto f) = False"
| "total_op (Scratch f) = False"
| "total_op (Branch f) = False"
| "total_op op = True"

definition has_rule :: "crypto \<Rightarrow> opcode \<Rightarrow> teal_value list \<Rightarrow> int \<Rightarrow> bool" where
  "has_rule C op xs s \<longleftrightarrow> (\<exists>r. op_rule C op xs s r)"

lemma has_ruleI: "op_rule C op xs s r \<Longrightarrow> has_rule C op xs s"
  by (auto simp: has_rule_def)

lemmas has_group_rule =
  op_rule.arith [THEN has_ruleI] op_rule.bit [THEN has_ruleI] op_rule.relational [THEN has_ruleI]
  op_rule.logical [THEN has_ruleI] op_rule.byte [THEN has_ruleI] op_rule.math_byte [THEN has_ruleI]
  op_rule.pseudo [THEN has_ruleI] op_rule.stack [THEN has_ruleI]

lemmas has_ill_typed = op_rule.ill_typed [THEN has_ruleI]

lemma has_rule_empty: "takes_argument op \<Longrightarrow> s = 0 \<Longrightarrow> has_rule C op [] s"
  using op_rule.underflow [OF underflow_rule.one] by (auto simp: has_rule_def)

lemma has_rule_single:
  assumes "isBinaryArithOpCode op \<or> isBinaryBitOpCode op \<or> isInequalityOpCode op \<or> isEqualityOpCode op \<or>
    isBinaryLogicalOpCode op \<or> isBinaryByteOpCode op \<or> isTernaryByteOpCode op \<or> isBinaryStackOpCode op"
    and "s = 1"
  shows "has_rule C op [v] s"
  using assms op_rule.underflow [OF underflow_rule.two, THEN has_ruleI] by blast

text \<open>An opcode with two numbers as arguments.\<close>

lemma binary_progress:
  assumes b: "isBinaryArithOpCode op \<or> isInequalityOpCode op \<or> isBinaryLogicalOpCode op \<or> isBinaryBitOpCode op"
    and s: "stack_ok xs s" and "takes_argument op"
    and n: "\<And>i2 i1 ys. xs = TInt i2 # TInt i1 # ys \<Longrightarrow> 0 \<le> i1 \<Longrightarrow> 0 \<le> i2 \<Longrightarrow> has_rule C op xs s"
  shows "has_rule C op xs s"
proof (cases xs rule: remdups_adj.cases)
  case 1
  then show ?thesis using s assms(3) by (simp add: has_rule_empty stack_ok_def)
next
  case (2 v)
  then show ?thesis using s b by (intro has_rule_single [of op s C v, folded 2]) (auto simp: stack_ok_def)
next
  case (3 v2 v1 ys)
  show ?thesis
  proof (cases "is_bytes v2 \<or> is_bytes v1")
    case True
    show ?thesis unfolding 3 by (rule has_ill_typed [OF ill_typed_rule.binary [OF b True]])
  next
    case False
    then obtain i2 i1 where "v2 = TInt i2" "v1 = TInt i1" by (cases v2; cases v1) (auto simp: is_bytes_def)
    with 3 s show ?thesis by (intro n [of i2 i1 ys]) simp_all
  qed
qed

lemma arith_numbers:
  assumes "total_op (Arith f)" and "0 \<le> i2"
  shows "\<exists>r. arith_rule f (TInt i2 # TInt i1 # xs) s r"
proof (cases f)
  case O_add
  then show ?thesis using arith_rule.add arith_rule.add_overflow by (meson not_le)
next
  case O_sub
  then show ?thesis using arith_rule.sub arith_rule.sub_underflow by (meson not_le)
next
  case O_mul
  then show ?thesis using arith_rule.mul arith_rule.mul_overflow by (meson not_le)
next
  case O_div
  then show ?thesis using arith_rule.div arith_rule.div_zero by (meson not_le)
next
  case O_mod
  then show ?thesis using arith_rule.mod arith_rule.mod_zero by (meson not_le)
next
  case O_exp
  then show ?thesis using assms(2) arith_rule.exp [of i2 i1 xs s] arith_rule.exp_zero [of i1 i2 xs s]
      arith_rule.exp_overflow [of i2 i1 xs s]
    by (cases "i1 = 0 \<and> i2 = 0"; cases "i1 ^ nat i2 \<le> MAX_UINT64") (simp_all only: not_le, blast+)
next
  case O_expw
  then show ?thesis using assms(2) arith_rule.expw [of i2 i1 xs s] arith_rule.expw_zero [of i1 i2 xs s]
      arith_rule.expw_overflow [of i2 i1 xs s]
    by (cases "i1 = 0 \<and> i2 = 0"; cases "i1 ^ nat i2 \<le> MAX_UINT128") (simp_all only: not_le, blast+)
next
  case O_addw
  then show ?thesis using arith_rule.addw by blast
next
  case O_mulw
  then show ?thesis using arith_rule.mulw by blast
qed (use assms(1) in simp_all)

lemma relational_numbers: "has_rule C (Relational f) (TInt i2 # TInt i1 # xs) s"
  by (cases f) (auto intro: has_group_rule relational_rule.intros)

lemma logical_numbers: "f \<noteq> O_lnot \<Longrightarrow> \<exists>r. logical_rule f (TInt i2 # TInt i1 # xs) s r"
  by (cases f) (auto intro: logical_rule.intros)

lemma bit_numbers:
  assumes "isBinaryBitOpCode (Bit f)"
  shows "\<exists>r. bit_rule f (TInt i2 # TInt i1 # xs) s r"
proof (cases f)
  case O_shl
  then show ?thesis using bit_rule.shl bit_rule.shl_invalid by meson
next
  case O_shr
  then show ?thesis using bit_rule.shr bit_rule.shr_invalid by meson
next
  case O_or
  then show ?thesis using bit_rule.bor by blast
next
  case O_and
  then show ?thesis using bit_rule.band by blast
next
  case O_xor
  then show ?thesis using bit_rule.bxor by blast
qed (use assms in simp_all)

lemma arith_progress: "total_op (Arith f) \<Longrightarrow> stack_ok xs s \<Longrightarrow> has_rule C (Arith f) xs s"
  by (rule binary_progress) (simp, assumption, simp, blast intro: has_group_rule dest: arith_numbers)

lemma logical_progress:
  assumes "stack_ok xs s"
  shows "has_rule C (Logical f) xs s"
proof (cases "f = O_lnot")
  case True
  show ?thesis
  proof (cases xs)
    case Nil
    then show ?thesis using assms by (simp add: has_rule_empty stack_ok_def)
  next
    case (Cons v ys)
    with True show ?thesis
      using has_ill_typed [OF ill_typed_rule.unary, of "Logical O_lnot"] op_rule.logical [OF logical_rule.lnot, THEN has_ruleI]
      by (cases v) simp_all
  qed
next
  case False
  then show ?thesis
    by - (rule binary_progress, simp, rule assms, simp, blast intro: has_group_rule dest: logical_numbers)
qed

lemma relational_progress:
  assumes "stack_ok xs s"
  shows "has_rule C (Relational f) xs s"
proof (cases "isInequalityOpCode (Relational f)")
  case True
  then show ?thesis
    by - (rule binary_progress, simp, rule assms, simp, simp add: relational_numbers)
next
  case False
  then have e: "isEqualityOpCode (Relational f)" by (cases f) simp_all
  show ?thesis
  proof (cases xs rule: remdups_adj.cases)
    case 1
    then show ?thesis using assms by (simp add: has_rule_empty stack_ok_def)
  next
    case (2 v)
    then show ?thesis using assms e has_rule_single [of "Relational f" s C v] by (auto simp: stack_ok_def)
  next
    case (3 v2 v1 ys)
    show ?thesis
    proof (cases "is_bytes v1 = is_bytes v2")
      case True
      then show ?thesis using e unfolding 3
        by (cases v2; cases v1) (auto simp: is_bytes_def intro: has_group_rule relational_rule.intros)
    next
      case False
      then show ?thesis unfolding 3 by (intro has_ill_typed [OF ill_typed_rule.equality [OF e]]) blast
    qed
  qed
qed

lemma bit_progress:
  assumes "total_op (Bit f)" and "stack_ok xs s"
  shows "has_rule C (Bit f) xs s"
proof (cases "isBinaryBitOpCode (Bit f)")
  case True
  then show ?thesis
    by - (rule binary_progress, simp, rule assms, simp, blast intro: has_group_rule dest: bit_numbers)
next
  case False
  then have f: "f = O_not \<or> f = O_bitlen \<or> f = O_bsqrt" using assms(1) by (cases f) simp_all
  show ?thesis
  proof (cases xs)
    case Nil
    then show ?thesis using assms by (simp add: has_rule_empty stack_ok_def)
  next
    case (Cons v ys)
    show ?thesis
    proof (cases v)
      case (TInt i)
      then have "i = 0 \<or> 0 < i \<and> i \<le> MAX_UINT64" using assms(2) Cons by auto
      with f Cons TInt show ?thesis
        by (auto intro: has_group_rule bit_rule.intros)
    next
      case (TBytes b)
      then have b: "int (length b) \<le> MAX_BYTEARRAY_LEN" "be_int b = 0 \<or> 0 < be_int b"
        using assms(2) Cons be_int_nonneg [of b] by (simp_all add: order_le_less disj_commute del: be_int_nonneg)
      obtain r where r: "is_sqrt (be_int b) r" using is_sqrt_exists be_int_nonneg by blast
      then have "sqrtUInt (be_int b) = Some r" "int_to_bytes r = Some (be_bytes (nat r))"
        using sqrtUInt_root by (simp_all add: is_sqrt_def int_to_bytes_Some)
      from bit_rule.bsqrt [OF this] b f Cons TBytes show ?thesis
        by (auto intro: has_group_rule bit_rule.not_ill_typed bit_rule.bitlen_bytes bit_rule.bitlen_bytes_zero)
    qed
  qed
qed

lemma unary_byte_progress:
  assumes "tvalue_ok v"
  shows "has_rule C (Byte O_len) (v # xs) s" "has_rule C (Byte O_itob) (v # xs) s" "has_rule C (Byte O_btoi) (v # xs) s"
    "has_rule C (Byte (O_substring st en)) (v # xs) s"
proof -
  show "has_rule C (Byte O_len) (v # xs) s"
    by (cases v) (auto intro: has_group_rule has_ill_typed byte_rule.len ill_typed_rule.len)
  show "has_rule C (Byte O_itob) (v # xs) s"
  proof (cases v)
    case (TInt i)
    then have "int_to_bytes i = Some (be_bytes (nat i))" using assms by (simp add: int_to_bytes_Some)
    moreover obtain y where "pad_left_bytes (be_bytes (nat i)) 8 0 = Some y" by (simp add: pad_left_bytes_Some)
    ultimately show ?thesis using TInt by (auto intro: has_group_rule byte_rule.itob)
  qed (auto intro: has_ill_typed ill_typed_rule.itob)
  show "has_rule C (Byte O_btoi) (v # xs) s"
  proof (cases v)
    case (TBytes b)
    then show ?thesis
      by (cases "be_int b \<le> MAX_UINT64") (auto simp: not_le intro: has_group_rule byte_rule.btoi byte_rule.btoi_overflow)
  qed (auto intro: has_ill_typed ill_typed_rule.btoi)
  show "has_rule C (Byte (O_substring st en)) (v # xs) s"
  proof (cases v)
    case (TBytes b)
    show ?thesis
    proof (cases "0 \<le> st \<and> st \<le> en \<and> en \<le> int (length b)")
      case True
      then obtain x where "substr_bytes b st en = Some x" by (simp add: substr_bytes_def)
      with True TBytes show ?thesis by (auto intro: has_group_rule byte_rule.substring)
    next
      case False
      then have "0 > st \<or> st > en \<or> en > int (length b)" by linarith
      with TBytes show ?thesis using op_rule.byte [OF byte_rule.substring_index, THEN has_ruleI] by blast
    qed
  qed (auto intro: has_ill_typed ill_typed_rule.substring)
qed

lemma concat_progress: "has_rule C (Byte O_concat) (v2 # v1 # xs) s"
proof (cases "is_bytes v2 \<and> is_bytes v1")
  case True
  then obtain b2 b1 where "v2 = TBytes b2" "v1 = TBytes b1" by (cases v2; cases v1) (auto simp: is_bytes_def)
  then show ?thesis
    by (cases "int (length (b1 @ b2)) \<le> MAX_BYTEARRAY_LEN")
      (auto intro!: has_group_rule byte_rule.concat byte_rule.concat_overflow)
next
  case False
  then show ?thesis using has_ill_typed [OF ill_typed_rule.concat] by blast
qed

lemma substring3_progress: "has_rule C (Byte O_substring3) (v3 # v2 # v1 # xs) s"
proof (cases "is_bytes v3 \<and> \<not> is_bytes v2 \<and> \<not> is_bytes v1")
  case True
  then obtain b st en where v: "v3 = TBytes b" "v2 = TInt st" "v1 = TInt en"
    by (cases v3; cases v2; cases v1) (auto simp: is_bytes_def)
  show ?thesis
  proof (cases "0 \<le> st \<and> st \<le> en \<and> en \<le> int (length b)")
    case True
    then obtain x where "substr_bytes b st en = Some x" by (simp add: substr_bytes_def)
    with True v show ?thesis by (auto intro: has_group_rule byte_rule.substring3)
  next
    case False
    then have "0 > st \<or> st > en \<or> en > int (length b)" by linarith
    with v show ?thesis using op_rule.byte [OF byte_rule.substring3_index, THEN has_ruleI] by blast
  qed
next
  case False
  then show ?thesis using has_ill_typed [OF ill_typed_rule.substring3] by blast
qed

lemma byte_progress:
  assumes "total_op (Byte f)" and "stack_ok xs s"
  shows "has_rule C (Byte f) xs s"
proof (cases xs)
  case Nil
  then show ?thesis using assms by (simp add: has_rule_empty stack_ok_def)
next
  case (Cons v ys)
  then have s: "tvalue_ok v" "s = 1 + int (length ys)" using assms(2) by (auto simp: stack_ok_def)
  show ?thesis
  proof (cases "f = O_concat \<or> f = O_substring3")
    case False
    with assms(1) Cons unary_byte_progress [OF s(1)] show ?thesis by (cases f) simp_all
  next
    case True
    then have b: "isBinaryByteOpCode (Byte f) \<or> isTernaryByteOpCode (Byte f)" by auto
    show ?thesis
    proof (cases ys rule: remdups_adj.cases)
      case 1
      with Cons s b has_rule_single show ?thesis by auto
    next
      case (2 w)
      with Cons s True show ?thesis
        using concat_progress [of C v w "[]" s] op_rule.underflow [OF underflow_rule.three, of "Byte O_substring3" C v w] has_ruleI
        by auto
    next
      case (3 w u zs)
      with Cons True show ?thesis using concat_progress substring3_progress by auto
    qed
  qed
qed

lemma bnot_progress:
  assumes "stack_ok xs s"
  shows "has_rule C (MathByte O_bnot) xs s"
proof (cases xs)
  case Nil
  then show ?thesis using assms by (simp add: has_rule_empty stack_ok_def)
next
  case (Cons v ys)
  show ?thesis
  proof (cases v)
    case (TBytes a)
    obtain m where m: "pad_left_bytes [] (int (length a)) 255 = Some m" by (simp add: pad_left_bytes_Some)
    obtain x where "BytesBitwiseOp a m BytesXor = Some x" by (simp add: bytes_bitwise_bytes Let_def)
    from math_byte_rule.bnot [OF m this] Cons TBytes show ?thesis by (auto intro: has_group_rule)
  qed (use Cons in \<open>auto intro: has_ill_typed ill_typed_rule.bnot\<close>)
qed

lemma pseudo_progress:
  assumes "crypto_law C"
  shows "has_rule C (Pseudo p) xs s"
proof (cases "s < MAX_STACK_DEPTH")
  case True
  have "methodSelector C m = Some (take 4 (Sha512_256raw C m))" for m
    using assms by (simp add: methodSelector_def substr_bytes_def crypto_law_def)
  with True show ?thesis by (cases p) (auto intro: has_group_rule pseudo_rule.intros)
qed (use op_rule.pseudo [OF pseudo_rule.pseudo_overflow, THEN has_ruleI] in \<open>simp add: not_less\<close>)

lemma stack_progress:
  assumes "total_op (Stack f)" and "stack_ok xs s"
  shows "has_rule C (Stack f) xs s"
proof (cases xs)
  case Nil
  with assms show ?thesis by (cases f) (simp_all add: has_rule_empty stack_ok_def)
next
  case (Cons v ys)
  then have s: "s = 1 + int (length ys)" using assms(2) by (auto simp: stack_ok_def)
  have top: "\<exists>v. stack_top xs n = Some v" if "0 \<le> n" "n < s" for n using that Cons s by (simp add: stack_top_def)
  show ?thesis
  proof (cases f)
    case O_pop
    with Cons show ?thesis by (auto intro: has_group_rule stack_rule.pop)
  next
    case O_dup
    with Cons show ?thesis
      by (cases "s < MAX_STACK_DEPTH") (auto simp: not_less not_le intro: has_group_rule stack_rule.dup stack_rule.dup_overflow)
  next
    case O_dup2
    show ?thesis
    proof (cases ys)
      case Nil
      with Cons O_dup2 s show ?thesis by (auto intro: has_rule_single)
    next
      case (Cons w zs)
      with \<open>xs = v # ys\<close> O_dup2 show ?thesis
        by (cases "s + 1 < MAX_STACK_DEPTH") (auto simp: not_less not_le intro: has_group_rule stack_rule.dup2 stack_rule.dup2_overflow)
    qed
  next
    case O_swap
    with Cons show ?thesis by (cases ys) (auto intro: has_group_rule stack_rule.swap stack_rule.swap_underflow)
  next
    case (O_dig n)
    show ?thesis
    proof (cases "0 \<le> n \<and> n < s")
      case True
      with top obtain w where "stack_top xs n = Some w" by blast
      with True O_dig show ?thesis
        by (cases "s < MAX_STACK_DEPTH") (auto simp: not_less not_le intro: has_group_rule stack_rule.dig stack_rule.dig_overflow)
    next
      case False
      with O_dig show ?thesis using op_rule.stack [OF stack_rule.dig_underflow, THEN has_ruleI] by blast
    qed
  next
    case (O_cover n)
    with Cons show ?thesis
      by (cases "0 \<le> n \<and> n < s") (auto intro: has_group_rule stack_rule.cover stack_rule.cover_underflow)
  next
    case (O_uncover n)
    show ?thesis
    proof (cases "0 \<le> n \<and> n < s")
      case True
      with top obtain w where "stack_top xs n = Some w" by blast
      with True O_uncover show ?thesis by (auto intro: has_group_rule stack_rule.uncover)
    next
      case False
      with O_uncover show ?thesis using op_rule.stack [OF stack_rule.uncover_underflow, THEN has_ruleI] by blast
    qed
  next
    case (O_bury n)
    with Cons show ?thesis
      by (cases "0 < n \<and> n < s") (auto intro: has_group_rule stack_rule.bury stack_rule.bury_underflow)
  next
    case (O_popn n)
    then show ?thesis
      by (cases "n \<le> s") (auto simp: not_less not_le intro: has_group_rule stack_rule.popn stack_rule.popn_underflow)
  qed (use assms(1) in simp_all)
qed

lemma total_op_progress:
  assumes "total_op op" and "stack_ok xs s" and "crypto_law C"
  shows "has_rule C op xs s"
proof (cases op)
  case (MathByte f)
  with assms bnot_progress show ?thesis by simp
qed (use assms arith_progress bit_progress relational_progress logical_progress byte_progress pseudo_progress stack_progress
    op_rule.noop [THEN has_ruleI] op_rule.err [THEN has_ruleI] op_rule.label [THEN has_ruleI] in simp_all)

text \<open>
  C10: the arithmetic, relational, logical, bit and byte-array opcodes and those on the stack, but
  for those that \<open>total_op\<close> excludes, are safe on every stack within the bounds of the AVM: some
  rule of the semantics always applies, whatever the types and the number of the arguments, and
  whichever does leaves a stack within the bounds, whose size the cell \<open>stacksize\<close> counts, or a
  panic.
\<close>

theorem total_opcodes_are_safe:
  assumes "total_op op" and "op_ok op" and "stack_ok xs s" and "crypto_law C"
  shows "(\<exists>r. op_rule C op xs s r) \<and> (\<forall>ys t. op_rule C op xs s (Next ys t) \<longrightarrow> stack_ok ys t)"
  using total_op_progress [OF assms(1,3,4)] op_rule_ok [OF _ assms(3,2,4)] by (auto simp: has_rule_def)

theorem total_opcodes_are_safe_witness:
  "(\<exists>r. op_rule sample_crypto (Arith O_add) [TInt MAX_UINT64, TInt 1] 2 r) \<and>
     (\<exists>r. op_rule sample_crypto (Byte O_substring3) [TInt 1, TBytes [1]] 2 r)"
  using total_opcodes_are_safe [of "Arith O_add" "[TInt MAX_UINT64, TInt 1]" 2 sample_crypto]
    total_opcodes_are_safe [of "Byte O_substring3" "[TInt 1, TBytes [1]]" 2 sample_crypto] sample_crypto_law
  by (simp add: teal_limits stack_ok_def)

section \<open>One result\<close>

lemma long_bitop_panics:
  assumes "long_bitop op xs"
  shows "\<exists>p t. op_rule C op xs s (Panic p t)"
proof (cases op)
  case (MathByte f)
  have "\<exists>p t. math_byte_rule f xs s (Panic p t)"
  proof (cases "f = O_bnot")
    case True
    with assms MathByte obtain a ys where "xs = TBytes a # ys" "int (length a) > MAX_BYTE_MATH_SIZE"
      by (auto simp: long_bitop_def split: list.splits teal_value.splits)
    with True show ?thesis using math_byte_rule.bnot_too_long by blast
  next
    case False
    with assms MathByte obtain b a ys where "xs = TBytes b # TBytes a # ys" "\<not> math_sized a b"
      by (cases f; cases xs; cases "hd xs"; cases "tl xs"; cases "hd (tl xs)") (auto simp: long_bitop_def)
    with False show ?thesis using math_byte_rule.too_long [of f a b ys s] unfolding math_sized_def not_le de_Morgan_conj by blast
  qed
  with MathByte show ?thesis by (blast intro: op_rule.math_byte)
qed (use assms in \<open>simp_all add: long_bitop_def\<close>)

lemma popn_zero_unique: "op_rule C (Stack (O_popn 0)) xs s r \<Longrightarrow> xs \<noteq> [] \<Longrightarrow> 0 \<le> s \<Longrightarrow> r = Next xs s"
  by (auto elim!: op_rule.cases elim: stack_rule.cases ill_typed_rule.cases underflow_rule.cases simp: drop_stack_def)

text \<open>
  C28: when an opcode can succeed, the rules leave no choice, neither a second result nor a panic,
  with two exceptions: the bitwise opcodes on byte arrays of more than 64 bytes, which succeed by
  one rule and panic by another, and \<open>popn 0\<close> on an empty stack.
\<close>

theorem opcode_outcome_unique:
  assumes "op_rule C op xs s (Next ys t)" and "op_ok op" and "stack_ok xs s"
  shows "(\<forall>r. op_rule C op xs s r \<longrightarrow> r = Next ys t) \<longleftrightarrow> \<not> long_bitop op xs \<and> \<not> (op = Stack (O_popn 0) \<and> xs = [])"
proof
  assume unique: "\<forall>r. op_rule C op xs s r \<longrightarrow> r = Next ys t"
  have "\<not> long_bitop op xs" using unique long_bitop_panics [of op xs C s] by force
  moreover have "\<not> (op = Stack (O_popn 0) \<and> xs = [])"
  proof
    assume e: "op = Stack (O_popn 0) \<and> xs = []"
    then have "op_rule C op xs s (Panic STACK_UNDERFLOW 0)"
      using assms(3) op_rule.underflow [OF underflow_rule.one, of "Stack (O_popn 0)" C] by (simp add: stack_ok_def)
    with unique show False by blast
  qed
  ultimately show "\<not> long_bitop op xs \<and> \<not> (op = Stack (O_popn 0) \<and> xs = [])" by blast
next
  assume no: "\<not> long_bitop op xs \<and> \<not> (op = Stack (O_popn 0) \<and> xs = [])"
  show "\<forall>r. op_rule C op xs s r \<longrightarrow> r = Next ys t"
  proof (cases "op = Stack (O_popn 0)")
    case True
    then have "r = Next xs s" if "op_rule C op xs s r" for r
      using that no popn_zero_unique [of C xs s r] stack_ok_size [OF assms(3)] by blast
    with assms(1) show ?thesis by metis
  next
    case False
    then show ?thesis using op_rule_unique [OF assms(1)] assms(2) no by blast
  qed
qed

theorem opcode_outcome_unique_witness:
  "Collect (op_rule sample_crypto (Arith O_add) [TInt 4, TInt 3] 2) = {Next [TInt 7] 1}"
proof -
  have r: "op_rule sample_crypto (Arith O_add) [TInt 4, TInt 3] 2 (Next [TInt 7] 1)"
    using arith_rule.add [of 3 4 "[]" 2] by (simp add: op_rule.arith MAX_UINT64_def)
  from opcode_outcome_unique [OF r]
  have "\<forall>r. op_rule sample_crypto (Arith O_add) [TInt 4, TInt 3] 2 r \<longrightarrow> r = Next [TInt 7] 1"
    by (simp add: teal_limits stack_ok_def long_bitop_def)
  with r show ?thesis by blast
qed

section \<open>Gaps\<close>

text \<open>Stacks on which an opcode must panic and for which the semantics has no rule.\<close>

inductive gap :: "opcode \<Rightarrow> teal_value list \<Rightarrow> int \<Rightarrow> bool" where
  setbyte_index: "\<not> (0 \<le> b \<and> b < int (length a)) \<Longrightarrow> 0 \<le> c \<Longrightarrow> c \<le> MAX_UINT8 \<Longrightarrow>
    gap (Byte O_setbyte) (TInt c # TInt b # TBytes a # xs) s"
| getbit_index: "\<not> (0 \<le> b \<and> b < int (length a) * 8) \<Longrightarrow> gap (Bit O_getbit) (TInt b # TBytes a # xs) s"
| pushint_full: "s \<ge> MAX_STACK_DEPTH \<Longrightarrow> gap (Stack (O_pushint i)) xs s"
| pushbytes_full: "s \<ge> MAX_STACK_DEPTH \<Longrightarrow> gap (Stack (O_pushbytes b)) xs s"
| assert_bytes: "gap (Branch O_assert) (TBytes b # xs) s"
| assert_empty: "gap (Branch O_assert) [] s"
| math_single: "f \<noteq> O_bnot \<Longrightarrow> gap (MathByte f) [v] 1"
| divw_two: "gap (Arith O_divw) [TInt i2, TInt i1] 2"
| divmodw_three: "gap (Arith O_divmodw) [TInt i3, TInt i2, v] 3"
| sqrt_bytes: "gap (Arith O_sqrt) (TBytes b # xs) s"
| hash_int: "gap (Crypto h) (TInt i # xs) s"
| select_bytes: "gap (Stack O_select) (TBytes b # v # w # xs) s"
| bzero_bytes: "gap (Byte O_bzero) (TBytes b # xs) s"

lemma gap_no_op_rule: "gap op xs s \<Longrightarrow> \<not> op_rule C op xs s r"
  by (induction rule: gap.induct)
    (auto simp: is_bytes_def elim!: op_rule.cases elim: byte_rule.cases bit_rule.cases stack_rule.cases math_byte_rule.cases arith_rule.cases
      crypto_rule.cases ill_typed_rule.cases underflow_rule.cases)

lemma gap_no_branch: "gap (Branch f) xs s \<Longrightarrow> \<not> branch_step f ks c c'"
  by (auto elim!: gap.cases elim: branch_step.cases)

lemma gap_no_scratch: "\<not> gap (Scratch f) xs s"
  by (auto elim: gap.cases)

text \<open>
  C35: in each of thirteen situations where the virtual machine must panic the semantics has no
  rule, and the execution is stuck, without an exit code: a byte set or a bit read beyond the
  end of an array, a constant pushed on a full stack, an assertion of bytes or on an empty stack,
  a byte-array operation with one argument, a wide division with too few, a square root or
  \<open>bzero\<close> of bytes, a hash of a number, and \<open>select\<close> on bytes.
\<close>

theorem gaps_get_stuck:
  assumes "gap op (stack_cell c) (stacksize c)" and "k_cell c = Op op # ks" and "ks \<noteq> []"
  shows "\<not> (\<exists>c'. step C c c')"
proof
  assume "\<exists>c'. step C c c'"
  then obtain c' where "step C c c'" by blast
  then show False
  proof cases
    case (jump i ks)
    then show ?thesis using assms(2) by (auto elim: jump_step.cases)
  next
    case (control i ks)
    then show ?thesis using assms(2) by (auto elim: control_step.cases)
  qed (use assms gap_no_op_rule gap_no_branch gap_no_scratch in auto)
qed

theorem gaps_get_stuck_witness:
  "\<not> (\<exists>c'. step sample_crypto (sample_config\<lparr>k_cell := [Op (Byte O_setbyte), IncrementPC, FetchOpcode],
     stack_cell := [TInt 7, TInt 2, TBytes [1, 2]], stacksize := 3\<rparr>) c')"
  by (rule gaps_get_stuck [OF _ _ list.distinct(2)]) (simp_all add: MAX_UINT8_def gap.setbyte_index)

text \<open>
  \<open>substring3\<close> takes its three arguments in the opposite order: with the end index on top,
  the start index and the array below, as the virtual machine has them, the only outcome is the
  panic for an ill-typed stack.
\<close>

theorem substring3_order:
  "op_rule C (Byte O_substring3) (TInt en # TInt st # TBytes b # xs) s r \<longleftrightarrow> r = Panic ILL_TYPED_STACK s"
proof
  assume "op_rule C (Byte O_substring3) (TInt en # TInt st # TBytes b # xs) s r"
  then show "r = Panic ILL_TYPED_STACK s"
    by (auto elim!: op_rule.cases elim: byte_rule.cases ill_typed_rule.cases underflow_rule.cases)
qed (use ill_typed_rule.substring3 in \<open>auto simp: is_bytes_def intro: op_rule.ill_typed\<close>)

section \<open>Returns from subroutines\<close>

text \<open>
  C20: \<open>retsub\<close> after \<open>proto\<close> removes the local values and the arguments of the subroutine and
  leaves its results on what the caller had below the arguments, so that the stack has
  \<open>args - rets\<close> values less than at the call; but the cell that counts the values is set to
  the size at the call less the number of the results.
\<close>

theorem retsub_after_proto:
  assumes "jump_step ReturnSubroutine ks c c'" and "callStack c = ProtoFrame a (int p) (int args) (int rets) # fs"
    and "stack_cell c = locals @ results @ arguments @ below" "length results = rets" "length arguments = args"
      "length below + args = p" "stacksize c = int (length (stack_cell c))"
  shows "stack_cell c' = results @ below \<and> pc_cell c' = a \<and> callStack c' = fs \<and> stacksize c' = int p - int rets"
  using assms(1)
proof cases
  case (return_proto a' p' args' rets' fs' n xs)
  then have f: "a' = a" "p' = int p" "args' = int args" "rets' = int rets" "fs' = fs" using assms(2) by simp_all
  then have "n - int p - int rets = int (length locals)" using return_proto assms(3-6) by simp
  then have xs: "xs = results @ arguments @ below" using return_proto f assms(3) by (simp add: drop_stack_def)
  have "nat (int args + int rets) = length results + length arguments" using assms(4,5) by simp
  then have "take_stack rets' xs = results" "drop_stack (args' + rets') xs = below"
    using xs f assms(4) by (simp_all add: take_stack_def drop_stack_def)
  with return_proto f assms(7) show ?thesis by simp
qed (use assms(2) in simp_all)

theorem retsub_after_proto_witness:
  "\<exists>c'. jump_step ReturnSubroutine [] (sample_config\<lparr>callStack := [ProtoFrame 4 2 1 1], stack_cell := [TInt 9, TInt 8, TInt 7, TInt 6],
       stacksize := 4\<rparr>) c' \<and> stack_cell c' = [TInt 8, TInt 6] \<and> stacksize c' = 1"
proof -
  let ?c = "sample_config\<lparr>callStack := [ProtoFrame 4 2 1 1], stack_cell := [TInt 9, TInt 8, TInt 7, TInt 6], stacksize := 4\<rparr>"
  have f: "callStack ?c = [ProtoFrame 4 2 1 1]" by simp
  obtain c' where c: "jump_step ReturnSubroutine [] ?c c'" using jump_step.return_proto [OF f refl refl] by blast
  from retsub_after_proto [OF c, where a = 4 and p = 2 and args = 1 and rets = 1 and fs = "[]" and
      locals = "[TInt 9]" and results = "[TInt 8]" and arguments = "[TInt 7]" and below = "[TInt 6]"]
  have "stack_cell c' = [TInt 8, TInt 6] \<and> stacksize c' = 1" by simp
  with c show ?thesis by blast
qed

end
