(* ===== verification/ConditionRuns.thy ===== *)
theory ConditionRuns
  imports Prover TealRuns
begin

text \<open>
  The conditions of a contract's methods (\<open>prover.py\<close>), run by the TEAL interpreter: PyTeal
  compiles an expression to the opcodes of its operands and then its own, and what those leave
  on the stack agrees with the translation of the condition to K.
\<close>

section \<open>The opcodes of an expression\<close>

fun arith_opcode :: "pyteal_op \<Rightarrow> opcode option" where
  "arith_opcode Op_add = Some (Arith O_add)"
| "arith_opcode Op_minus = Some (Arith O_sub)"
| "arith_opcode Op_mul = Some (Arith O_mul)"
| "arith_opcode Op_div = Some (Arith O_div)"
| "arith_opcode op = None"

fun compare_opcode :: "pyteal_op \<Rightarrow> opcode option" where
  "compare_opcode Op_lt = Some (Relational O_lt)"
| "compare_opcode Op_gt = Some (Relational O_gt)"
| "compare_opcode Op_le = Some (Relational O_le)"
| "compare_opcode Op_ge = Some (Relational O_ge)"
| "compare_opcode Op_eq = Some (Relational O_eq)"
| "compare_opcode Op_neq = Some (Relational O_neq)"
| "compare_opcode op = None"

text \<open>\<open>\<rho>\<close> has the values of the arguments; a number must fit into 64 bits.\<close>

fun value_code :: "(string \<Rightarrow> 64 word) \<Rightarrow> pyteal_expr \<Rightarrow> opcode list option" where
  "value_code \<rho> (SymbolicInt name) = Some [Stack (O_pushint (uint (\<rho> name)))]"
| "value_code \<rho> (ConstInt v) = (if 0 \<le> v \<and> v \<le> MAX_UINT64 then Some [Pseudo (O_int v)] else None)"
| "value_code \<rho> (BinaryExpr op l r) =
     (case (value_code \<rho> l, value_code \<rho> r, arith_opcode op) of (Some a, Some b, Some f) \<Rightarrow> Some (a @ b @ [f]) | _ \<Rightarrow> None)"
| "value_code \<rho> (NaryExpr op [l, r]) =
     (case (value_code \<rho> l, value_code \<rho> r, arith_opcode op) of (Some a, Some b, Some f) \<Rightarrow> Some (a @ b @ [f]) | _ \<Rightarrow> None)"
| "value_code \<rho> _ = None"

definition condition_code :: "(string \<Rightarrow> 64 word) \<Rightarrow> pyteal_op \<Rightarrow> pyteal_expr \<Rightarrow> pyteal_expr \<Rightarrow> opcode list option" where
  "condition_code \<rho> op l r =
     (case (value_code \<rho> l, value_code \<rho> r, compare_opcode op) of (Some a, Some b, Some f) \<Rightarrow> Some (a @ b @ [f]) | _ \<Rightarrow> None)"

section \<open>Running them\<close>

inductive_cases runs_opsE: "runs_ops C [] xs s zs u" "runs_ops C (op # ops) xs s zs u"

lemma runs_ops_append: "runs_ops C (a @ b) xs s zs u \<Longrightarrow> \<exists>ys t. runs_ops C a xs s ys t \<and> runs_ops C b ys t zs u"
proof (induction a arbitrary: xs s)
  case Nil
  then show ?case using runs_ops.Nil by fastforce
next
  case (Cons op a)
  then obtain vs v where "op_rule C op xs s (Next vs v)" "runs_ops C (a @ b) vs v zs u" by (auto elim: runs_opsE)
  with Cons.IH show ?case by (blast intro: runs_ops.Cons)
qed

lemma runs_ops_last: "runs_ops C (a @ b @ [f]) xs s zs u \<Longrightarrow>
    \<exists>ys t ys' t'. runs_ops C a xs s ys t \<and> runs_ops C b ys t ys' t' \<and> op_rule C f ys' t' (Next zs u)"
  by (auto dest!: runs_ops_append elim!: runs_opsE)

lemma arith_opcode_runs:
  assumes "arith_opcode op = Some f" and "op_rule C f (TInt (uint b) # TInt (uint a) # xs) s (Next ys t)"
  shows "\<exists>w. avm_arith op a b = Some w \<and> ys = TInt (uint w) # xs \<and> t = s - 1"
proof (cases op)
  case Op_add
  with assms have "uint a + uint b \<le> MAX_UINT64" "ys = TInt (uint a + uint b) # xs" "t = s - 1"
    by (auto elim!: op_rule.cases elim: arith_rule.cases ill_typed_rule.cases underflow_rule.cases)
  with Op_add show ?thesis by (simp add: MAX_UINT64_def uint_word_ariths)
next
  case Op_minus
  with assms have "uint b \<le> uint a" "ys = TInt (uint a - uint b) # xs" "t = s - 1"
    by (auto elim!: op_rule.cases elim: arith_rule.cases ill_typed_rule.cases underflow_rule.cases)
  with Op_minus show ?thesis by (simp add: uint_sub_if')
next
  case Op_mul
  with assms have "uint a * uint b \<le> MAX_UINT64" "ys = TInt (uint a * uint b) # xs" "t = s - 1"
    by (auto elim!: op_rule.cases elim: arith_rule.cases ill_typed_rule.cases underflow_rule.cases)
  with Op_mul show ?thesis by (simp add: MAX_UINT64_def uint_word_ariths)
next
  case Op_div
  with assms have "0 < uint b" "ys = TInt (uint a sdiv uint b) # xs" "t = s - 1"
    by (auto elim!: op_rule.cases elim: arith_rule.cases ill_typed_rule.cases underflow_rule.cases)
  with Op_div show ?thesis by (simp add: sdiv_nonneg uint_div)
qed (use assms(1) in simp_all)

lemma compare_opcode_runs:
  assumes "compare_opcode op = Some f" and "op_rule C f (TInt (uint b) # TInt (uint a) # xs) s (Next ys t)"
  shows "\<exists>x. avm_compare op a b = Some x \<and> ys = TInt (bool2Int x) # xs \<and> t = s - 1"
  using assms
  by (cases op) (auto simp: word_uint_eq_iff elim!: op_rule.cases elim: relational_rule.cases ill_typed_rule.cases underflow_rule.cases)

lemma value_code_runs:
  "value_code \<rho> e = Some ops \<Longrightarrow> runs_ops C ops xs s ys t \<Longrightarrow>
     \<exists>w. avm_eval \<rho> e = Some w \<and> ys = TInt (uint w) # xs \<and> t = s + 1"
proof (induction e arbitrary: ops xs s ys t rule: avm_eval.induct)
  case (1 \<rho> name)
  then show ?case
    by (auto elim!: runs_opsE op_rule.cases elim: stack_rule.cases ill_typed_rule.cases underflow_rule.cases)
next
  case (2 \<rho> v)
  then show ?case
    by (auto simp: uint_of_bounded split: if_splits
        elim!: runs_opsE op_rule.cases elim: pseudo_rule.cases ill_typed_rule.cases underflow_rule.cases)
next
  case (3 \<rho> op l r)
  then obtain a b f where c: "value_code \<rho> l = Some a" "value_code \<rho> r = Some b" "arith_opcode op = Some f" "ops = a @ b @ [f]"
    by (auto split: option.splits)
  with 3(4) obtain xs1 s1 xs2 s2 where r: "runs_ops C a xs s xs1 s1" "runs_ops C b xs1 s1 xs2 s2" "op_rule C f xs2 s2 (Next ys t)"
    by (blast dest: runs_ops_last)
  from 3(1) [OF c(1) r(1)] 3(2) [OF c(2) r(2)] obtain u v where
    "avm_eval \<rho> l = Some u" "avm_eval \<rho> r = Some v" "xs2 = TInt (uint v) # TInt (uint u) # xs" "s2 = s + 2" by auto
  with arith_opcode_runs [OF c(3)] r(3) show ?case by fastforce
next
  case (4 \<rho> op l r)
  then obtain a b f where c: "value_code \<rho> l = Some a" "value_code \<rho> r = Some b" "arith_opcode op = Some f" "ops = a @ b @ [f]"
    by (auto split: option.splits)
  with 4(4) obtain xs1 s1 xs2 s2 where r: "runs_ops C a xs s xs1 s1" "runs_ops C b xs1 s1 xs2 s2" "op_rule C f xs2 s2 (Next ys t)"
    by (blast dest: runs_ops_last)
  from 4(1) [OF c(1) r(1)] 4(2) [OF c(2) r(2)] obtain u v where
    "avm_eval \<rho> l = Some u" "avm_eval \<rho> r = Some v" "xs2 = TInt (uint v) # TInt (uint u) # xs" "s2 = s + 2" by auto
  with arith_opcode_runs [OF c(3)] r(3) show ?case by fastforce
qed auto


text \<open>\<open>a + b <= 100\<close> for two arguments of value 40.\<close>

lemma sample_condition:
  "condition_code (\<lambda>n. 40) Op_le (NaryExpr Op_add [SymbolicInt ''a'', SymbolicInt ''b'']) (ConstInt 100) =
     Some [Stack (O_pushint 40), Stack (O_pushint 40), Arith O_add, Pseudo (O_int 100), Relational O_le]"
  by (simp add: condition_code_def MAX_UINT64_def)

lemma sample_condition_runs:
  "runs_ops sample_crypto [Stack (O_pushint 40), Stack (O_pushint 40), Arith O_add, Pseudo (O_int 100), Relational O_le] [] 0 [TInt 1] 1"
proof -
  have o1: "op_rule sample_crypto (Stack (O_pushint 40)) [] 0 (Next [TInt 40] 1)"
    using stack_rule.pushint [of 0 40 "[]"] by (simp add: op_rule.stack MAX_STACK_DEPTH_def)
  have o2: "op_rule sample_crypto (Stack (O_pushint 40)) [TInt 40] 1 (Next [TInt 40, TInt 40] 2)"
    using stack_rule.pushint [of 1 40 "[TInt 40]"] by (simp add: op_rule.stack MAX_STACK_DEPTH_def)
  have o3: "op_rule sample_crypto (Arith O_add) [TInt 40, TInt 40] 2 (Next [TInt 80] 1)"
    using arith_rule.add [of 40 40 "[]" 2] by (simp add: op_rule.arith MAX_UINT64_def)
  have o4: "op_rule sample_crypto (Pseudo (O_int 100)) [TInt 80] 1 (Next [TInt 100, TInt 80] 2)"
    using pseudo_rule.int_const [of 1 sample_crypto 100 "[TInt 80]"] by (simp add: op_rule.pseudo MAX_STACK_DEPTH_def)
  have o5: "op_rule sample_crypto (Relational O_le) [TInt 100, TInt 80] 2 (Next [TInt 1] 1)"
    using relational_rule.le [of 100 80 "[]" 2] by (simp add: op_rule.relational bool2Int_def)
  show ?thesis
    by (rule runs_ops.Cons [OF o1 runs_ops.Cons [OF o2 runs_ops.Cons [OF o3 runs_ops.Cons [OF o4 runs_ops.Cons [OF o5 runs_ops.Nil]]]]])
qed


end
