(* ===== verification/Spec2Isabelle.thy ===== *)
theory Spec2Isabelle
  imports Composer KavmProof Prover KcfgCommands History CalculatorSpec Profiling
    TealSafety TealProgress ConditionRuns
begin

text \<open>
  KAVM runs Algorand transaction groups on a K semantics of the AVM. The semantics is K code;
  the Python package \<open>kavm\<close> (\<open>kavm/src/kavm\<close>) prepares its inputs, runs the K tools and reads
  their outputs. This development models that package, and of the semantics the interpreter of
  TEAL.

  \<^bold>\<open>The parts and how they interact.\<close> A client of the Algorand SDK talks to \<open>KAVMClient\<close>
  (\<open>algod.py\<close>) as if it were a node: a submitted group is turned into a JSON scenario
  (\<open>scenario.py\<close>, with byte fields and defaults from \<open>adaptors/\<close>), the scenario and its TEAL
  programs are handed to \<open>krun\<close> (\<open>kavm.py\<close>), and the state dump the run prints replaces the
  client's accounts and extends its committed transactions. The composer of the same file
  executes groups of method calls over such a client. For proofs, accounts and transactions
  become K cells (\<open>kast/factory.py\<close>, \<open>adaptors/\<close>, \<open>pyk_utils.py\<close>), a group becomes a K claim
  (\<open>proof.py\<close>), and conditions on contract methods are written in PyTeal (\<open>prover.py\<close>).
  \<open>kompile.py\<close> compiles the semantics and \<open>__main__.py\<close> is the command line over all of it.

  \<^bold>\<open>Shared theories.\<close>
  \<^item> \<open>Prelude\<close>: exceptions, the result type \<open>exn + 'a\<close> with its combinators (\<open>bind_res\<close>,
    \<open>catch_res\<close>, \<open>mapM_res\<close>, \<open>foldM_res\<close>; the collection \<open>res_iff\<close> says when a composed
    computation returns), Python dictionaries as association lists in insertion order, and
    the interfaces \<open>dict_ops\<close> (what lookups return after updates) and \<open>codec\<close> (decoding undoes
    encoding, hence encoding is injective).
  \<^item> \<open>PyStd\<close>: what is used of Python's strings, integers, byte strings and base64 (three
    interpretations of \<open>codec\<close>). \<open>Json\<close>: \<open>json.dumps\<close> and \<open>json.loads\<close>, again a \<open>codec\<close>.
    \<open>PyVal\<close>: dynamically typed values.
  \<^item> \<open>Kast\<close> and \<open>Sdk\<close>: the packages \<open>pyk\<close> and \<open>py-algorand-sdk\<close> are not part of the repository;
    they are the records \<open>pyk\<close> and \<open>sdk\<close>, arguments of the definitions that use them, and what
    the code relies on is stated as laws (\<open>pyk_\<dots>_law\<close>, \<open>sdk_\<dots>_law\<close>). \<open>RefLibrary\<close> defines
    one instance of each and proves the laws, so the hypotheses of the properties can be met;
    the witnesses run on it.

  \<^bold>\<open>Components, in the order they import each other.\<close>
  \<^item> \<open>PykUtils\<close> (\<open>pyk_utils.py\<close>): tokens, TEAL value lists, K maps, cells taken out of a
    configuration. The lists are read back element by element, the detour of a byte string
    over its quoted text loses nothing, and substituting the cells into the emptied
    configuration gives the configuration back.
  \<^item> \<open>TealKeyValue\<close>, \<open>AlgodApplication\<close>, \<open>AlgodAccount\<close>, \<open>AlgodTransaction\<close> (\<open>adaptors/\<close>,
    \<open>constants.py\<close>): objects of the SDK to K cells and back, with round trips for
    applications and accounts, the content of every field of a transaction cell, and the
    byte fields of JSON transactions.
  \<^item> \<open>Scenario\<close> (\<open>scenario.py\<close>): completion with defaults is idempotent, keeps what was given and
    fills what the type of a transaction needs; a returned scenario is well formed and has
    the source of every program it names; malformed inputs give the exceptions stated.
    \<open>Completion\<close> shows that completed accounts are left alone by a second pass and survive
    the way through the SDK's objects.
  \<^item> \<open>KavmRunner\<close> (\<open>kavm.py\<close>): the object and its paths; results only come from successful runs,
    which depend on the programs of their scenario alone; how failures are reported.
  \<^item> \<open>AlgodClient\<close> (\<open>algod.py\<close>): the record \<open>client\<close> holds the accounts, the creators of
    applications, the committed transactions and the last scenario, and an operation is a function
    from a client to a client and a result, so that an exception keeps what was assigned
    before it. \<open>reachable\<close> is the set of states requests can lead to; its invariants are on the
    dictionaries (nothing filed twice, accounts under their own address) and on the scenario sent
    last (complete, with every program it names). The locale \<open>keeping\<close> lifts a relation that
    one step keeps to loops, and is interpreted on the code's loops for each invariant.
  \<^item> \<open>History\<close>: an abstract ledger of balances and confirmed transactions with its steps, the
    proof that every request of the client is one of them, and what follows for sequences of
    requests: no transaction is ever lost.
  \<^item> \<open>Composer\<close> (\<open>algod.py\<close>): the status machine of \<open>execute\<close>, the reading of return values, and
    when an execution comes to an answer.
  \<^item> \<open>Factory\<close> (\<open>kast/factory.py\<close>), \<open>KavmProof\<close> (\<open>proof.py\<close>), \<open>Prover\<close> (\<open>prover.py\<close>): the cells
    of symbolic accounts, the claim built from them with its conditions and both of its
    configurations, what a returning proof means, and the translation of conditions, which
    agrees with the AVM's 64-bit opcodes (taken from the rules in \<open>teal-driver.md\<close>) wherever
    these do not panic.
  \<^item> \<open>ReturnValue\<close>, \<open>MethodProof\<close> (\<open>prover.py\<close>), \<open>CalculatorSpec\<close>
    (\<open>proofs/create_pyteal_contract.py\<close>): K's byte functions and the opcodes \<open>itob\<close> and
    \<open>btoi\<close>, so that a postcondition is shown to say which bytes a method logged; the proof made
    of every method of a contract, its group, and the meaning of its arguments; and the
    specification of a calculator against its contract.
  \<^item> \<open>Kompile\<close> (\<open>kompile.py\<close>), \<open>Cli\<close> (\<open>__main__.py\<close>): command lines, the table of arguments, the
    dispatch to executors with their arguments, and the executors. \<open>KcfgCommands\<close> (\<open>__main__.py\<close>):
    \<open>kcfg-prove\<close> and \<open>kcfg-view\<close> on the file system, with the proof one leaves for the other.
  \<^item> \<open>Profiling\<close> (\<open>profiling/__main__.py\<close>): the table of a profile is one stable sort of KAVM's
    functions; making a path relative twice, as the code does, is the same as once.

  \<^bold>\<open>The semantics\<close> (\<open>lib/include/kframework/avm/\<close>), one introduction rule for each rule of K:
  \<^item> \<open>KBytes\<close>: K's functions on byte strings. \<open>TealValues\<close> (\<open>teal/teal-types.md\<close>, \<open>avm-limits.md\<close>,
    the functions of \<open>teal/teal-driver.md\<close>): values, 128-bit halves, square roots, bits, bitwise
    operations. Both algorithms for square roots compute the integer square root, and the bitwise
    operations work byte by byte.
  \<^item> \<open>TealOpcodes\<close> (\<open>teal/teal-driver.md\<close>, \<open>teal/teal-stack.md\<close>, \<open>teal/teal-syntax.md\<close>,
    \<open>panics.md\<close>): the opcodes on the stack, one relation for each group (\<open>arith_rule\<close>, \<open>bit_rule\<close>,
    \<open>byte_rule\<close> and so on), the panics for ill-typed and missing arguments, and all of them
    together in \<open>op_rule\<close>. \<open>TealTyping\<close>: they keep a stack within the bounds of the AVM, and where
    one succeeds there is no second result.
  \<^item> \<open>TealMachine\<close> (\<open>teal/teal-execution.md\<close>, \<open>teal/teal-driver.md\<close>, \<open>avm-configuration.md\<close>,
    \<open>avm-execution.md\<close>): the configuration, jumps, subroutines, scratch space, and the control
    of an application call, together the relation \<open>step\<close>. \<open>TealRuns\<close>: runs through whole
    programs. \<open>TealSafety\<close>: bounds of every reachable configuration, the two ways a run can end,
    and the end of programs that only jump forward. \<open>TealProgress\<close>: which opcodes always have
    a rule and where the rules leave gaps.
  \<^item> \<open>ConditionRuns\<close>: the conditions of contract methods, run by that interpreter, agree with what
    \<open>prover.py\<close> translates them to.

  \<^bold>\<open>Properties that span components\<close> are at the end of this theory: the client hands the state
  from one run to the next through the SDK's objects and the next scenario without loss, and
  a composer over the client returns to the caller of a method what the dump of the run holds
  for its transaction.

  \<^bold>\<open>Conventions.\<close> A Python string is a list of characters with code points below 256. Messages of
  exceptions are kept only where the code reads them again. Logging is left out. A record
  field is named like the attribute it stands for. Where the code mutates a list or
  dictionary that is shared, the value is threaded through; the aliases the code keeps are
  described where they matter.

  \<^bold>\<open>Loops and fuel.\<close> Recursion over data is structural or has a measure. The one loop whose end
  depends on foreign code, the decoding of a group, is a partial function; it is total for
  an unpacker that consumes input. The JSON reader has twice the length of its text as fuel, which is always enough
  (\<open>json_loads_total\<close>), and
  \<open>ref_top_down\<close> uses the size of the term as fuel, which bounds the depth of its traversal.

  \<^bold>\<open>Not modelled.\<close> Of the K semantics under \<open>lib/\<close>: the opcodes that read or write the blockchain
  (fields of transactions and of the ledger, application state, boxes, inner transactions, the
  other transactions of a group), constant blocks, which the source does not use, smart
  signatures, the execution of groups, and the text of the return status. The hash functions
  are a parameter. For the Python code the compiled semantics is a parameter (\<open>krun\<close>, the
  prover). The C++ hooks are not modelled. The base classes of \<open>KAVM\<close>, the exploration and
  display of control-flow graphs and the terminal interface belong to \<open>pyk\<close>. The call of \<open>KAVM\<close>
  in \<open>AutoProver.__init__\<close> raises a \<open>TypeError\<close>; what follows it is modelled on its own
  (\<open>contract_proofs\<close>), from the symbolic accounts on, with what it would hand to methods
  that \<open>KAVMProof\<close> does not have kept in the record \<open>method_proof\<close>. \<open>pstats\<close> and \<open>tabulate\<close>,
  tests, TEAL sources and build files are left aside.
\<close>

section \<open>From one group to the next\<close>

lemma scenario_json_setup:
  assumes "scenario_of_value S E (scenario_json (map PDict accs) ts) = Inr sc" and "sanitize_accounts S (PList (map PDict accs)) = Inr accs"
  shows "\<exists>accs' progs. thread_list (extract_account E) accs [] = Inr (accs', progs) \<and>
    stage_data (hd (stages sc)) ''accounts'' = Inr (PList (map PDict accs'))"
proof -
  let ?s = "PDict [(''stage-type'', PStr ''setup-network''), (''data'', PDict [(''accounts'', PList (map PDict accs))])]"
  from assms(1) obtain s0 p s1 q xs where s0: "setup_stage S E (PList (?s # xs)) = Inr (s0, p)"
    and st: "stages sc = (?s # xs)[0 := s0, 1 := s1]"
    by (auto simp: scenario_of_value_def scenario_json_def res_iff split: if_splits)
  from s0 obtain accs' where "thread_list (extract_account E) accs [] = Inr (accs', p)"
    and put: "put_stage_data ?s ''accounts'' (PList (map PDict accs')) = Inr s0"
    by (auto simp: setup_stage_def res_iff stage_data_def dict_lookup_def assms(2))
  then show ?thesis using st put_stage_data_get [OF put] by auto
qed



definition one_account_dump :: pydict where
  "one_account_dump = [(''accounts'', PList [PDict [(''address'', PStr ''B''), (''amount'', PInt 7)]]),
     (''transactions'', PList [PDict [(''id'', PStr ''0''), (''params'', PInt 5)]])]"

definition account_B :: pyval where
  "account_B = snd (hd (accounts (snd (update_state ref_sdk one_account_dump faucet_client))))"

lemma one_account_dump_ok:
  "json_ok (PDict one_account_dump)" "wf_val (PDict one_account_dump)"
  "\<not> isl (fst (update_state ref_sdk one_account_dump (faucet_client\<lparr>last_scenario := x\<rparr>)))"
  "map snd (accounts (snd (update_state ref_sdk one_account_dump (faucet_client\<lparr>last_scenario := x\<rparr>)))) = [account_B]"
  by code_simp+

lemma account_B_scenario:
  "json_ok (scenario_json [PDict (dictify ref_sdk account_B)] [])"
  "wf_val (scenario_json [PDict (dictify ref_sdk account_B)] [])"
  "\<not> isl (scenario_of_value ref_sdk (a_teal sample_algod) (scenario_json [PDict (dictify ref_sdk account_B)] []))"
  by code_simp+


section \<open>Method calls over the client\<close>

text \<open>
  A composer over the client: the SDK's \<open>pending_transaction_info\<close> is a GET request for the
  transaction, waiting only sends such requests, and \<open>submit\<close> returns when the client has
  accepted the group it was sent.
\<close>

definition kavm_client_law :: "algod_env \<Rightarrow> ('s::linorder, client) composer_sdk \<Rightarrow> bool" where
  "kavm_client_law A L \<longleftrightarrow> is_kavm_client L \<and> length (ABI_RETURN_HASH L) = 4 \<and>
     (\<forall>i k. pending_transaction_info L i k = (handle_get (a_sdk A) k (''/transactions/pending/'' @ i), k)) \<and>
     (\<forall>i w k. snd (wait_for_confirmation L i w k) = k) \<and>
     (\<forall>s c1 k1. base_submit L s = (Inr (), (c1, k1)) \<longrightarrow>
        (\<exists>txns r. eval_transactions A txns (snd s) = (Inr r, k1)))"

lemma sequential_id_plain: "i \<in> set (sequential_ids xs) \<Longrightarrow> CHR ''/'' \<notin> set i"
proof -
  have "CHR ''/'' \<notin> set (nat_digits n)" for n
    using nat_digits_all [of n] by (auto simp: list_all_iff is_digit_def code_point_def)
  then show "i \<in> set (sequential_ids xs) \<Longrightarrow> CHR ''/'' \<notin> set i"
    by (auto simp: sequential_ids_def str_of_int_def)
qed

text \<open>
  C5: from the logs of a run to the caller of a method. When a composer has executed a group over
  the client, the group's run printed a state dump; the ids it returns are the numbers of the
  transactions in the group; and the result of the method called by transaction \<open>i\<close> is read from
  the data the dump has for the id \<open>i\<close>, if it has any: its value is decoded from the last log
  entry in there.
\<close>

theorem executed_calls_read_dump:
  assumes "kavm_client_law A L" and "execute L w (c, k) = (Inr resp, (c', k'))"
  shows "\<exists>sc out d v ts es. run_group A sc = Inr out \<and> parse_state_dump out = Inr d \<and>
    dict_lookup d ''transactions'' = Inr v \<and> py_iter v = Inr ts \<and> list_all2 txn_entry ts es \<and>
    resp_tx_ids resp = sequential_ids (txn_list c') \<and>
    (\<forall>r \<in> set (method_results resp). \<forall>p. map_of (rev es) (res_tx_id r) = Some p \<longrightarrow>
       res_tx_id r \<in> set (resp_tx_ids resp) \<and> res_tx_info r = p \<and>
       reads_return (ABI_RETURN_HASH L) (res_method r) r)"
proof -
  let ?q = "\<lambda>k i. handle_get (a_sdk A) k (''/transactions/pending/'' @ i)"
  have L: "is_kavm_client L" "length (ABI_RETURN_HASH L) = 4"
    and q: "\<And>i k. pending_transaction_info L i k = (?q k i, k)"
    and w: "\<And>i w k. snd (wait_for_confirmation L i w k) = k"
    and sub: "\<And>s c1 k1. base_submit L s = (Inr (), (c1, k1)) \<Longrightarrow> \<exists>txns r. eval_transactions A txns (snd s) = (Inr r, k1)"
    using assms(1) by (auto simp: kavm_client_law_def)
  obtain c1 k1 where b: "base_submit L (c, k) = (Inr (), (c1, k1))"
    and a: "await_group L w (submitted L c1, k1) = (Inr resp, (c', k'))"
    using assms(2) by (auto simp: execute_result split: if_splits prod.splits sum.splits)
  have ids: "comp_tx_ids (submitted L c1) = sequential_ids (txn_list (submitted L c1))"
    using L(1) by (simp add: submitted_def override_ids_def)
  from a obtain x k2 i where "wait_for_confirmation L i w k1 = (x, k2)"
    and r: "\<exists>y. read_results L (method_dict (submitted L c1)) (comp_tx_ids (submitted L c1)) y (submitted L c1, k2) =
      (Inr resp, (c', k'))"
    by (auto simp: await_group_result split: list.splits prod.splits sum.splits)
  then have k2: "k2 = k1" using w [of i _ k1] by (metis snd_conv)
  from r obtain y where y: "read_results L (method_dict (submitted L c1)) (comp_tx_ids (submitted L c1)) y (submitted L c1, k1) =
      (Inr resp, (c', k'))" unfolding k2 by blast
  have c': "c' = (submitted L c1)\<lparr>comp_status := COMMITTED L\<rparr>"
    using read_results_composer [of L _ _ y "submitted L c1" k1] y by (metis fst_conv snd_conv)
  from y obtain s3 where rid: "resp_tx_ids resp = sequential_ids (txn_list (submitted L c1))"
    and col: "collect_results L (method_dict (submitted L c1)) 0 (resp_tx_ids resp)
      ((submitted L c1)\<lparr>comp_status := COMMITTED L\<rparr>, k1) = (Inr (method_results resp), s3)"
    by (auto simp: read_results_def set_status_def res_iff ids)
  from sub [OF b] obtain txns g where "eval_transactions A txns k = (Inr g, k1)" by auto
  from accepted_entries [OF this] obtain sc out d v t ts es where
    run: "run_group A sc = Inr out" "parse_state_dump out = Inr d" "dict_lookup d ''transactions'' = Inr v"
      "py_iter v = Inr (t # ts)" "list_all2 txn_entry (t # ts) es"
    and com: "\<forall>i p. map_of (rev es) i = Some p \<longrightarrow> dict_get (committed_txns k1) i = Some p" by blast
  have "res_tx_id r \<in> set (resp_tx_ids resp) \<and> res_tx_info r = p \<and> reads_return (ABI_RETURN_HASH L) (res_method r) r"
    if r: "r \<in> set (method_results resp)" and p: "map_of (rev es) (res_tx_id r) = Some p" for r p
  proof -
    from collect_results_info [OF q col] r have i: "res_tx_id r \<in> set (resp_tx_ids resp)"
      "?q k1 (res_tx_id r) = Inr (res_tx_info r)"
      and m: "method_result (ABI_RETURN_HASH L) (res_tx_id r) (res_method r) (res_tx_info r) = Inr r" by auto
    have "?q k1 (res_tx_id r) = Inr p"
      by (rule pending_committed) (use com p sequential_id_plain i(1) rid in auto)
    with i method_result_value [OF L(2) m] show ?thesis by simp
  qed
  moreover have "txn_list c' = txn_list (submitted L c1)" by (simp add: c')
  ultimately show ?thesis using run rid by metis
qed


definition call_dump :: pydict where
  "call_dump = [(''accounts'', PList []),
     (''transactions'', PList [PDict [(''id'', PStr ''0''), (''params'', sample_info)]])]"

lemma call_dump_ok:
  "json_ok (PDict call_dump)" "wf_val (PDict call_dump)"
  "\<not> isl (fst (update_state ref_sdk call_dump (faucet_client\<lparr>last_scenario := x\<rparr>)))"
  "committed_txns (snd (update_state ref_sdk call_dump (faucet_client\<lparr>last_scenario := x\<rparr>))) = [(''0'', sample_info)]"
  by code_simp+

definition kavm_sdk :: "algod_env \<Rightarrow> (group_status, client) composer_sdk" where
  "kavm_sdk A = \<lparr>is_kavm_client = True, SUBMITTED = Submitted, COMMITTED = Committed,
     ABI_RETURN_HASH = [21, 31, 124, 117],
     base_submit = (\<lambda>(c, k). case eval_transactions A [] k of
         (Inl e, k') \<Rightarrow> (Inl e, (c, k'))
       | (Inr r, k') \<Rightarrow> (Inr (), (c\<lparr>comp_tx_ids := [''HASH'']\<rparr>, k'))),
     wait_for_confirmation = (\<lambda>i w k. (handle_get (a_sdk A) k (''/transactions/pending/'' @ i), k)),
     pending_transaction_info = (\<lambda>i k. (handle_get (a_sdk A) k (''/transactions/pending/'' @ i), k))\<rparr>"

lemma kavm_sdk_law: "kavm_client_law A (kavm_sdk A)"
  by (auto simp: kavm_client_law_def kavm_sdk_def split: prod.splits sum.splits)

lemma sample_method_result:
  "\<exists>r. method_result [21, 31, 124, 117] ''0'' sample_method sample_info = Inr r \<and> res_tx_id r = ''0'' \<and> res_return_value r = PInt 1"
proof -
  have "case method_result [21, 31, 124, 117] ''0'' sample_method sample_info of Inl e \<Rightarrow> False
    | Inr r \<Rightarrow> res_tx_id r = ''0'' \<and> res_return_value r = PInt 1"
    by code_simp
  then show ?thesis by (auto split: sum.splits)
qed

theorem executed_calls_read_dump_witness:
  "\<exists>resp s' r. execute (kavm_sdk (algod_with 0 (PDict call_dump))) 4 (sample_composer, faucet_client) = (Inr resp, s') \<and>
     resp_tx_ids resp = [''0''] \<and> method_results resp = [r] \<and> res_return_value r = PInt 1"
proof -
  let ?A = "algod_with 0 (PDict call_dump)"
  let ?L = "kavm_sdk ?A"
  obtain sc g k1 where e: "eval_transactions ?A [] faucet_client = (Inr g, k1)"
    and u: "update_state ref_sdk call_dump (faucet_client\<lparr>last_scenario := Some sc\<rparr>) = (Inr g, k1)"
    using accepted_by_faucet [OF call_dump_ok(1-3)] by blast
  have "committed_txns k1 = [(''0'', sample_info)]" using call_dump_ok(4) [of "Some sc"] u by simp
  then have info: "handle_get ref_sdk k1 (''/transactions/pending/'' @ ''0'') = Inr sample_info"
    by (intro pending_committed) simp_all
  have ids: "sequential_ids [PNone] = [''0'']" by code_simp
  obtain r where r: "method_result [21, 31, 124, 117] ''0'' sample_method sample_info = Inr r" "res_return_value r = PInt 1"
    using sample_method_result by blast
  have "\<exists>resp s'. execute ?L 4 (sample_composer, faucet_client) = (Inr resp, s') \<and> method_results resp = [r] \<and>
      txn_list (fst s') = [PNone]"
    using e info r(1)
    by (simp add: execute_result kavm_sdk_def less_group_status_def less_eq_group_status_def sample_composer_def
        await_group_result submitted_def override_ids_def ids read_results_def set_status_def on_client_def
        bind_act_def sample_info_def)
  then obtain resp c' k' where x: "execute ?L 4 (sample_composer, faucet_client) = (Inr resp, (c', k'))"
    and m: "method_results resp = [r]" "txn_list c' = [PNone]" by auto
  from executed_calls_read_dump [OF kavm_sdk_law x] have "resp_tx_ids resp = sequential_ids (txn_list c')" by blast
  with x m r(2) ids show ?thesis by metis
qed

end
